(* ===== verification/Prelude.thy ===== *)
theory Prelude
  imports Main "HOL-Library.Word" "HOL-Library.AList" "HOL-Library.Char_ord"
    "HOL-Library.List_Lexorder"
begin

text \<open>
  What every component shares: Python exceptions as values, the computations that thread a state
  and may raise, JSON values and dictionaries in insertion order, and the string operations of
  Python the sources call.
\<close>

named_theorems comp_simps \<open>unfolding of the computation combinators\<close>

section \<open>Exceptions and results\<close>

text \<open>
  The exceptions the sources raise or run into.  \<open>OSError n\<close> stands for the class with all its
  subclasses (FileNotFoundError, ProcessLookupError, PermissionError), \<open>n\<close> being the errno.
  \<open>ProcessReplaced\<close> is no exception: it ends a computation whose process image \<open>exec\<close> has replaced,
  after which no statement of the program runs any more, not even a \<open>finally\<close>.
\<close>

datatype exn =
    TypeError | AttributeError | NameError | UnboundLocalError | ValueError | KeyError
  | IndexError | StopIteration | IntegrityError | OperationalError | InterfaceError | OSError int
  | JailException string | GenericException string | SystemExit int | ProcessReplaced

type_synonym 'a res = "exn + 'a"

text \<open>The classes that \<open>except Exception\<close> and \<open>except OSError\<close> catch.\<close>

fun is_Exception :: "exn \<Rightarrow> bool" where
  "is_Exception (SystemExit n) = False"
| "is_Exception ProcessReplaced = False"
| "is_Exception e = True"

fun is_OSError :: "exn \<Rightarrow> bool" where
  "is_OSError (OSError n) = True"
| "is_OSError e = False"

definition bindR :: "'a res \<Rightarrow> ('a \<Rightarrow> 'b res) \<Rightarrow> 'b res" where
  "bindR r f = (case r of Inl e \<Rightarrow> Inl e | Inr x \<Rightarrow> f x)"

lemma bindR_simps [simp]:
  "bindR (Inl e) f = Inl e"
  "bindR (Inr x) f = f x"
  by (simp_all add: bindR_def)

lemma bindR_eq_Inr: "bindR r f = Inr y \<longleftrightarrow> (\<exists>x. r = Inr x \<and> f x = Inr y)"
  by (cases r) auto

lemma bindR_eq_Inl: "bindR r f = Inl e \<longleftrightarrow> r = Inl e \<or> (\<exists>x. r = Inr x \<and> f x = Inl e)"
  by (cases r) auto

fun mapR :: "('a \<Rightarrow> 'b res) \<Rightarrow> 'a list \<Rightarrow> 'b list res" where
  "mapR f [] = Inr []"
| "mapR f (x # xs) = bindR (f x) (\<lambda>y. bindR (mapR f xs) (\<lambda>ys. Inr (y # ys)))"

lemma mapR_total: "(\<And>x. x \<in> set xs \<Longrightarrow> f x = Inr (g x)) \<Longrightarrow> mapR f xs = Inr (map g xs)"
  by (induction xs) auto

lemma mapR_Inr_length: "mapR f xs = Inr ys \<Longrightarrow> length ys = length xs"
  by (induction xs arbitrary: ys) (auto simp: bindR_eq_Inr)

lemma mapR_list_all: "mapR f xs = Inr ys \<Longrightarrow> (\<And>x y. f x = Inr y \<Longrightarrow> P y) \<Longrightarrow> list_all P ys"
  by (induction xs arbitrary: ys) (auto simp: bindR_eq_Inr)

section \<open>Stateful computations\<close>

text \<open>
  A Python statement that reads and writes a state of type \<open>'w\<close> and may raise: the state as it is
  when the exception leaves is kept, since Python undoes nothing on the way out.
\<close>

type_synonym ('w, 'a) comp = "'w \<Rightarrow> 'a res \<times> 'w"

definition ret :: "'a \<Rightarrow> ('w, 'a) comp" where
  "ret x = (\<lambda>w. (Inr x, w))"

definition raise :: "exn \<Rightarrow> ('w, 'a) comp" where
  "raise e = (\<lambda>w. (Inl e, w))"

definition bindM :: "('w, 'a) comp \<Rightarrow> ('a \<Rightarrow> ('w, 'b) comp) \<Rightarrow> ('w, 'b) comp" where
  "bindM m f = (\<lambda>w. case m w of (Inl e, w') \<Rightarrow> (Inl e, w') | (Inr x, w') \<Rightarrow> f x w')"

definition seqM :: "('w, 'a) comp \<Rightarrow> ('w, 'b) comp \<Rightarrow> ('w, 'b) comp" where
  "seqM m k = bindM m (\<lambda>_. k)"

text \<open>\<open>try: m except p as e: h e\<close>, and \<open>try: m finally: fin\<close>.\<close>

definition tryM :: "(exn \<Rightarrow> bool) \<Rightarrow> ('w, 'a) comp \<Rightarrow> (exn \<Rightarrow> ('w, 'a) comp) \<Rightarrow> ('w, 'a) comp" where
  "tryM p m h = (\<lambda>w. case m w of
      (Inl e, w') \<Rightarrow> (if p e then h e w' else (Inl e, w'))
    | (Inr x, w') \<Rightarrow> (Inr x, w'))"

definition finallyM :: "('w, 'a) comp \<Rightarrow> ('w, 'b) comp \<Rightarrow> ('w, 'a) comp" where
  "finallyM m fin = (\<lambda>w. case m w of (r, w') \<Rightarrow>
      (if r = Inl ProcessReplaced then (r, w')
       else case fin w' of (Inl e, w'') \<Rightarrow> (Inl e, w'') | (Inr _, w'') \<Rightarrow> (r, w'')))"

definition liftR :: "'a res \<Rightarrow> ('w, 'a) comp" where
  "liftR r = (\<lambda>w. (r, w))"

definition gets :: "('w \<Rightarrow> 'a) \<Rightarrow> ('w, 'a) comp" where
  "gets f = (\<lambda>w. (Inr (f w), w))"

definition modify :: "('w \<Rightarrow> 'w) \<Rightarrow> ('w, unit) comp" where
  "modify f = (\<lambda>w. (Inr (), f w))"

definition whenM :: "bool \<Rightarrow> ('w, unit) comp \<Rightarrow> ('w, unit) comp" where
  "whenM b m = (if b then m else ret ())"

fun forM :: "'x list \<Rightarrow> ('x \<Rightarrow> ('w, unit) comp) \<Rightarrow> ('w, unit) comp" where
  "forM [] f = ret ()"
| "forM (x # xs) f = seqM (f x) (forM xs f)"

lemmas comp_defs = ret_def raise_def bindM_def seqM_def tryM_def finallyM_def liftR_def
  gets_def modify_def whenM_def

lemma bindM_ret [simp, comp_simps]: "bindM (ret x) f = f x"
  by (simp add: comp_defs)

lemma seqM_ret [simp, comp_simps]: "seqM (ret x) k = k"
  by (simp add: comp_defs)

lemma bindM_raise [simp, comp_simps]: "bindM (raise e) f = raise e"
  by (simp add: comp_defs)

lemma seqM_raise [simp, comp_simps]: "seqM (raise e) k = raise e"
  by (simp add: comp_defs)

lemma liftR_simps [simp, comp_simps]:
  "liftR (Inr x) = ret x"
  "liftR (Inl e) = raise e"
  by (simp_all add: comp_defs)

text \<open>Results of the two primitive computations; not as equations for \<open>ret x\<close> itself, which the
  simplifier would use without an argument.\<close>

lemma ret_simps [simp, comp_simps]:
  "fst (ret x w) = Inr x" "snd (ret x w) = w" "(ret x w = p) = (p = (Inr x, w))"
  "(p = ret x w) = (p = (Inr x, w))" "(case ret x w of (r, w') \<Rightarrow> g r w') = g (Inr x) w"
  by (auto simp: ret_def)

lemma raise_simps [simp, comp_simps]:
  "fst (raise e w) = Inl e" "snd (raise e w) = w" "(raise e w = p) = (p = (Inl e, w))"
  "(p = raise e w) = (p = (Inl e, w))" "(case raise e w of (r, w') \<Rightarrow> g r w') = g (Inl e) w"
  by (auto simp: raise_def)

lemma gets_apply [simp, comp_simps]: "gets f w = (Inr (f w), w)"
  by (simp add: gets_def)

lemma modify_apply [simp, comp_simps]: "modify f w = (Inr (), f w)"
  by (simp add: modify_def)

lemma whenM_simps [simp, comp_simps]:
  "whenM True m = m"
  "whenM False m = ret ()"
  by (simp_all add: whenM_def)

lemma bindM_apply [comp_simps]:
  "bindM m f w = (case m w of (Inl e, w') \<Rightarrow> (Inl e, w') | (Inr x, w') \<Rightarrow> f x w')"
  by (simp add: bindM_def)

lemma bindM_liftR_apply:
  "bindM (liftR r) f w = (case r of Inl e \<Rightarrow> (Inl e, w) | Inr x \<Rightarrow> f x w)"
  by (simp add: bindM_def liftR_def)

lemma seqM_apply [comp_simps]:
  "seqM m k w = (case m w of (Inl e, w') \<Rightarrow> (Inl e, w') | (Inr x, w') \<Rightarrow> k w')"
  by (simp add: seqM_def bindM_def)

lemma tryM_apply [comp_simps]:
  "tryM p m h w = (case m w of
      (Inl e, w') \<Rightarrow> (if p e then h e w' else (Inl e, w'))
    | (Inr x, w') \<Rightarrow> (Inr x, w'))"
  by (simp add: tryM_def)

lemma finallyM_apply [comp_simps]:
  "finallyM m fin w = (case m w of (r, w') \<Rightarrow>
      (if r = Inl ProcessReplaced then (r, w')
       else case fin w' of (Inl e, w'') \<Rightarrow> (Inl e, w'') | (Inr _, w'') \<Rightarrow> (r, w'')))"
  by (simp add: finallyM_def)

lemma bindM_assoc: "bindM (bindM m f) g = bindM m (\<lambda>x. bindM (f x) g)"
  by (rule ext) (simp add: bindM_def split: prod.splits sum.splits)

lemma bindM_ret_right: "bindM m ret = m"
  by (rule ext) (simp add: bindM_def ret_def split: prod.splits sum.splits)

lemma seqM_assoc: "seqM (seqM m k) l = seqM m (seqM k l)" "bindM (seqM m k) g = seqM m (bindM k g)"
  by (simp_all add: seqM_def bindM_assoc)

text \<open>
  An invariant of the state that a computation keeps, whatever it returns or raises: the calculus
  the components use to show that whole handlers keep an invariant.
\<close>

definition keeps :: "('w \<Rightarrow> bool) \<Rightarrow> ('w, 'a) comp \<Rightarrow> bool" where
  "keeps I m \<longleftrightarrow> (\<forall>w. I w \<longrightarrow> I (snd (m w)))"

named_theorems keeps_rules \<open>invariant preservation, combinator by combinator\<close>

lemma keepsI: "(\<And>w. I w \<Longrightarrow> I (snd (m w))) \<Longrightarrow> keeps I m"
  by (simp add: keeps_def)

lemma keepsD: "keeps I m \<Longrightarrow> I w \<Longrightarrow> I (snd (m w))"
  by (simp add: keeps_def)

lemma keeps_ret [keeps_rules]: "keeps I (ret x)"
  by (simp add: keeps_def)

lemma keeps_raise [keeps_rules]: "keeps I (raise e)"
  by (simp add: keeps_def)

lemma keeps_liftR [keeps_rules]: "keeps I (liftR r)"
  by (simp add: keeps_def liftR_def)

lemma keeps_gets [keeps_rules]: "keeps I (gets f)"
  by (simp add: keeps_def)

lemma keeps_bindM [keeps_rules]:
  "keeps I m \<Longrightarrow> (\<And>x. keeps I (f x)) \<Longrightarrow> keeps I (bindM m f)"
  by (fastforce simp: keeps_def bindM_def split: prod.splits sum.splits dest: spec)

lemma keeps_seqM [keeps_rules]: "keeps I m \<Longrightarrow> keeps I k \<Longrightarrow> keeps I (seqM m k)"
  by (simp add: seqM_def keeps_bindM)

lemma keeps_tryM [keeps_rules]:
  "keeps I m \<Longrightarrow> (\<And>e. keeps I (h e)) \<Longrightarrow> keeps I (tryM p m h)"
  by (fastforce simp: keeps_def tryM_def split: prod.splits sum.splits dest: spec)

lemma keeps_finallyM [keeps_rules]:
  "keeps I m \<Longrightarrow> keeps I fin \<Longrightarrow> keeps I (finallyM m fin)"
  by (fastforce simp: keeps_def finallyM_def split: prod.splits sum.splits dest: spec)

lemma keeps_whenM [keeps_rules]: "keeps I m \<Longrightarrow> keeps I (whenM b m)"
  by (simp add: whenM_def keeps_ret)

lemma keeps_forM [keeps_rules]: "(\<And>x. keeps I (f x)) \<Longrightarrow> keeps I (forM xs f)"
  by (induction xs) (auto intro: keeps_ret keeps_seqM)

lemma keeps_if [keeps_rules]: "keeps I m \<Longrightarrow> keeps I k \<Longrightarrow> keeps I (if b then m else k)"
  by simp

lemma keeps_case_option [keeps_rules]:
  "keeps I m \<Longrightarrow> (\<And>y. keeps I (k y)) \<Longrightarrow> keeps I (case x of None \<Rightarrow> m | Some y \<Rightarrow> k y)"
  by (simp split: option.split)

lemma keeps_case_sum [keeps_rules]:
  "(\<And>y. keeps I (m y)) \<Longrightarrow> (\<And>y. keeps I (k y)) \<Longrightarrow> keeps I (case x of Inl y \<Rightarrow> m y | Inr y \<Rightarrow> k y)"
  by (simp split: sum.split)

lemma keeps_case_prod [keeps_rules]:
  "(\<And>x y. keeps I (m x y)) \<Longrightarrow> keeps I (case p of (x, y) \<Rightarrow> m x y)"
  by (simp split: prod.split)

lemma keeps_case_list [keeps_rules]:
  "keeps I m \<Longrightarrow> (\<And>x xs. keeps I (k x xs)) \<Longrightarrow> keeps I (case l of [] \<Rightarrow> m | x # xs \<Rightarrow> k x xs)"
  by (simp split: list.split)

lemma keeps_modify [keeps_rules]: "(\<And>w. I w \<Longrightarrow> I (f w)) \<Longrightarrow> keeps I (modify f)"
  by (simp add: keeps_def)

text \<open>A computation that keeps the invariant, and out of which only exceptions of \<open>p\<close> come.\<close>

definition safe :: "(exn \<Rightarrow> bool) \<Rightarrow> ('w \<Rightarrow> bool) \<Rightarrow> ('w, 'a) comp \<Rightarrow> bool" where
  "safe p I m \<longleftrightarrow> (\<forall>w. I w \<longrightarrow> (\<forall>e. fst (m w) = Inl e \<longrightarrow> p e) \<and> I (snd (m w)))"

named_theorems safe_rules \<open>computations that raise only what is allowed\<close>

lemma safeD: "safe p I m \<Longrightarrow> I w \<Longrightarrow> m w = (r, w') \<Longrightarrow> I w' \<and> (\<forall>e. r = Inl e \<longrightarrow> p e)"
  unfolding safe_def by (metis fst_conv snd_conv)

lemma safe_returns: "safe (\<lambda>_. False) I m \<Longrightarrow> I w \<Longrightarrow> \<exists>x w'. m w = (Inr x, w') \<and> I w'"
  unfolding safe_def by (metis obj_sumE prod.collapse)

lemma safeI: "(\<And>w r w'. I w \<Longrightarrow> m w = (r, w') \<Longrightarrow> I w' \<and> (\<forall>e. r = Inl e \<longrightarrow> p e)) \<Longrightarrow> safe p I m"
  unfolding safe_def by (metis prod.collapse)

lemma safe_ret [safe_rules]: "safe p I (ret x)"
  by (simp add: safe_def)

lemma safe_raise [safe_rules]: "p e \<Longrightarrow> safe p I (raise e)"
  by (simp add: safe_def)

lemma safe_liftR [safe_rules]: "(\<And>e. r = Inl e \<Longrightarrow> p e) \<Longrightarrow> safe p I (liftR r)"
  by (auto simp: safe_def liftR_def)

lemma safe_gets [safe_rules]: "safe p I (gets f)"
  by (simp add: safe_def)

lemma safe_modify [safe_rules]: "(\<And>w. I w \<Longrightarrow> I (f w)) \<Longrightarrow> safe p I (modify f)"
  by (simp add: safe_def)

lemma safe_bindM [safe_rules]:
  assumes "safe p I m" "\<And>x. safe p I (f x)"
  shows "safe p I (bindM m f)"
proof (rule safeI)
  fix w r w'
  assume w: "I w" and run: "bindM m f w = (r, w')"
  obtain r1 w1 where m: "m w = (r1, w1)" by force
  from safeD [OF assms(1) w m] have w1: "I w1" "\<forall>e. r1 = Inl e \<longrightarrow> p e" by auto
  show "I w' \<and> (\<forall>e. r = Inl e \<longrightarrow> p e)"
  proof (cases r1)
    case (Inl e)
    with run m w1 show ?thesis by (auto simp: bindM_apply)
  next
    case (Inr x)
    with run m have "f x w1 = (r, w')" by (simp add: bindM_apply)
    from safeD [OF assms(2) w1(1) this] show ?thesis .
  qed
qed

lemma safe_seqM [safe_rules]: "safe p I m \<Longrightarrow> safe p I k \<Longrightarrow> safe p I (seqM m k)"
  by (simp add: seqM_def safe_bindM)

lemma safe_forM [safe_rules]: "(\<And>x. x \<in> set xs \<Longrightarrow> safe p I (f x)) \<Longrightarrow> safe p I (forM xs f)"
  by (induction xs) (auto intro: safe_ret safe_seqM)

lemma safe_whenM [safe_rules]: "(b \<Longrightarrow> safe p I m) \<Longrightarrow> safe p I (whenM b m)"
  by (cases b) (auto intro: safe_ret)

lemma safe_if [safe_rules]: "(b \<Longrightarrow> safe p I m) \<Longrightarrow> (\<not> b \<Longrightarrow> safe p I k) \<Longrightarrow> safe p I (if b then m else k)"
  by simp

text \<open>What the handler takes is \<open>q\<close>; what it leaves, and what it raises itself, is in \<open>p\<close>.\<close>

lemma safe_tryM [safe_rules]:
  assumes "safe (\<lambda>e. q e \<or> p e) I m" "\<And>e. q e \<Longrightarrow> safe p I (h e)"
  shows "safe p I (tryM q m h)"
proof (rule safeI)
  fix w r w'
  assume w: "I w" and run: "tryM q m h w = (r, w')"
  obtain r1 w1 where m: "m w = (r1, w1)" by force
  from safeD [OF assms(1) w m] have w1: "I w1" "\<forall>e. r1 = Inl e \<longrightarrow> q e \<or> p e" by auto
  show "I w' \<and> (\<forall>e. r = Inl e \<longrightarrow> p e)"
  proof (cases r1)
    case (Inl e)
    show ?thesis
    proof (cases "q e")
      case True
      with run m Inl have "h e w1 = (r, w')" by (simp add: tryM_apply)
      from safeD [OF assms(2) [OF True] w1(1) this] show ?thesis .
    next
      case False
      with run m Inl w1 show ?thesis by (auto simp: tryM_apply)
    qed
  next
    case (Inr x)
    with run m w1 show ?thesis by (auto simp: tryM_apply)
  qed
qed

lemma safe_case_option [safe_rules]:
  "safe p I m \<Longrightarrow> (\<And>y. safe p I (k y)) \<Longrightarrow> safe p I (case x of None \<Rightarrow> m | Some y \<Rightarrow> k y)"
  by (simp split: option.split)

lemma safe_case_prod [safe_rules]:
  "(\<And>x y. safe p I (m x y)) \<Longrightarrow> safe p I (case z of (x, y) \<Rightarrow> m x y)"
  by (simp split: prod.split)

lemma safe_weaken: "safe p I m \<Longrightarrow> (\<And>e. p e \<Longrightarrow> q e) \<Longrightarrow> safe q I m"
  by (auto simp: safe_def)

text \<open>What holds when a computation returns, from what held before.\<close>

definition triple :: "('w \<Rightarrow> bool) \<Rightarrow> ('w, 'a) comp \<Rightarrow> ('a \<Rightarrow> 'w \<Rightarrow> bool) \<Rightarrow> bool" where
  "triple P m Q \<longleftrightarrow> (\<forall>w x w'. P w \<longrightarrow> m w = (Inr x, w') \<longrightarrow> Q x w')"

named_theorems triple_rules \<open>results of computations, combinator by combinator\<close>

lemma tripleI: "(\<And>w x w'. P w \<Longrightarrow> m w = (Inr x, w') \<Longrightarrow> Q x w') \<Longrightarrow> triple P m Q"
  by (simp add: triple_def)

lemma tripleD: "triple P m Q \<Longrightarrow> P w \<Longrightarrow> m w = (Inr x, w') \<Longrightarrow> Q x w'"
  by (simp add: triple_def)

lemma triple_keeps: "keeps I m \<Longrightarrow> triple I m (\<lambda>_. I)"
  unfolding triple_def keeps_def by (metis snd_conv)

lemma triple_bindM: "triple P m R \<Longrightarrow> (\<And>x. triple (R x) (f x) Q) \<Longrightarrow> triple P (bindM m f) Q"
  by (fastforce simp: triple_def bindM_def split: prod.splits sum.splits)

lemma triple_seqM: "triple P m R \<Longrightarrow> (\<And>x. triple (R x) k Q) \<Longrightarrow> triple P (seqM m k) Q"
  by (simp add: seqM_def triple_bindM)

text \<open>The first part keeps what held.\<close>

lemma triple_then: "keeps P m \<Longrightarrow> (\<And>x. triple P (f x) Q) \<Longrightarrow> triple P (bindM m f) Q"
  by (rule triple_bindM [OF triple_keeps])

lemma triple_next: "keeps P m \<Longrightarrow> triple P k Q \<Longrightarrow> triple P (seqM m k) Q"
  by (simp add: seqM_def triple_then)

lemma triple_ret [triple_rules]: "(\<And>w. P w \<Longrightarrow> Q x w) \<Longrightarrow> triple P (ret x) Q"
  by (simp add: triple_def)

lemma triple_raise [triple_rules]: "triple P (raise e) Q"
  by (simp add: triple_def)

lemma triple_if [triple_rules]: "(b \<Longrightarrow> triple P m Q) \<Longrightarrow> (\<not> b \<Longrightarrow> triple P k Q) \<Longrightarrow> triple P (if b then m else k) Q"
  by simp

lemma triple_case_option [triple_rules]:
  "(x = None \<Longrightarrow> triple P m Q) \<Longrightarrow> (\<And>y. x = Some y \<Longrightarrow> triple P (k y) Q) \<Longrightarrow>
   triple P (case x of None \<Rightarrow> m | Some y \<Rightarrow> k y) Q"
  by (simp split: option.split)

lemma triple_case_prod [triple_rules]:
  "(\<And>x y. p = (x, y) \<Longrightarrow> triple P (m x y) Q) \<Longrightarrow> triple P (case p of (x, y) \<Rightarrow> m x y) Q"
  by (simp split: prod.split)

lemma triple_liftR: "(\<And>x. r = Inr x \<Longrightarrow> triple P (f x) Q) \<Longrightarrow> triple P (bindM (liftR r) f) Q"
  by (cases r) (auto simp: triple_def)

lemma triple_gets: "(\<And>y. triple (\<lambda>w. P w \<and> g w = y) (f y) Q) \<Longrightarrow> triple P (bindM (gets g) f) Q"
  by (simp add: triple_def bindM_def)

text \<open>What is left when a computation raises.\<close>

definition fails :: "('w \<Rightarrow> bool) \<Rightarrow> ('w, 'a) comp \<Rightarrow> ('w \<Rightarrow> bool) \<Rightarrow> bool" where
  "fails P m E \<longleftrightarrow> (\<forall>w e w'. P w \<longrightarrow> m w = (Inl e, w') \<longrightarrow> E w')"

named_theorems fails_rules \<open>what is left by exceptions, combinator by combinator\<close>

lemma failsI: "(\<And>w e w'. P w \<Longrightarrow> m w = (Inl e, w') \<Longrightarrow> E w') \<Longrightarrow> fails P m E"
  by (simp add: fails_def)

lemma failsD: "fails P m E \<Longrightarrow> P w \<Longrightarrow> m w = (Inl e, w') \<Longrightarrow> E w'"
  by (simp add: fails_def)

lemma fails_ret [fails_rules]: "fails P (ret x) E"
  by (simp add: fails_def)

lemma fails_bindM: "fails P m E \<Longrightarrow> triple P m R \<Longrightarrow> (\<And>x. fails (R x) (f x) E) \<Longrightarrow> fails P (bindM m f) E"
  by (fastforce simp: fails_def triple_def bindM_def split: prod.splits sum.splits)

lemma fails_then:
  assumes "keeps P m" "\<And>w. P w \<Longrightarrow> E w" "\<And>x. fails P (f x) E"
  shows "fails P (bindM m f) E"
proof (rule fails_bindM [OF _ triple_keeps [OF assms(1)] assms(3)])
  show "fails P m E" using assms(1,2) unfolding fails_def keeps_def by (metis snd_conv)
qed

lemma fails_next: "keeps P m \<Longrightarrow> (\<And>w. P w \<Longrightarrow> E w) \<Longrightarrow> fails P k E \<Longrightarrow> fails P (seqM m k) E"
  by (simp add: seqM_def fails_then)

lemma fails_liftR: "(\<And>w. P w \<Longrightarrow> E w) \<Longrightarrow> (\<And>x. fails P (f x) E) \<Longrightarrow> fails P (bindM (liftR r) f) E"
  by (rule fails_then [OF keeps_liftR])

lemma fails_if [fails_rules]: "fails P m E \<Longrightarrow> fails P k E \<Longrightarrow> fails P (if b then m else k) E"
  by simp

lemma fails_case_option [fails_rules]:
  "fails P m E \<Longrightarrow> (\<And>y. fails P (k y) E) \<Longrightarrow> fails P (case x of None \<Rightarrow> m | Some y \<Rightarrow> k y) E"
  by (simp split: option.split)

lemma fails_case_prod [fails_rules]:
  "(\<And>x y. fails P (m x y) E) \<Longrightarrow> fails P (case p of (x, y) \<Rightarrow> m x y) E"
  by (simp split: prod.split)

end
