(* ===== verification/PyValues.thy ===== *)
theory PyValues
  imports Prelude "HOL-Library.Sublist"
begin

text \<open>
  The Python values the sources handle: dictionaries (association lists in insertion order),
  decoded JSON, and the \<open>str\<close> methods that the code calls, with the facts about them that the
  components need: split and join undo each other, decimal numbers read back as printed.
\<close>

section \<open>Dictionaries\<close>

text \<open>
  A dictionary keeps its keys in insertion order; \<open>AList.update\<close> stores under a present key in
  place and appends a new one, as \<open>d[k] = v\<close> does.  \<open>d.get(k, x)\<close> is \<open>dget d k x\<close>.
\<close>

type_synonym 'v dict = "(string \<times> 'v) list"

definition dget :: "('k \<times> 'v) list \<Rightarrow> 'k \<Rightarrow> 'v \<Rightarrow> 'v" where
  "dget d k x = (case map_of d k of Some v \<Rightarrow> v | None \<Rightarrow> x)"

lemma dget_update [simp]:
  "dget (AList.update k v d) k' x = (if k' = k then v else dget d k' x)"
  by (simp add: dget_def update_conv')

lemma map_of_update [simp]: "map_of (AList.update k v d) = (map_of d)(k \<mapsto> v)"
  by (rule update_conv')

lemma distinct_keys_update [simp, intro]:
  "distinct (map fst d) \<Longrightarrow> distinct (map fst (AList.update k v d))"
  by (rule distinct_update)

lemma map_of_eq_SomeD: "map_of d k = Some v \<Longrightarrow> (k, v) \<in> set d"
  by (rule map_of_SomeD)

lemma update_absent:
  "k \<notin> fst ` set d \<Longrightarrow> AList.update k v d = d @ [(k, v)]"
  by (induction d) auto

text \<open>\<open>d | e\<close>: the entries of \<open>e\<close> stored over \<open>d\<close> in order.\<close>

definition dmerge :: "('k \<times> 'v) list \<Rightarrow> ('k \<times> 'v) list \<Rightarrow> ('k \<times> 'v) list" where
  "dmerge d e = foldl (\<lambda>acc (k, v). AList.update k v acc) d e"

lemma map_of_dmerge:
  "distinct (map fst e) \<Longrightarrow> map_of (dmerge d e) k =
     (case map_of e k of Some v \<Rightarrow> Some v | None \<Rightarrow> map_of d k)"
proof (induction e arbitrary: d)
  case Nil
  then show ?case by (simp add: dmerge_def)
next
  case (Cons p e)
  obtain a b where p: "p = (a, b)" by force
  from Cons.prems p have "distinct (map fst e)" and a: "map_of e a = None"
    by (auto simp: map_of_eq_None_iff)
  with Cons.IH [of "AList.update a b d"] p show ?case
    by (auto simp: dmerge_def split: option.splits)
qed

lemma map_of_dmerge_other: "map_of e k = None \<Longrightarrow> map_of (dmerge d e) k = map_of d k"
proof (induction e arbitrary: d)
  case (Cons p e)
  obtain a b where p: "p = (a, b)" by force
  with Cons.prems have "a \<noteq> k" "map_of e k = None" by (auto split: if_splits)
  with Cons.IH [of "AList.update a b d"] p show ?case by (simp add: dmerge_def)
qed (simp add: dmerge_def)

section \<open>JSON\<close>

text \<open>Decoded JSON.  Floating-point numbers are left out: no field the code reads is one.\<close>

datatype json =
    JNull | JBool bool | JInt int | JStr string | JList "json list" | JObj "json dict"

text \<open>Python's truth value, and \<open>x or y\<close>.\<close>

fun truthy :: "json \<Rightarrow> bool" where
  "truthy JNull = False"
| "truthy (JBool b) = b"
| "truthy (JInt n) = (n \<noteq> 0)"
| "truthy (JStr s) = (s \<noteq> [])"
| "truthy (JList xs) = (xs \<noteq> [])"
| "truthy (JObj d) = (d \<noteq> [])"

definition py_or :: "json \<Rightarrow> json \<Rightarrow> json" where
  "py_or x y = (if truthy x then x else y)"

text \<open>\<open>x.get(k, default)\<close>, \<open>x.items()\<close> and \<open>x[k]\<close>, with the exceptions of a value that is no
  dictionary.\<close>

fun jget :: "json \<Rightarrow> string \<Rightarrow> json \<Rightarrow> json res" where
  "jget (JObj d) k x = Inr (dget d k x)"
| "jget _ k x = Inl AttributeError"

fun jitems :: "json \<Rightarrow> json dict res" where
  "jitems (JObj d) = Inr d"
| "jitems _ = Inl AttributeError"

fun jindex :: "json \<Rightarrow> string \<Rightarrow> json res" where
  "jindex (JObj d) k = (case map_of d k of Some v \<Rightarrow> Inr v | None \<Rightarrow> Inl KeyError)"
| "jindex _ k = Inl TypeError"

section \<open>Strings\<close>

text \<open>\<open>s.split(c)\<close> for one character, and \<open>c.join(parts)\<close>.\<close>

fun splitc :: "char \<Rightarrow> string \<Rightarrow> string list" where
  "splitc c [] = [[]]"
| "splitc c (x # xs) =
     (if x = c then [] # splitc c xs
      else (case splitc c xs of [] \<Rightarrow> [[x]] | y # ys \<Rightarrow> (x # y) # ys))"

fun joinc :: "char \<Rightarrow> string list \<Rightarrow> string" where
  "joinc c [] = []"
| "joinc c [p] = p"
| "joinc c (p # ps) = p @ c # joinc c ps"

lemma splitc_not_Nil [simp]: "splitc c s \<noteq> []"
  by (induction s) (auto split: list.splits)

lemma joinc_Cons: "ps \<noteq> [] \<Longrightarrow> joinc c (p # ps) = p @ c # joinc c ps"
  by (cases ps) auto

lemma joinc_splitc [simp]: "joinc c (splitc c s) = s"
proof (induction s)
  case Nil
  then show ?case by simp
next
  case (Cons x s)
  obtain y ys where s: "splitc c s = y # ys"
    by (cases "splitc c s") auto
  have "joinc c ((x # y) # ys) = x # joinc c (y # ys)"
    by (cases ys) auto
  with Cons.IH s show ?case
    by (auto simp: joinc_Cons)
qed

lemma splitc_parts: "p \<in> set (splitc c s) \<Longrightarrow> c \<notin> set p"
  by (induction s arbitrary: p) (auto split: list.splits if_splits)

lemma splitc_notin [simp]: "c \<notin> set s \<Longrightarrow> splitc c s = [s]"
  by (induction s) auto

lemma splitc_append_sep: "c \<notin> set p \<Longrightarrow> splitc c (p @ c # s) = p # splitc c s"
  by (induction p) auto

lemma splitc_joinc:
  "ps \<noteq> [] \<Longrightarrow> (\<And>p. p \<in> set ps \<Longrightarrow> c \<notin> set p) \<Longrightarrow> splitc c (joinc c ps) = ps"
proof (induction c ps rule: joinc.induct)
  case (3 c p q qs)
  then show ?case by (simp add: splitc_append_sep)
qed auto

lemma splitc_append: "splitc c (s @ c # t) = splitc c s @ splitc c t"
proof (induction s)
  case Nil
  then show ?case by simp
next
  case (Cons x s)
  then show ?case
    by (cases "splitc c s") auto
qed

text \<open>\<open>s.rfind(c, 0, n)\<close>: the last position of \<open>c\<close> before \<open>n\<close>, \<open>None\<close> for \<open>-1\<close>.\<close>

fun rfind :: "char \<Rightarrow> string \<Rightarrow> nat \<Rightarrow> nat option" where
  "rfind c s 0 = None"
| "rfind c s (Suc n) = (if n < length s \<and> s ! n = c then Some n else rfind c s n)"

lemma rfind_less: "rfind c s n = Some e \<Longrightarrow> e < n"
  by (induction n) (auto split: if_splits intro: less_SucI)

lemma rfind_SomeD: "rfind c s n = Some e \<Longrightarrow> e < length s \<and> s ! e = c"
  by (induction n) (auto split: if_splits)

lemma rfind_after: "rfind c s n = Some e \<Longrightarrow> e < i \<Longrightarrow> i < n \<Longrightarrow> i < length s \<Longrightarrow> s ! i \<noteq> c"
  by (induction n) (auto split: if_splits simp: less_Suc_eq)

lemma rfind_None: "rfind c s n = None \<Longrightarrow> i < n \<Longrightarrow> i < length s \<Longrightarrow> s ! i \<noteq> c"
  by (induction n) (auto split: if_splits simp: less_Suc_eq)

text \<open>\<open>s[i:j]\<close> for \<open>0 \<le> i\<close>, \<open>s.startswith\<close>, \<open>s.endswith\<close>, \<open>s.replace\<close> for a non-empty pattern.\<close>

definition slice :: "nat \<Rightarrow> nat \<Rightarrow> 'a list \<Rightarrow> 'a list" where
  "slice i j s = take (j - i) (drop i s)"

definition startswith :: "string \<Rightarrow> string \<Rightarrow> bool" where
  "startswith s p = (take (length p) s = p)"

definition endswith :: "string \<Rightarrow> string \<Rightarrow> bool" where
  "endswith s p = startswith (rev s) (rev p)"

function py_replace :: "string \<Rightarrow> string \<Rightarrow> string \<Rightarrow> string" where
  "py_replace old new s =
     (case s of [] \<Rightarrow> []
      | x # xs \<Rightarrow>
          (if old \<noteq> [] \<and> startswith s old then new @ py_replace old new (drop (length old) s)
           else x # py_replace old new xs))"
  by pat_completeness auto
termination
  by (relation "measure (\<lambda>(old, new, s). length s)") auto

declare py_replace.simps [simp del]

text \<open>ASCII case mapping (\<open>s.lower()\<close>, \<open>s.upper()\<close>) and ASCII digits.\<close>

definition code :: "char \<Rightarrow> nat" where
  "code c = of_char c"

definition lower_char :: "char \<Rightarrow> char" where
  "lower_char c = (if 65 \<le> code c \<and> code c \<le> 90 then char_of (code c + 32) else c)"

definition upper_char :: "char \<Rightarrow> char" where
  "upper_char c = (if 97 \<le> code c \<and> code c \<le> 122 then char_of (code c - 32) else c)"

definition is_digit :: "char \<Rightarrow> bool" where
  "is_digit c = (48 \<le> code c \<and> code c \<le> 57)"

lemma code_char_of [simp]: "n < 256 \<Longrightarrow> code (char_of n) = n"
  by (simp add: code_def)

lemma code_less: "code c < 256"
  by (metis code_def nat_of_char_less_256)

lemma lower_char_idem [simp]: "lower_char (lower_char c) = lower_char c"
  using code_less [of c] by (auto simp: lower_char_def)

section \<open>Decimal numbers\<close>

text \<open>\<open>str(n)\<close> for \<open>n \<ge> 0\<close> and \<open>int(s)\<close> on a string of ASCII digits.\<close>

function dec :: "nat \<Rightarrow> string" where
  "dec n = (if n div 10 = 0 then [] else dec (n div 10)) @ [char_of (48 + n mod 10)]"
  by pat_completeness auto
termination
  by (relation "measure id") auto

declare dec.simps [simp del]

definition dec_int :: "int \<Rightarrow> string" where
  "dec_int i = (if i < 0 then CHR ''-'' # dec (nat (- i)) else dec (nat i))"

definition num_of :: "string \<Rightarrow> nat" where
  "num_of s = foldl (\<lambda>a c. 10 * a + (code c - 48)) 0 s"

lemma num_of_snoc [simp]: "num_of (s @ [c]) = 10 * num_of s + (code c - 48)"
  by (simp add: num_of_def)

lemma num_of_Nil [simp]: "num_of [] = 0"
  by (simp add: num_of_def)

lemma dec_not_Nil [simp]: "dec n \<noteq> []"
  by (subst dec.simps) simp

lemma num_of_dec [simp]: "num_of (dec n) = n"
proof (induction n rule: dec.induct)
  case (1 n)
  have "code (char_of (48 + n mod 10)) = 48 + n mod 10" by simp
  with 1 show ?case by (subst dec.simps) auto
qed

lemma dec_digits: "list_all is_digit (dec n)"
proof (induction n rule: dec.induct)
  case (1 n)
  have "is_digit (char_of (48 + n mod 10))" by (simp add: is_digit_def)
  with 1 show ?case by (subst dec.simps) auto
qed

lemma dec_inject [simp]: "dec m = dec n \<longleftrightarrow> m = n"
  by (metis num_of_dec)

lemma hd_dec: "n \<noteq> 0 \<Longrightarrow> code (hd (dec n)) \<noteq> 48"
proof (induction n rule: dec.induct)
  case (1 n)
  then show ?case by (subst dec.simps) (auto simp: hd_append)
qed

lemma dec_zero: "dec 0 = ''0''"
proof -
  have "char_of (48 :: nat) = CHR ''0''" by code_simp
  then show ?thesis by (subst dec.simps) simp
qed

lemma length_dec: "n < 10 ^ k \<Longrightarrow> 0 < k \<Longrightarrow> length (dec n) \<le> k"
proof (induction k arbitrary: n)
  case 0
  then show ?case by simp
next
  case (Suc k)
  show ?case
  proof (cases "n div 10 = 0")
    case True
    then show ?thesis by (subst dec.simps) simp
  next
    case False
    with Suc.prems have "n div 10 < 10 ^ k" and "0 < k"
      by (auto intro!: gr0I simp: less_mult_imp_div_less)
    with Suc.IH [of "n div 10"] False show ?thesis
      by (subst dec.simps) simp
  qed
qed

lemma dec_notin: "\<not> is_digit c \<Longrightarrow> c \<notin> set (dec n)"
  using dec_digits [of n] by (auto simp: list_all_iff)

text \<open>White space, \<open>s.strip()\<close>, and \<open>int(s)\<close>: a sign and digits, single underscores between them.\<close>

definition is_space :: "char \<Rightarrow> bool" where
  "is_space c = (9 \<le> code c \<and> code c \<le> 13 \<or> 28 \<le> code c \<and> code c \<le> 32)"

definition strip :: "string \<Rightarrow> string" where
  "strip s = rev (dropWhile is_space (rev (dropWhile is_space s)))"

definition py_int :: "string \<Rightarrow> int res" where
  "py_int s =
     (let t = strip s;
          neg = (take 1 t = ''-'');
          ps = splitc CHR ''_'' (if neg \<or> take 1 t = ''+'' then drop 1 t else t)
      in if list_all (\<lambda>p. p \<noteq> [] \<and> list_all is_digit p) ps
         then Inr (if neg then - int (num_of (concat ps)) else int (num_of (concat ps)))
         else Inl ValueError)"

section \<open>Paths and formatting\<close>

text \<open>\<open>os.path.join(a, b)\<close>.\<close>

definition path_join :: "string \<Rightarrow> string \<Rightarrow> string" where
  "path_join a b =
     (if startswith b ''/'' then b
      else if a = [] \<or> endswith a ''/'' then a @ b
      else a @ CHR ''/'' # b)"

text \<open>\<open>str(x)\<close> and \<open>repr(x)\<close>, as \<open>f"{x}"\<close> and \<open>f"{x!r}"\<close> print them (ASCII).\<close>

definition hex_digit :: "nat \<Rightarrow> char" where
  "hex_digit n = (if n < 10 then char_of (48 + n) else char_of (87 + n))"

definition repr_char :: "char \<Rightarrow> char \<Rightarrow> string" where
  "repr_char q c =
     (if c = q \<or> c = CHR 0x5C then [CHR 0x5C, c]
      else if c = CHR 0x0A then [CHR 0x5C, CHR ''n'']
      else if c = CHR 0x0D then [CHR 0x5C, CHR ''r'']
      else if c = CHR 0x09 then [CHR 0x5C, CHR ''t'']
      else if code c < 32 \<or> code c = 127 then
        [CHR 0x5C, CHR ''x'', hex_digit (code c div 16), hex_digit (code c mod 16)]
      else [c])"

definition repr_str :: "string \<Rightarrow> string" where
  "repr_str s =
     (let q = (if CHR 0x27 \<in> set s \<and> CHR 0x22 \<notin> set s then CHR 0x22 else CHR 0x27)
      in q # concat (map (repr_char q) s) @ [q])"

fun commas :: "string list \<Rightarrow> string" where
  "commas [] = []"
| "commas [x] = x"
| "commas (x # xs) = x @ '', '' @ commas xs"

fun py_repr :: "json \<Rightarrow> string" where
  "py_repr JNull = ''None''"
| "py_repr (JBool b) = (if b then ''True'' else ''False'')"
| "py_repr (JInt i) = dec_int i"
| "py_repr (JStr s) = repr_str s"
| "py_repr (JList xs) = ''['' @ commas (map py_repr xs) @ '']''"
| "py_repr (JObj d) = ''{'' @ commas (map (\<lambda>(k, v). repr_str k @ '': '' @ py_repr v) d) @ ''}''"

fun py_str :: "json \<Rightarrow> string" where
  "py_str (JStr s) = s"
| "py_str x = py_repr x"

text \<open>A value used where the code needs text.\<close>

fun as_str :: "exn \<Rightarrow> json \<Rightarrow> string res" where
  "as_str e (JStr s) = Inr s"
| "as_str e _ = Inl e"

lemma path_join_rel: "\<not> startswith b ''/'' \<Longrightarrow> a \<noteq> [] \<Longrightarrow> \<not> endswith a ''/'' \<Longrightarrow> path_join a b = a @ CHR ''/'' # b"
  by (simp add: path_join_def)

text \<open>What \<open>for x in v\<close> runs over, \<open>v[0]\<close> and \<open>v[1:]\<close>.\<close>

fun json_iter :: "json \<Rightarrow> json list res" where
  "json_iter (JList xs) = Inr xs"
| "json_iter (JStr s) = Inr (map (\<lambda>c. JStr [c]) s)"
| "json_iter (JObj d) = Inr (map (\<lambda>(k, v). JStr k) d)"
| "json_iter _ = Inl TypeError"

fun json_head :: "json \<Rightarrow> json res" where
  "json_head (JList xs) = (case xs of [] \<Rightarrow> Inl IndexError | x # _ \<Rightarrow> Inr x)"
| "json_head (JStr s) = (case s of [] \<Rightarrow> Inl IndexError | c # _ \<Rightarrow> Inr (JStr [c]))"
| "json_head (JObj d) = Inl KeyError"
| "json_head _ = Inl TypeError"

text \<open>\<open>x == True\<close>: the int 1 is equal to True.\<close>

definition is_True :: "json \<Rightarrow> bool" where
  "is_True x = (x = JBool True \<or> x = JInt 1)"

text \<open>\<open>Path(p).parent\<close>.\<close>

definition path_parent :: "string \<Rightarrow> string" where
  "path_parent p =
     (let r = dropWhile (\<lambda>c. c = CHR ''/'') (rev p);
          up = dropWhile (\<lambda>c. c = CHR ''/'') (dropWhile (\<lambda>c. c \<noteq> CHR ''/'') r)
      in if up \<noteq> [] then rev up else if startswith p ''/'' then ''/'' else ''.'')"

end
