(* ===== verification/Database.thy ===== *)
theory Database
  imports PyValues
begin

text \<open>
  The tables the manager works on (\<open>db/01_init.sql\<close>, with the column \<open>gid\<close> of the deployed
  database), the statements it executes, and the constraints SQLite enforces: UNIQUE and NOT NULL
  columns and the CHECK on the status.  Foreign keys are not enforced.  A query without ORDER BY
  returns the rows in the order in which SQLite visits them: of the index when it runs over one, of the
  table otherwise.  Row ids come from AUTOINCREMENT counters.
\<close>

section \<open>Rows\<close>

record container_row =
  c_id :: nat
  c_name :: string
  c_image :: nat
  c_status :: string
  c_config :: "json dict"
  c_created :: string
  c_project :: json
  c_service :: json
  c_gid :: string

record network_row =
  n_id :: nat
  n_name :: string
  n_driver :: string
  n_subnet :: string
  n_prefix :: nat

record volume_row =
  v_id :: nat
  v_name :: string
  v_created :: string
  v_driver :: string
  v_path :: string

record subnet_row =
  s_id :: nat
  s_subnet :: string
  s_prefix :: nat

record container_network_row =
  cn_id :: nat
  cn_network :: nat
  cn_container :: nat
  cn_ip :: string

record volume_container_row =
  vc_id :: nat
  vc_volume :: nat
  vc_container :: nat

record image_row =
  i_id :: nat
  i_name :: string
  i_tag :: string
  i_created :: string
  i_json :: "json dict"
  i_gid :: string

record db =
  containers :: "container_row list"
  networks :: "network_row list"
  volumes :: "volume_row list"
  allocated_subnets :: "subnet_row list"
  container_networks :: "container_network_row list"
  volume_containers :: "volume_container_row list"
  images :: "image_row list"
  next_c :: nat
  next_n :: nat
  next_v :: nat
  next_s :: nat
  next_cn :: nat
  next_vc :: nat

definition empty_db :: "image_row list \<Rightarrow> db" where
  "empty_db imgs = \<lparr>containers = [], networks = [], volumes = [], allocated_subnets = [],
     container_networks = [], volume_containers = [], images = imgs,
     next_c = 1, next_n = 1, next_v = 1, next_s = 1, next_cn = 1, next_vc = 1\<rparr>"

section \<open>Parameters\<close>

text \<open>A parameter bound to a TEXT column: text as it is, numbers and booleans printed, None as NULL;
  a list or a dictionary cannot be bound.\<close>

fun bind_text :: "json \<Rightarrow> string option res" where
  "bind_text JNull = Inr None"
| "bind_text (JBool b) = Inr (Some (if b then ''1'' else ''0''))"
| "bind_text (JInt n) = Inr (Some (dec_int n))"
| "bind_text (JStr s) = Inr (Some s)"
| "bind_text _ = Inl InterfaceError"

section \<open>Statements\<close>

text \<open>\<open>key\<close> is what a UNIQUE constraint speaks of.\<close>

definition insert_row :: "('r \<Rightarrow> 'k) \<Rightarrow> 'r \<Rightarrow> 'r list \<Rightarrow> 'r list res" where
  "insert_row key r rows = (if key r \<in> set (map key rows) then Inl IntegrityError else Inr (rows @ [r]))"

definition find_row :: "('r \<Rightarrow> 'k) \<Rightarrow> 'k \<Rightarrow> 'r list \<Rightarrow> 'r option" where
  "find_row key k rows = find (\<lambda>r. key r = k) rows"

text \<open>A comparison with NULL selects nothing.\<close>

definition find_text :: "('r \<Rightarrow> string) \<Rightarrow> string option \<Rightarrow> 'r list \<Rightarrow> 'r option" where
  "find_text key k rows = (case k of None \<Rightarrow> None | Some s \<Rightarrow> find_row key s rows)"

definition not_null :: "string option \<Rightarrow> string res" where
  "not_null v = (case v of None \<Rightarrow> Inl IntegrityError | Some s \<Rightarrow> Inr s)"

definition insert_container_row ::
  "string option \<Rightarrow> nat \<Rightarrow> json dict \<Rightarrow> string \<Rightarrow> json \<Rightarrow> json \<Rightarrow> string \<Rightarrow> db \<Rightarrow> (db \<times> nat) res" where
  "insert_container_row name img config now project service gid d =
     bindR (not_null name) (\<lambda>n.
     bindR (insert_row c_name \<lparr>c_id = next_c d, c_name = n, c_image = img, c_status = ''created'',
         c_config = config, c_created = now, c_project = project, c_service = service, c_gid = gid\<rparr>
       (containers d)) (\<lambda>rows.
     Inr (d\<lparr>containers := rows, next_c := next_c d + 1\<rparr>, next_c d)))"

definition insert_network_row :: "string option \<Rightarrow> string \<Rightarrow> nat \<Rightarrow> db \<Rightarrow> db res" where
  "insert_network_row name subnet plen d =
     bindR (not_null name) (\<lambda>n.
     bindR (insert_row n_name \<lparr>n_id = next_n d, n_name = n, n_driver = ''bridge'', n_subnet = subnet,
         n_prefix = plen\<rparr> (networks d)) (\<lambda>rows.
     Inr (d\<lparr>networks := rows, next_n := next_n d + 1\<rparr>)))"

definition insert_subnet_row :: "string \<Rightarrow> nat \<Rightarrow> db \<Rightarrow> db res" where
  "insert_subnet_row subnet plen d =
     bindR (insert_row (\<lambda>r. (s_subnet r, s_prefix r)) \<lparr>s_id = next_s d, s_subnet = subnet, s_prefix = plen\<rparr>
       (allocated_subnets d)) (\<lambda>rows.
     Inr (d\<lparr>allocated_subnets := rows, next_s := next_s d + 1\<rparr>))"

definition insert_volume_row :: "string option \<Rightarrow> string \<Rightarrow> string \<Rightarrow> string \<Rightarrow> db \<Rightarrow> db res" where
  "insert_volume_row name drv path now d =
     bindR (not_null name) (\<lambda>n.
     bindR (insert_row v_name \<lparr>v_id = next_v d, v_name = n, v_created = now, v_driver = drv, v_path = path\<rparr>
       (volumes d)) (\<lambda>rows.
     Inr (d\<lparr>volumes := rows, next_v := next_v d + 1\<rparr>)))"

text \<open>INSERT OR IGNORE: a row that violates a constraint is dropped.\<close>

definition or_ignore :: "db res \<Rightarrow> db \<Rightarrow> db" where
  "or_ignore r d = (case r of Inr d' \<Rightarrow> d' | Inl _ \<Rightarrow> d)"

definition insert_container_network :: "nat \<Rightarrow> nat \<Rightarrow> string \<Rightarrow> db \<Rightarrow> db res" where
  "insert_container_network nid cid ip d =
     bindR (insert_row (\<lambda>r. (cn_network r, cn_container r))
       \<lparr>cn_id = next_cn d, cn_network = nid, cn_container = cid, cn_ip = ip\<rparr> (container_networks d)) (\<lambda>rows.
     Inr (d\<lparr>container_networks := rows, next_cn := next_cn d + 1\<rparr>))"

definition insert_volume_container :: "nat \<Rightarrow> nat \<Rightarrow> db \<Rightarrow> db res" where
  "insert_volume_container vid cid d =
     bindR (insert_row (\<lambda>r. (vc_volume r, vc_container r))
       \<lparr>vc_id = next_vc d, vc_volume = vid, vc_container = cid\<rparr> (volume_containers d)) (\<lambda>rows.
     Inr (d\<lparr>volume_containers := rows, next_vc := next_vc d + 1\<rparr>))"

definition update_status :: "(container_row \<Rightarrow> bool) \<Rightarrow> string \<Rightarrow> db \<Rightarrow> db" where
  "update_status sel status d =
     d\<lparr>containers := map (\<lambda>r. if sel r then r\<lparr>c_status := status\<rparr> else r) (containers d)\<rparr>"

section \<open>A table with a unique key\<close>

text \<open>What the manager relies on: keys stay unique, a row just inserted is the one found by its key,
  and other keys are found as before.\<close>

locale unique_table =
  fixes rows :: "'d \<Rightarrow> 'r list"
    and key :: "'r \<Rightarrow> 'k"
    and put :: "'r \<Rightarrow> 'd \<Rightarrow> 'd res"
  assumes put_Inr: "put r d = Inr d' \<Longrightarrow> rows d' = rows d @ [r] \<and> key r \<notin> key ` set (rows d)"
begin

lemma put_keeps_distinct: "distinct (map key (rows d)) \<Longrightarrow> put r d = Inr d' \<Longrightarrow> distinct (map key (rows d'))"
  by (drule put_Inr) auto

lemma find_put: "put r d = Inr d' \<Longrightarrow>
    find_row key k (rows d') = (if k = key r then Some r else find_row key k (rows d))"
proof -
  assume "put r d = Inr d'"
  from put_Inr [OF this] have rows: "rows d' = rows d @ [r]" and new: "key r \<notin> key ` set (rows d)" by auto
  have "find (\<lambda>x. key x = k) (xs @ [r]) =
      (if key r = k then Some r else find (\<lambda>x. key x = k) xs)" if "key r \<notin> key ` set xs" for xs
    using that by (induction xs) auto
  with rows new show ?thesis by (simp add: find_row_def)
qed

lemma found_is_row: "find_row key k (rows d) = Some r \<Longrightarrow> r \<in> set (rows d) \<and> key r = k"
  unfolding find_row_def by (auto simp: find_Some_iff)

end

interpretation container_table: unique_table "\<lambda>rows. rows" c_name "insert_row c_name"
  by unfold_locales (auto simp: insert_row_def split: if_splits)

interpretation network_table: unique_table "\<lambda>rows. rows" n_name "insert_row n_name"
  by unfold_locales (auto simp: insert_row_def split: if_splits)

interpretation volume_table: unique_table "\<lambda>rows. rows" v_name "insert_row v_name"
  by unfold_locales (auto simp: insert_row_def split: if_splits)

interpretation subnet_table: unique_table "\<lambda>rows. rows" "\<lambda>r. (s_subnet r, s_prefix r)"
    "insert_row (\<lambda>r. (s_subnet r, s_prefix r))"
  by unfold_locales (auto simp: insert_row_def split: if_splits)

interpretation attach_table: unique_table "\<lambda>rows. rows" "\<lambda>r. (cn_network r, cn_container r)"
    "insert_row (\<lambda>r. (cn_network r, cn_container r))"
  by unfold_locales (auto simp: insert_row_def split: if_splits)

interpretation volume_link_table: unique_table "\<lambda>rows. rows" "\<lambda>r. (vc_volume r, vc_container r)"
    "insert_row (\<lambda>r. (vc_volume r, vc_container r))"
  by unfold_locales (auto simp: insert_row_def split: if_splits)

section \<open>The invariant of the database\<close>

definition statuses :: "string list" where
  "statuses = [''created'', ''running'', ''stopped'', ''paused'', ''exited'']"

definition ids_ok :: "nat \<Rightarrow> nat list \<Rightarrow> bool" where
  "ids_ok n ids \<longleftrightarrow> distinct ids \<and> list_all (\<lambda>i. i < n) ids"

definition db_ok :: "db \<Rightarrow> bool" where
  "db_ok d \<longleftrightarrow>
     distinct (map c_name (containers d)) \<and> distinct (map n_name (networks d)) \<and>
     distinct (map v_name (volumes d)) \<and>
     distinct (map (\<lambda>r. (s_subnet r, s_prefix r)) (allocated_subnets d)) \<and>
     distinct (map (\<lambda>r. (cn_network r, cn_container r)) (container_networks d)) \<and>
     distinct (map (\<lambda>r. (vc_volume r, vc_container r)) (volume_containers d)) \<and>
     ids_ok (next_c d) (map c_id (containers d)) \<and> ids_ok (next_n d) (map n_id (networks d)) \<and>
     ids_ok (next_v d) (map v_id (volumes d)) \<and>
     (\<forall>r \<in> set (containers d). c_status r \<in> set statuses)"

lemma ids_ok_snoc [simp]: "ids_ok n ids \<Longrightarrow> ids_ok (Suc n) (ids @ [n])"
  by (auto simp: ids_ok_def list_all_iff less_Suc_eq)

lemma insert_row_Inr: "insert_row key r rows = Inr rows' \<longleftrightarrow> rows' = rows @ [r] \<and> key r \<notin> key ` set rows"
  by (auto simp: insert_row_def)

lemma not_null_Inr: "not_null v = Inr s \<longleftrightarrow> v = Some s"
  by (cases v) (auto simp: not_null_def)

lemma find_new_row: "k \<notin> key ` set rows \<Longrightarrow> key r = k \<Longrightarrow> find_row key k (rows @ [r]) = Some r"
  by (induction rows) (auto simp: find_row_def)

lemmas insert_defs = insert_container_row_def insert_network_row_def insert_subnet_row_def
  insert_volume_row_def insert_container_network_def insert_volume_container_def

lemma db_ok_inserts:
  "db_ok d \<Longrightarrow> insert_container_row nm im cf now pj sv gid d = Inr (d', i) \<Longrightarrow> db_ok d'"
  "db_ok d \<Longrightarrow> insert_network_row nm sn pl d = Inr d' \<Longrightarrow> db_ok d'"
  "db_ok d \<Longrightarrow> insert_subnet_row sn pl d = Inr d' \<Longrightarrow> db_ok d'"
  "db_ok d \<Longrightarrow> insert_volume_row nm dr pa now d = Inr d' \<Longrightarrow> db_ok d'"
  "db_ok d \<Longrightarrow> insert_container_network ni ci ip d = Inr d' \<Longrightarrow> db_ok d'"
  "db_ok d \<Longrightarrow> insert_volume_container vi ci d = Inr d' \<Longrightarrow> db_ok d'"
  unfolding insert_defs db_ok_def
  by (auto simp: bindR_eq_Inr insert_row_Inr not_null_Inr statuses_def)

lemma db_ok_update_status:
  "db_ok d \<Longrightarrow> s \<in> set statuses \<Longrightarrow> db_ok (update_status sel s d)"
proof -
  assume d: "db_ok d" and s: "s \<in> set statuses"
  have names: "map c_name (containers (update_status sel s d)) = map c_name (containers d)"
    "map c_id (containers (update_status sel s d)) = map c_id (containers d)"
    by (auto simp: update_status_def)
  with d s show ?thesis
    unfolding db_ok_def names by (auto simp: update_status_def)
qed

end
