(* ===== verification/Headers.thy ===== *)
theory Headers
  imports PyValues
begin

unbundle bit_operations_syntax

text \<open>
  \<open>app2/lib/headers.py\<close>: the C structures passed to \<open>ioctl\<close>, laid out as ctypes does on amd64
  (every field at the next multiple of its alignment, the size rounded up to the alignment of the
  whole), and the request numbers computed from their sizes.
\<close>

section \<open>Layout of C structures\<close>

text \<open>A scalar is known by its size, which is its alignment.\<close>

datatype ctype =
    CScalar nat
  | CArray nat ctype
  | CStruct "(string \<times> ctype) list"
  | CUnion "(string \<times> ctype) list"

definition round_up :: "nat \<Rightarrow> nat \<Rightarrow> nat" where
  "round_up n a = (n + a - 1) div a * a"

fun calign :: "ctype \<Rightarrow> nat" where
  "calign (CScalar n) = n"
| "calign (CArray k t) = calign t"
| "calign (CStruct fs) = foldl (\<lambda>a (f, t). max a (calign t)) 1 fs"
| "calign (CUnion fs) = foldl (\<lambda>a (f, t). max a (calign t)) 1 fs"

fun sizeof :: "ctype \<Rightarrow> nat" where
  "sizeof (CScalar n) = n"
| "sizeof (CArray k t) = k * sizeof t"
| "sizeof (CStruct fs) =
     round_up (foldl (\<lambda>off (f, t). round_up off (calign t) + sizeof t) 0 fs) (calign (CStruct fs))"
| "sizeof (CUnion fs) = round_up (foldl (\<lambda>s (f, t). max s (sizeof t)) 0 fs) (calign (CUnion fs))"

abbreviation c_char :: ctype where "c_char \<equiv> CScalar 1"
abbreviation c_uint8 :: ctype where "c_uint8 \<equiv> CScalar 1"
abbreviation c_short :: ctype where "c_short \<equiv> CScalar 2"
abbreviation c_uint16 :: ctype where "c_uint16 \<equiv> CScalar 2"
abbreviation c_int :: ctype where "c_int \<equiv> CScalar 4"
abbreviation c_uint32 :: ctype where "c_uint32 \<equiv> CScalar 4"
abbreviation c_ulong :: ctype where "c_ulong \<equiv> CScalar 8"
abbreviation c_ptr :: ctype where "c_ptr \<equiv> CScalar 8"

definition IFNAMSIZ :: nat where
  "IFNAMSIZ = 16"

section \<open>The structures\<close>

definition in_addr_t :: ctype where
  "in_addr_t = CStruct [(''s_addr'', c_uint32)]"

definition sockaddr_in_t :: ctype where
  "sockaddr_in_t = CStruct [(''sin_len'', c_uint8), (''sin_family'', c_uint8), (''sin_port'', c_uint16),
     (''sin_addr'', in_addr_t), (''sin_zero'', CArray 8 c_char)]"

definition sockaddr_t :: ctype where
  "sockaddr_t = CStruct [(''sa_len'', c_uint8), (''sa_family'', c_uint8), (''sa_data'', CArray 14 c_char)]"

definition if_alias_req_t :: ctype where
  "if_alias_req_t = CStruct [(''ifra_name'', CArray IFNAMSIZ c_char), (''ifra_addr'', sockaddr_t),
     (''ifra_broadaddr'', sockaddr_t), (''ifra_mask'', sockaddr_t), (''ifra_vhid'', c_int)]"

definition ifreq_buffer_t :: ctype where
  "ifreq_buffer_t = CStruct [(''length'', c_int), (''buffer'', c_ptr)]"

definition ifreq_nv_t :: ctype where
  "ifreq_nv_t = CStruct [(''dummy'', c_int)]"

definition ifreq_union_t :: ctype where
  "ifreq_union_t = CUnion
     [(''ifru_addr'', sockaddr_t), (''ifru_dstaddr'', sockaddr_t), (''ifru_broadaddr'', sockaddr_t),
      (''ifru_buffer'', ifreq_buffer_t), (''ifru_flags'', CArray 2 c_short), (''ifru_index'', c_short),
      (''ifru_jid'', c_int), (''ifru_metric'', c_int), (''ifru_mtu'', c_int), (''ifru_phys'', c_int),
      (''ifru_media'', c_int), (''ifru_data'', c_ptr), (''ifru_cap'', CArray 2 c_int),
      (''ifru_fib'', c_int), (''ifru_vlan_pcp'', c_uint8), (''ifru_nv'', ifreq_nv_t)]"

definition ifreq_t :: ctype where
  "ifreq_t = CStruct [(''ifr_name'', CArray IFNAMSIZ c_char), (''ifr_ifru'', ifreq_union_t)]"

definition ifaddrs_t :: ctype where
  "ifaddrs_t = CStruct [(''ifa_next'', c_ptr), (''ifa_name'', c_ptr), (''ifa_flags'', c_uint32),
     (''ifa_addr'', c_ptr), (''ifa_netmask'', c_ptr), (''ifa_dstaddr'', c_ptr), (''ifa_data'', c_ptr)]"

definition ifg_req_t :: ctype where
  "ifg_req_t = CStruct [(''ifgrq_ifgrqu'',
     CUnion [(''ifgrqu_group'', CArray IFNAMSIZ c_char), (''ifgrqu_member'', CArray IFNAMSIZ c_char)])]"

definition ifgroupreq_t :: ctype where
  "ifgroupreq_t = CStruct [(''ifgr_name'', CArray IFNAMSIZ c_char), (''ifgr_len'', c_uint32),
     (''ifgr_ifgru'', CUnion [(''ifgru_group'', CArray IFNAMSIZ c_char), (''ifgru_groups'', c_ptr)])]"

definition ifdrv_t :: ctype where
  "ifdrv_t = CStruct [(''ifd_name'', CArray IFNAMSIZ c_char), (''ifd_cmd'', c_ulong),
     (''ifd_len'', c_ulong), (''ifd_data'', c_ptr)]"

definition ifbreq_t :: ctype where
  "ifbreq_t = CStruct
     [(''ifbr_ifsname'', CArray IFNAMSIZ c_char), (''ifbr_ifsflags'', c_uint32),
      (''ifbr_stpflags'', c_uint32), (''ifbr_path_cost'', c_uint32), (''ifbr_portno'', c_uint8),
      (''ifbr_priority'', c_uint8), (''ifbr_proto'', c_uint8), (''ifbr_role'', c_uint8),
      (''ifbr_state'', c_uint8), (''ifbr_addrcnt'', c_uint32), (''ifbr_addrmax'', c_uint32),
      (''ifbr_addrexceeded'', c_uint32), (''pad'', CArray 32 c_uint8)]"

section \<open>Request numbers\<close>

definition IOC_OUT :: int where "IOC_OUT = 0x40000000"
definition IOC_IN :: int where "IOC_IN = 0x80000000"
definition IOC_INOUT :: int where "IOC_INOUT = IOC_IN OR IOC_OUT"

definition IOPARM_MASK :: int where
  "IOPARM_MASK = push_bit 13 1 - 1"

definition ioc :: "int \<Rightarrow> char \<Rightarrow> int \<Rightarrow> int \<Rightarrow> int" where
  "ioc inout grp num len =
     inout OR push_bit 16 (len AND IOPARM_MASK) OR push_bit 8 (int (code grp)) OR num"

definition iow :: "char \<Rightarrow> int \<Rightarrow> ctype \<Rightarrow> int" where
  "iow g n t = ioc IOC_IN g n (int (sizeof t))"

definition ior :: "char \<Rightarrow> int \<Rightarrow> ctype \<Rightarrow> int" where
  "ior g n t = ioc IOC_OUT g n (int (sizeof t))"

definition iowr :: "char \<Rightarrow> int \<Rightarrow> ctype \<Rightarrow> int" where
  "iowr g n t = ioc IOC_INOUT g n (int (sizeof t))"

definition SIOCSIFVNET :: int where "SIOCSIFVNET = iowr CHR ''i'' 90 ifreq_t"
definition SIOCSIFRVNET :: int where "SIOCSIFRVNET = iowr CHR ''i'' 91 ifreq_t"
definition SIOCIFCREATE :: int where "SIOCIFCREATE = iowr CHR ''i'' 122 ifreq_t"
definition SIOCIFCREATE2 :: int where "SIOCIFCREATE2 = iowr CHR ''i'' 124 ifreq_t"
definition SIOCIFDESTROY :: int where "SIOCIFDESTROY = iow CHR ''i'' 121 ifreq_t"
definition SIOCSIFFLAGS :: int where "SIOCSIFFLAGS = iow CHR ''i'' 16 ifreq_t"
definition SIOCGIFFLAGS :: int where "SIOCGIFFLAGS = iowr CHR ''i'' 17 ifreq_t"
definition SIOCGIFNETMASK :: int where "SIOCGIFNETMASK = iowr CHR ''i'' 37 ifreq_t"
definition SIOCGIFGROUP :: int where "SIOCGIFGROUP = iowr CHR ''i'' 136 ifgroupreq_t"
definition SIOCSIFNAME :: int where "SIOCSIFNAME = iow CHR ''i'' 40 ifreq_t"
definition SIOCSDRVSPEC :: int where "SIOCSDRVSPEC = iow CHR ''i'' 123 ifdrv_t"
definition SIOCAIFADDR :: int where "SIOCAIFADDR = iow CHR ''i'' 43 if_alias_req_t"
definition SIOCGIFINDEX :: int where "SIOCGIFINDEX = iowr CHR ''i'' 32 ifreq_t"
definition SIOCAIFGROUP :: int where "SIOCAIFGROUP = iow CHR ''i'' 135 ifgroupreq_t"

text \<open>The commands of a bridge, and the flags of a mount.\<close>

definition bridge_commands :: "(string \<times> int) list" where
  "bridge_commands =
    [(''BRDGADD'', 0), (''BRDGDEL'', 1), (''BRDGGIFFLGS'', 2), (''BRDGSIFFLGS'', 3),
     (''BRDGSCACHE'', 4), (''BRDGGCACHE'', 5), (''BRDGGIFS'', 6), (''BRDGRTS'', 7),
     (''BRDGSADDR'', 8), (''BRDGSTO'', 9), (''BRDGGTO'', 10), (''BRDGDADDR'', 11),
     (''BRDGFLUSH'', 12), (''BRDGGPRI'', 13), (''BRDGSPRI'', 14), (''BRDGGHT'', 15),
     (''BRDGSHT'', 16), (''BRDGGFD'', 17), (''BRDGSFD'', 18), (''BRDGGMA'', 19),
     (''BRDGSMA'', 20), (''BRDGSIFPRIO'', 21), (''BRDGSIFCOST'', 22), (''BRDGADDS'', 23),
     (''BRDGDELS'', 24), (''BRDGPARAM'', 25), (''BRDGGRTE'', 26), (''BRDGGIFSSTP'', 27),
     (''BRDGSPROTO'', 28), (''BRDGSTXHC'', 29), (''BRDGSIFAMAX'', 30)]"

definition mount_flags :: "(string \<times> int) list" where
  "mount_flags =
    [(''MNT_RDONLY'', 0x1), (''MNT_SYNCHRONOUS'', 0x2), (''MNT_NOEXEC'', 0x4),
     (''MNT_NOSUID'', 0x8), (''MNT_NFS4ACLS'', 0x10), (''MNT_UNION'', 0x20),
     (''MNT_ASYNC'', 0x40), (''MNT_SUIDDIR'', 0x100000), (''MNT_SOFTDEP'', 0x200000),
     (''MNT_NOSYMFOLLOW'', 0x400000), (''MNT_GJOURNAL'', 0x2000000),
     (''MNT_MULTILABEL'', 0x4000000), (''MNT_ACLS'', 0x8000000), (''MNT_NOATIME'', 0x10000000),
     (''MNT_NOCLUSTERR'', 0x40000000), (''MNT_NOCLUSTERW'', 0x80000000),
     (''MNT_SUJ'', 0x100000000), (''MNT_AUTOMOUNTED'', 0x200000000),
     (''MNT_UNTRUSTED'', 0x800000000)]"

definition BRDGADD :: int where "BRDGADD = 0"
definition BRDGDEL :: int where "BRDGDEL = 1"
definition IFF_UP :: int where "IFF_UP = 1"
definition MNT_RDONLY :: int where "MNT_RDONLY = 1"

text \<open>The commands are numbered without gaps, and no two flags share a bit: each can be set and cleared
  alone.\<close>

lemma bridge_commands_numbered: "map snd bridge_commands = map int [0..<length bridge_commands]"
  by code_simp

lemma mount_flags_disjoint: "foldl (OR) 0 (map snd mount_flags) = sum_list (map snd mount_flags)"
  by code_simp

text \<open>What the kernel reads back from a request number: direction, length, group and number.\<close>

definition ioc_direction :: "int \<Rightarrow> int" where "ioc_direction r = push_bit 29 (drop_bit 29 r)"
definition ioc_len :: "int \<Rightarrow> int" where "ioc_len r = take_bit 13 (drop_bit 16 r)"
definition ioc_group :: "int \<Rightarrow> int" where "ioc_group r = take_bit 8 (drop_bit 8 r)"
definition ioc_num :: "int \<Rightarrow> int" where "ioc_num r = take_bit 8 r"

lemma request_values:
  "SIOCSIFVNET = 0xC020695A" "SIOCSIFRVNET = 0xC020695B" "SIOCIFCREATE2 = 0xC020697C"
  "SIOCIFDESTROY = 0x80206979" "SIOCSIFFLAGS = 0x80206910" "SIOCGIFFLAGS = 0xC0206911"
  "SIOCSIFNAME = 0x80206928" "SIOCSDRVSPEC = 0x8028697B" "SIOCAIFADDR = 0x8044692B"
  "SIOCGIFINDEX = 0xC0206920" "SIOCAIFGROUP = 0x80286987" "SIOCGIFGROUP = 0xC0286988"
  by code_simp+

section \<open>Properties\<close>

lemma bit_of_small: "0 \<le> (x :: int) \<Longrightarrow> x < 2 ^ n \<Longrightarrow> bit x i \<Longrightarrow> i < n"
  by (metis bit_take_bit_iff take_bit_int_eq_self)

lemma bit_ioc:
  assumes "inout = push_bit 29 d" "0 \<le> len" "len < 2 ^ 13" "0 \<le> num" "num < 2 ^ 8"
  shows "bit (ioc inout grp num len) i \<longleftrightarrow>
    (if i < 8 then bit num i else if i < 16 then bit (int (code grp)) (i - 8)
     else if i < 29 then bit len (i - 16) else bit d (i - 29))"
proof -
  have "0 \<le> int (code grp)" "int (code grp) < 2 ^ 8" using code_less [of grp] by auto
  note small = bit_of_small [OF assms(2,3)] bit_of_small [OF assms(4,5)] bit_of_small [OF this]
  have "IOPARM_MASK = mask 13" by (simp add: IOPARM_MASK_def mask_eq_exp_minus_1)
  moreover have "take_bit 13 len = len" using assms(2,3) by (simp add: take_bit_int_eq_self)
  ultimately have "len AND IOPARM_MASK = len" by (simp add: take_bit_eq_mask)
  with assms(1) show ?thesis
    using small(1) [of "i - 16"] small(2) [of i] small(3) [of "i - 8"]
    by (auto simp: ioc_def bit_simps)
qed

text \<open> The request numbers are well formed: direction, parameter length, group and number can each
  be read back from the number \<open>ioc\<close> composes, so requests that differ in one of them differ.
\<close>

theorem ioc_roundtrip:
  assumes "inout = push_bit 29 d" and "0 \<le> len" and "len < 2 ^ 13" and "0 \<le> num" and "num < 2 ^ 8"
  shows "ioc_direction (ioc inout grp num len) = inout \<and> ioc_len (ioc inout grp num len) = len \<and>
    ioc_group (ioc inout grp num len) = int (code grp) \<and> ioc_num (ioc inout grp num len) = num"
proof -
  have "0 \<le> int (code grp)" "int (code grp) < 2 ^ 8" using code_less [of grp] by auto
  note small = bit_of_small [OF assms(2,3)] bit_of_small [OF assms(4,5)] bit_of_small [OF this]
  show ?thesis
    unfolding ioc_direction_def ioc_len_def ioc_group_def ioc_num_def assms(1)
    using small
    by (intro conjI bit_eqI) (auto simp: bit_simps bit_ioc [OF refl assms(2-5)])
qed

theorem ioc_roundtrip_witness:
  "ioc_direction SIOCIFCREATE2 = IOC_INOUT \<and> ioc_len SIOCIFCREATE2 = int (sizeof ifreq_t) \<and>
   ioc_group SIOCIFCREATE2 = int (code CHR ''i'') \<and> ioc_num SIOCIFCREATE2 = 124"
proof -
  have "sizeof ifreq_t = 32" by code_simp
  moreover have "IOC_INOUT = push_bit 29 6" by code_simp
  ultimately show ?thesis
    unfolding SIOCIFCREATE2_def iowr_def
    using ioc_roundtrip [of IOC_INOUT 6 "int (sizeof ifreq_t)" 124 "CHR ''i''"] by simp
qed

text \<open>
  The requests have the values of FreeBSD's \<open>sys/sockio.h\<close> on amd64.
\<close>

theorem request_numbers:
  "SIOCSIFVNET = 0xC020695A \<and> SIOCSIFRVNET = 0xC020695B \<and> SIOCIFCREATE2 = 0xC020697C \<and>
   SIOCIFDESTROY = 0x80206979 \<and> SIOCSIFFLAGS = 0x80206910 \<and> SIOCGIFFLAGS = 0xC0206911 \<and>
   SIOCSIFNAME = 0x80206928 \<and> SIOCSDRVSPEC = 0x8028697B \<and> SIOCAIFADDR = 0x8044692B \<and>
   SIOCGIFINDEX = 0xC0206920 \<and> SIOCAIFGROUP = 0x80286987 \<and> SIOCGIFGROUP = 0xC0286988"
  by (simp only: request_values simp_thms)

end
