(* ===== verification/IPv4.thy ===== *)
theory IPv4
  imports PyValues
begin

unbundle bit_operations_syntax

text \<open>
  The part of Python's \<open>ipaddress\<close> the sources use: IPv4 addresses as 32-bit words, networks as
  an address and a prefix length, parsing and printing, membership, overlap, the enumeration of
  hosts and of subnets.  Literals of version 6 are outside of the model: they are rejected here.
\<close>

type_synonym ipv4 = "32 word"

record ipv4_network =
  net_addr :: ipv4
  net_prefix :: nat

section \<open>Masks and membership\<close>

definition netmask :: "nat \<Rightarrow> ipv4" where
  "netmask p = NOT (mask (32 - p))"

definition in_net :: "ipv4 \<Rightarrow> ipv4_network \<Rightarrow> bool" where
  "in_net x n = (x AND netmask (net_prefix n) = net_addr n)"

definition broadcast :: "ipv4_network \<Rightarrow> ipv4" where
  "broadcast n = net_addr n OR mask (32 - net_prefix n)"

definition valid_net :: "ipv4_network \<Rightarrow> bool" where
  "valid_net n = (net_prefix n \<le> 32 \<and> in_net (net_addr n) n)"

definition overlaps :: "ipv4_network \<Rightarrow> ipv4_network \<Rightarrow> bool" where
  "overlaps a b = (in_net (net_addr a) b \<or> in_net (broadcast a) b \<or>
                   in_net (net_addr b) a \<or> in_net (broadcast b) a)"

lemma ipv4_eq_iff: "(x :: ipv4) = y \<longleftrightarrow> (\<forall>i<32. bit x i = bit y i)"
  by (auto intro: bit_word_eqI)

lemma unat_ipv4_less: "unat (x :: ipv4) < 2 ^ 32"
proof -
  have "(unsigned x :: nat) < 2 ^ LENGTH(32)" by (rule unsigned_less)
  then show ?thesis by simp
qed

lemma bit_netmask: "bit (netmask p) i \<longleftrightarrow> i < 32 \<and> 32 - p \<le> i"
  by (auto simp: netmask_def bit_simps)

lemma valid_net_prefix [dest]: "valid_net n \<Longrightarrow> net_prefix n \<le> 32"
  by (simp add: valid_net_def)

lemma valid_net_self [simp]: "valid_net n \<Longrightarrow> in_net (net_addr n) n"
  by (simp add: valid_net_def)

text \<open>Membership, bit by bit: the first \<open>p\<close> bits agree.\<close>

lemma in_net_bits:
  assumes "valid_net n"
  shows "in_net x n \<longleftrightarrow> (\<forall>i<32. 32 - net_prefix n \<le> i \<longrightarrow> bit x i = bit (net_addr n) i)"
proof -
  have self: "net_addr n AND netmask (net_prefix n) = net_addr n"
    using assms by (simp add: valid_net_def in_net_def)
  have addr: "bit (net_addr n) i \<longleftrightarrow> bit (net_addr n) i \<and> i < 32 \<and> 32 - net_prefix n \<le> i" for i
    by (metis self bit_and_iff bit_netmask)
  have "in_net x n \<longleftrightarrow> (\<forall>i<32. bit (x AND netmask (net_prefix n)) i = bit (net_addr n) i)"
    by (simp add: in_net_def ipv4_eq_iff)
  also have "\<dots> \<longleftrightarrow> (\<forall>i<32. 32 - net_prefix n \<le> i \<longrightarrow> bit x i = bit (net_addr n) i)"
    using addr by (auto simp: bit_and_iff bit_netmask)
  finally show ?thesis .
qed

text \<open>Membership as division: the arithmetic view the enumerations use.\<close>

lemma unat_and_netmask: "unat (x AND netmask p) = unat x div 2 ^ (32 - p) * 2 ^ (32 - p)"
proof -
  have "x AND netmask p = push_bit (32 - p) (drop_bit (32 - p) x)"
    by (rule bit_word_eqI) (auto simp: bit_simps netmask_def)
  then have "unat (x AND netmask p) = take_bit 32 (push_bit (32 - p) (drop_bit (32 - p) (unat x)))"
    by (simp only: unsigned_push_bit_eq unat_drop_bit_eq) simp
  moreover have "unat x div 2 ^ (32 - p) * 2 ^ (32 - p) < 2 ^ 32"
    by (rule le_less_trans [OF div_times_less_eq_dividend]) (rule unat_ipv4_less)
  ultimately show ?thesis
    by (simp add: drop_bit_eq_div push_bit_eq_mult take_bit_nat_eq_self)
qed

lemma in_net_div:
  "in_net x n \<longleftrightarrow> unat x div 2 ^ (32 - net_prefix n) * 2 ^ (32 - net_prefix n) = unat (net_addr n)"
  unfolding in_net_def by (metis unat_and_netmask word_unat_eq_iff)

lemma valid_net_dvd:
  "valid_net n \<longleftrightarrow> net_prefix n \<le> 32 \<and> 2 ^ (32 - net_prefix n) dvd unat (net_addr n)"
  by (auto simp: valid_net_def in_net_div dvd_div_mult_self) (metis dvd_triv_right)

lemma overlaps_iff_common:
  assumes "valid_net a" and "valid_net b"
  shows "overlaps a b \<longleftrightarrow> (\<exists>x. in_net x a \<and> in_net x b)"
proof
  have bc: "in_net (broadcast n) n" if "valid_net n" for n
    unfolding in_net_bits [OF that] by (auto simp: broadcast_def bit_simps)
  assume "overlaps a b"
  then show "\<exists>x. in_net x a \<and> in_net x b"
    unfolding overlaps_def using assms bc by (meson valid_net_self)
next
  assume "\<exists>x. in_net x a \<and> in_net x b"
  then obtain x where x: "in_net x a" "in_net x b" by blast
  show "overlaps a b"
  proof (cases "net_prefix b \<le> net_prefix a")
    case True
    then have "in_net (net_addr a) b"
      using x unfolding in_net_bits [OF assms(1)] in_net_bits [OF assms(2)] by auto
    then show ?thesis by (simp add: overlaps_def)
  next
    case False
    then have "in_net (net_addr b) a"
      using x unfolding in_net_bits [OF assms(1)] in_net_bits [OF assms(2)] by auto
    then show ?thesis by (simp add: overlaps_def)
  qed
qed

lemma same_prefix_eq:
  assumes "valid_net n" "valid_net m" "in_net x n" "in_net x m" "net_prefix n = net_prefix m"
  shows "n = m"
proof -
  have "net_addr n = net_addr m" using assms by (simp add: in_net_def)
  with assms(5) show ?thesis by (simp add: ipv4_network.equality)
qed

section \<open>Text\<close>

text \<open>\<open>str(ip)\<close> writes the four bytes in decimal; \<open>IPv4Address(s)\<close> reads them back, rejecting
  empty, long, non-decimal and zero-padded octets.\<close>

definition octet :: "ipv4 \<Rightarrow> nat \<Rightarrow> nat" where
  "octet a i = unat (drop_bit (24 - 8 * i) a AND 255)"

definition ip_str :: "ipv4 \<Rightarrow> string" where
  "ip_str a = joinc CHR ''.'' (map (\<lambda>i. dec (octet a i)) [0..<4])"

definition parse_octet :: "string \<Rightarrow> nat res" where
  "parse_octet s =
     (if s = [] \<or> \<not> list_all is_digit s then Inl ValueError
      else if 3 < length s then Inl ValueError
      else if s \<noteq> ''0'' \<and> hd s = CHR ''0'' then Inl ValueError
      else if 255 < num_of s then Inl ValueError
      else Inr (num_of s))"

definition ip_of_str :: "string \<Rightarrow> ipv4 res" where
  "ip_of_str s =
     (let octets = splitc CHR ''.'' s in
      if length octets \<noteq> 4 then Inl ValueError
      else bindR (mapR parse_octet octets)
             (\<lambda>ns. Inr (foldl (\<lambda>acc n. 256 * acc + of_nat n) 0 ns)))"

lemma code_zero: "code CHR ''0'' = 48"
  by (simp add: code_def)

lemma parse_octet_dec: "n < 256 \<Longrightarrow> parse_octet (dec n) = Inr n"
proof -
  assume n: "n < 256"
  have len: "length (dec n) \<le> 3" by (rule length_dec) (use n in auto)
  have lead: "dec n = ''0'' \<or> hd (dec n) \<noteq> CHR ''0''"
    using hd_dec [of n] code_zero by (cases "n = 0") (auto simp: dec_zero)
  show ?thesis
    using n len lead dec_digits [of n] by (auto simp: parse_octet_def)
qed

lemma octet_eq_div: "octet a i = unat a div 2 ^ (24 - 8 * i) mod 256"
proof -
  have "drop_bit (24 - 8 * i) a AND 255 = take_bit 8 (drop_bit (24 - 8 * i) a)"
    by (simp add: take_bit_eq_mask mask_eq_exp_minus_1)
  then have "octet a i = take_bit 8 (drop_bit (24 - 8 * i) (unat a))"
    by (simp only: octet_def unsigned_take_bit_eq unat_drop_bit_eq)
  then show ?thesis by (simp add: drop_bit_eq_div take_bit_eq_mod)
qed

lemma octet_less: "octet a i < 256"
  by (simp add: octet_eq_div)

lemma bytes_of_nat:
  fixes u :: nat
  assumes "u < 2 ^ 32"
  shows "256 * (256 * (256 * (u div 16777216 mod 256) + u div 65536 mod 256) + u div 256 mod 256)
           + u mod 256 = u"
proof -
  have a: "u div 16777216 mod 256 = u div 16777216"
    using assms by (intro mod_less) (simp add: less_mult_imp_div_less)
  have b: "256 * (u div 16777216) + u div 65536 mod 256 = u div 65536"
    using mult_div_mod_eq [of 256 "u div 65536"] by (simp add: div_mult2_eq [symmetric])
  have c: "256 * (u div 65536) + u div 256 mod 256 = u div 256"
    using mult_div_mod_eq [of 256 "u div 256"] by (simp add: div_mult2_eq [symmetric])
  show ?thesis unfolding a b c by simp
qed

lemma octets_value:
  "256 * (256 * (256 * octet a 0 + octet a 1) + octet a 2) + octet a 3 = unat a"
proof -
  have "octet a 0 = unat a div 16777216 mod 256" "octet a 1 = unat a div 65536 mod 256"
    "octet a 2 = unat a div 256 mod 256" "octet a 3 = unat a mod 256"
    by (simp_all add: octet_eq_div)
  moreover have "unat a < 2 ^ 32" by (rule unat_ipv4_less)
  ultimately show ?thesis by (simp only: bytes_of_nat)
qed

lemma ip_str_parts: "splitc CHR ''.'' (ip_str a) = map (\<lambda>i. dec (octet a i)) [0..<4]"
proof -
  have "\<not> is_digit CHR ''.''" by code_simp
  then show ?thesis
    unfolding ip_str_def by (intro splitc_joinc) (auto dest: dec_notin)
qed

lemma ip_of_str_ip_str [simp]: "ip_of_str (ip_str a) = Inr a"
proof -
  have "mapR parse_octet (map (\<lambda>i. dec (octet a i)) [0..<4]) = Inr (map (octet a) [0..<4])"
    by (simp add: upt_rec parse_octet_dec octet_less)
  then have "ip_of_str (ip_str a) =
      Inr (foldl (\<lambda>acc n. 256 * acc + of_nat n) 0 (map (octet a) [0..<4]))"
    by (simp add: ip_of_str_def ip_str_parts Let_def)
  also have "foldl (\<lambda>acc n. 256 * acc + of_nat n) 0 (map (octet a) [0..<4]) =
      (of_nat (256 * (256 * (256 * octet a 0 + octet a 1) + octet a 2) + octet a 3) :: ipv4)"
    by (simp add: upt_rec numeral_3_eq_3 numeral_2_eq_2)
  also have "\<dots> = a" by (simp only: octets_value) simp
  finally show ?thesis .
qed

lemma ip_str_inject [simp]: "ip_str a = ip_str b \<longleftrightarrow> a = b"
  by (metis ip_of_str_ip_str sum.inject(2))

text \<open>
  \<open>IPv4Network(s)\<close> and \<open>IPv4Interface(s)\<close> take an address with an optional mask after one
  slash: a prefix length, a netmask or a hostmask in dotted form; a network with host bits set is
  rejected.
\<close>

definition prefix_of_mask :: "ipv4 \<Rightarrow> nat res" where
  "prefix_of_mask w = (case filter (\<lambda>p. netmask p = w) [0..<33] of
      [] \<Rightarrow> Inl ValueError | p # _ \<Rightarrow> Inr p)"

definition prefix_of_str :: "string \<Rightarrow> nat res" where
  "prefix_of_str s =
     (if s \<noteq> [] \<and> list_all is_digit s \<and> num_of s \<le> 32 then Inr (num_of s)
      else bindR (ip_of_str s) (\<lambda>w.
             case prefix_of_mask w of Inr p \<Rightarrow> Inr p | Inl _ \<Rightarrow> prefix_of_mask (NOT w)))"

definition split_mask :: "string \<Rightarrow> (ipv4 \<times> nat) res" where
  "split_mask s =
     (case splitc CHR ''/'' s of
        [a] \<Rightarrow> bindR (ip_of_str a) (\<lambda>w. Inr (w, 32))
      | [a, m] \<Rightarrow> bindR (ip_of_str a) (\<lambda>w. bindR (prefix_of_str m) (\<lambda>p. Inr (w, p)))
      | _ \<Rightarrow> Inl ValueError)"

definition ip_network :: "string \<Rightarrow> ipv4_network res" where
  "ip_network s = bindR (split_mask s) (\<lambda>(w, p).
      if w AND netmask p \<noteq> w then Inl ValueError
      else Inr \<lparr>net_addr = w, net_prefix = p\<rparr>)"

text \<open>An interface: the address \<open>.ip\<close> and the netmask of \<open>.network\<close>.\<close>

definition ip_interface :: "string \<Rightarrow> (ipv4 \<times> ipv4) res" where
  "ip_interface s = bindR (split_mask s) (\<lambda>(w, p). Inr (w, netmask p))"

definition net_str :: "ipv4_network \<Rightarrow> string" where
  "net_str n = ip_str (net_addr n) @ CHR ''/'' # dec (net_prefix n)"

lemma ip_str_no_slash: "CHR ''/'' \<notin> set (ip_str a)"
proof -
  have "\<not> is_digit CHR ''/''" by code_simp
  then have "CHR ''/'' \<notin> set (dec n)" for n by (rule dec_notin)
  then show ?thesis by (auto simp: ip_str_def upt_rec joinc_Cons)
qed

lemma prefix_of_str_dec [simp]: "p \<le> 32 \<Longrightarrow> prefix_of_str (dec p) = Inr p"
  using dec_digits [of p] by (simp add: prefix_of_str_def)

lemma split_mask_text [simp]:
  "p \<le> 32 \<Longrightarrow> split_mask (ip_str a @ CHR ''/'' # dec p) = Inr (a, p)"
proof -
  assume p: "p \<le> 32"
  have "\<not> is_digit CHR ''/''" by code_simp
  then have "CHR ''/'' \<notin> set (dec p)" by (rule dec_notin)
  then show ?thesis
    using p by (simp add: split_mask_def splitc_append_sep ip_str_no_slash)
qed

lemma ip_network_text:
  "valid_net \<lparr>net_addr = a, net_prefix = p\<rparr> \<Longrightarrow>
   ip_network (ip_str a @ CHR ''/'' # dec p) = Inr \<lparr>net_addr = a, net_prefix = p\<rparr>"
  by (auto simp: ip_network_def valid_net_def in_net_def)

lemma ip_network_net_str [simp]: "valid_net n \<Longrightarrow> ip_network (net_str n) = Inr n"
  by (cases n) (simp add: net_str_def ip_network_text)

lemma prefix_of_mask_le: "prefix_of_mask w = Inr p \<Longrightarrow> p \<le> 32"
proof -
  assume "prefix_of_mask w = Inr p"
  then have "p \<in> set (filter (\<lambda>p. netmask p = w) [0..<33])"
    by (auto simp: prefix_of_mask_def simp del: upt_rec_numeral set_filter split: list.splits)
  then show ?thesis by (auto simp del: upt_rec_numeral)
qed

lemma prefix_of_str_le: "prefix_of_str s = Inr p \<Longrightarrow> p \<le> 32"
  by (auto simp: prefix_of_str_def bindR_def dest: prefix_of_mask_le split: if_splits sum.splits)

lemma split_mask_le: "split_mask s = Inr (w, p) \<Longrightarrow> p \<le> 32"
  by (auto simp: split_mask_def bindR_eq_Inr dest: prefix_of_str_le split: list.splits)

lemma ip_network_valid: "ip_network s = Inr n \<Longrightarrow> valid_net n"
  by (auto simp: ip_network_def bindR_eq_Inr valid_net_def in_net_def dest: split_mask_le
      split: if_splits prod.splits)

section \<open>Hosts and subnets\<close>

text \<open>
  The addresses \<open>hosts()\<close> yields: both of a /31, else all but the first and the last of the
  block.  For a /32 it returns a list, on which \<open>next\<close> raises TypeError: \<open>hosts_iter\<close> is the
  iterator, \<open>next_host\<close> is \<open>next(n.hosts())\<close>.
\<close>

definition hosts_iter :: "ipv4_network \<Rightarrow> ipv4 list res" where
  "hosts_iter n =
     (if net_prefix n = 32 then Inl TypeError
      else if net_prefix n = 31 then Inr [net_addr n, net_addr n + 1]
      else Inr (map (\<lambda>k. net_addr n + of_nat k) [1 ..< 2 ^ (32 - net_prefix n) - 1]))"

definition next_host :: "ipv4_network \<Rightarrow> ipv4 res" where
  "next_host n = bindR (hosts_iter n) (\<lambda>hs. case hs of [] \<Rightarrow> Inl StopIteration | h # _ \<Rightarrow> Inr h)"

text \<open>\<open>n.subnets(new_prefix=q)\<close>: the blocks of the new length, in order.\<close>

definition subnets :: "ipv4_network \<Rightarrow> nat \<Rightarrow> ipv4_network list res" where
  "subnets n q =
     (if net_prefix n = 32 then Inr [n]
      else if q < net_prefix n then Inl ValueError
      else if 32 < q then Inl ValueError
      else Inr (map (\<lambda>k. \<lparr>net_addr = net_addr n + of_nat k * 2 ^ (32 - q), net_prefix = q\<rparr>)
                    [0 ..< 2 ^ (q - net_prefix n)]))"

lemma unat_of_nat_small: "m < 2 ^ 32 \<Longrightarrow> unat (of_nat m :: ipv4) = m"
  by (simp add: unsigned_of_nat take_bit_nat_eq_self)

lemma unat_add_offset:
  assumes "valid_net n" and "k < 2 ^ (32 - net_prefix n)"
  shows "unat (net_addr n + of_nat k) = unat (net_addr n) + k"
proof -
  let ?s = "2 ^ (32 - net_prefix n) :: nat"
  obtain q where q: "unat (net_addr n) = ?s * q"
    using assms(1) by (auto simp: valid_net_dvd)
  have pow: "?s * 2 ^ net_prefix n = 2 ^ 32"
    using assms(1) by (simp add: valid_net_def flip: power_add)
  have "?s * q < ?s * 2 ^ net_prefix n"
    using unat_ipv4_less [of "net_addr n"] q pow by simp
  then have "q + 1 \<le> 2 ^ net_prefix n" by simp
  then have "?s * (q + 1) \<le> 2 ^ 32" unfolding pow [symmetric] by (rule mult_le_mono2)
  with q assms(2) have less: "unat (net_addr n) + k < 2 ^ 32" by (simp add: algebra_simps)
  then have "net_addr n + of_nat k = of_nat (unat (net_addr n) + k)" by simp
  then show ?thesis by (simp only: unat_of_nat_small [OF less])
qed

lemma in_net_offset:
  assumes "valid_net n" and "k < 2 ^ (32 - net_prefix n)"
  shows "in_net (net_addr n + of_nat k) n"
proof -
  let ?s = "2 ^ (32 - net_prefix n) :: nat"
  obtain q where q: "unat (net_addr n) = ?s * q"
    using assms(1) by (auto simp: valid_net_dvd)
  then have "(unat (net_addr n) + k) div ?s = q"
    using assms(2) by (simp add: div_add1_eq)
  then show ?thesis
    unfolding in_net_div unat_add_offset [OF assms] using q by simp
qed

lemma offset_inject:
  assumes "valid_net n" and "j < 2 ^ (32 - net_prefix n)" and "k < 2 ^ (32 - net_prefix n)"
    and "net_addr n + of_nat j = net_addr n + of_nat k"
  shows "j = k"
proof -
  have "unat (net_addr n) + j = unat (net_addr n) + k"
    using unat_add_offset [OF assms(1,2)] unat_add_offset [OF assms(1,3)] assms(4) by metis
  then show ?thesis by simp
qed

text \<open>Every block that \<open>subnets\<close> lists is a network inside the one it divides.\<close>

lemma subnet_inside:
  assumes n: "valid_net n" and q: "net_prefix n \<le> q" "q \<le> 32" and k: "k < 2 ^ (q - net_prefix n)"
    and m: "m = \<lparr>net_addr = net_addr n + of_nat k * 2 ^ (32 - q), net_prefix = q\<rparr>"
  shows "valid_net m" and "in_net x m \<Longrightarrow> in_net x n"
proof -
  let ?s = "2 ^ (32 - q) :: nat" and ?t = "2 ^ (q - net_prefix n) :: nat"
  have st: "2 ^ (32 - net_prefix n) = ?s * ?t"
    using q by (simp flip: power_add)
  obtain c where c: "unat (net_addr n) = ?s * ?t * c"
    using n st by (auto simp: valid_net_dvd)
  have "k * ?s < ?s * ?t" using k by simp
  then have addr: "unat (net_addr m) = ?s * (?t * c + k)"
    using unat_add_offset [OF n, of "k * ?s"] m c st by (simp add: algebra_simps)
  then show "valid_net m" using m q by (simp add: valid_net_dvd)
  assume "in_net x m"
  then have "unat x div ?s * ?s = ?s * (?t * c + k)" using addr m by (simp add: in_net_div)
  then have "unat x div ?s = ?t * c + k" by simp
  then have "unat x div (?s * ?t) = c" using k by (simp add: div_mult2_eq)
  then show "in_net x n" using c st by (simp add: in_net_div)
qed

lemma subnets_inside:
  assumes "valid_net n" and "subnets n q = Inr ms" and "m \<in> set ms"
  shows "valid_net m" and "in_net x m \<Longrightarrow> in_net x n"
  using assms subnet_inside [of n q _ m]
  by (auto simp: subnets_def split: if_splits)

lemma subnets_prefix:
  "subnets n q = Inr ms \<Longrightarrow> m \<in> set ms \<Longrightarrow> net_prefix n \<noteq> 32 \<Longrightarrow> net_prefix m = q"
  by (auto simp: subnets_def split: if_splits)

text \<open>Hosts lie in the network, the list has no repetition, and the first is \<open>next_host\<close>.\<close>

lemma two_le_block: "p < 31 \<Longrightarrow> (4 :: nat) \<le> 2 ^ (32 - p)"
proof -
  assume "p < 31"
  then have "(2 :: nat) ^ 2 \<le> 2 ^ (32 - p)" by (intro power_increasing) auto
  then show ?thesis by simp
qed

lemma hosts_offsets:
  assumes "valid_net n" and "hosts_iter n = Inr hs"
  shows "\<exists>ks. hs = map (\<lambda>k. net_addr n + of_nat k) ks \<and> distinct ks \<and>
           (\<forall>k\<in>set ks. k < 2 ^ (32 - net_prefix n))"
proof (cases "net_prefix n = 31")
  case True
  with assms(2) have "hs = map (\<lambda>k. net_addr n + of_nat k) [0, 1]"
    by (simp add: hosts_iter_def)
  with True show ?thesis by (intro exI [of _ "[0, 1]"]) auto
next
  case False
  with assms(2) have "hs = map (\<lambda>k. net_addr n + of_nat k) [1 ..< 2 ^ (32 - net_prefix n) - 1]"
    by (simp add: hosts_iter_def split: if_splits)
  then show ?thesis by (intro exI [of _ "[1 ..< 2 ^ (32 - net_prefix n) - 1]"]) auto
qed

lemma hosts_iter_in_net:
  assumes "valid_net n" and "hosts_iter n = Inr hs" and "x \<in> set hs"
  shows "in_net x n"
  using hosts_offsets [OF assms(1,2)] assms(3) by (auto intro!: in_net_offset [OF assms(1)])

lemma hosts_iter_distinct:
  assumes "valid_net n" and "hosts_iter n = Inr hs"
  shows "distinct hs"
proof -
  obtain ks where ks: "hs = map (\<lambda>k. net_addr n + of_nat k) ks" "distinct ks"
    "\<forall>k\<in>set ks. k < 2 ^ (32 - net_prefix n)"
    using hosts_offsets [OF assms] by blast
  have "inj_on (\<lambda>k. net_addr n + of_nat k) (set ks)"
    using ks(3) by (intro inj_onI) (blast intro: offset_inject [OF assms(1)])
  with ks show ?thesis by (simp add: distinct_map)
qed

lemma next_host_cases:
  assumes "valid_net n"
  shows "next_host n =
    (if net_prefix n = 32 then Inl TypeError
     else if net_prefix n = 31 then Inr (net_addr n) else Inr (net_addr n + 1))"
proof (cases "net_prefix n < 31")
  case True
  then have "[1 ..< 2 ^ (32 - net_prefix n) - 1] = 1 # [2 ..< 2 ^ (32 - net_prefix n) - 1]"
    using two_le_block [OF True] by (simp add: upt_rec numeral_2_eq_2)
  with True show ?thesis by (simp add: next_host_def hosts_iter_def)
next
  case False
  with assms have "net_prefix n = 31 \<or> net_prefix n = 32" by (auto simp: valid_net_def)
  then show ?thesis by (auto simp: next_host_def hosts_iter_def)
qed

end
