(* ===== verification/Kernel.thy ===== *)
theory Kernel
  imports Headers IPv4
begin

text \<open>
  The environment of the program.  Whatever leaves the Python code (libc and the FreeBSD kernel, the
  file system, child processes, HTTP, libzfs, the packet filter) is a call that is appended to the
  trace; the environment \<open>kern\<close> answers it and may depend on everything called before.  It is a
  parameter: no theorem fixes what it does.
\<close>

section \<open>Calls and answers\<close>

text \<open>One element of an iovec array: bytes with their terminator, a C int, an array of addresses,
  a null pointer or a buffer.\<close>

datatype iovec =
    IovBytes string
  | IovCInt "32 word"
  | IovAddrs "32 word list"
  | IovNull
  | IovBuffer nat

text \<open>The structures handed to \<open>ioctl\<close>, with the fields the code sets.\<close>

datatype ifru = IfruNone | IfruData string | IfruJid "32 word" | IfruFlags "16 word" "16 word"

datatype ioctl_arg =
    IfreqArg string ifru
  | IfgroupSet string string
  | IfgroupGet string nat
  | IfdrvArg string int nat string
  | IfAliasArg string ipv4 "ipv4 option" ipv4

datatype jail_call =
    Jail_get "iovec list" int | Jail_set "iovec list" int | Jail_attach int | Jail_remove int
  | Nmount "iovec list" int | Unmount string | Inet_aton string | Setproctitle string
  | Rctl string string nat | Sysctl_set string "32 word" | Sysctl_get string | Kldload string

datatype net_call =
    Getifaddrs | Socket | CloseSocket | Ioctl int ioctl_arg | RouteSocket
  | AddRoute string string string | PfCall string "json list"

datatype fs_call =
    PathExists string | PathIsmount string | PathIsdir string | PathIsfile string | Realpath string
  | Mkdir string | Makedirs string | Touch string | Chown string | Rmtree string
  | OpenFile string | CloseFd string | ReadLine string | WriteFile string string | TruncateFile string
  | Getcwd | ReadLines string | WriteJson string json | CopyTree string string | Copy2 string string

datatype proc_call =
    Spawn "string list" | Kill int | Waitpid int | Rfork int | Fork | Getpid | Setsid | Chdir string
  | Dup2 string nat | Getpwnam string | Setgid int | Setuid int | Execvpe string "json list" json
  | Execv string "string list"
  | Sleep int

datatype zfs_call =
    ZfsGet string | ZfsSnapshots string | ZfsClone string string string
  | ZfsSetMountpoint string string | ZfsUmount string | ZfsDelete string

datatype syscall =
    JailC jail_call | NetC net_call | FsC fs_call | ProcC proc_call | ZfsC zfs_call
  | HttpGet string | HttpPost string json | SendWorker string | Recv | Kevent | KeventAdd int
  | Uuid4 | Now | HttpDelete string | Print string | RandBelow nat

text \<open>
  An answer: the returned number, the errno it leaves, text, words, JSON, and the exception a
  Python-level call raises instead.  Each caller reads the fields its call has.
\<close>

record sysret =
  rv :: int
  rerrno :: int
  rtext :: string
  rnames :: "string list"
  raddr :: ipv4
  rflag0 :: "16 word"
  rflag1 :: "16 word"
  rjson :: json
  raises :: "exn option"

definition ok_ret :: sysret where
  "ok_ret = \<lparr>rv = 0, rerrno = 0, rtext = [], rnames = [], raddr = 0, rflag0 = 0, rflag1 = 0,
     rjson = JNull, raises = None\<rparr>"

record world =
  kern :: "syscall list \<Rightarrow> syscall \<Rightarrow> sysret"
  trace :: "syscall list"

text \<open>A foreign function never raises: it returns, and the code looks at the number.  A Python-level
  call may raise.\<close>

definition libc :: "syscall \<Rightarrow> ('x world_scheme, sysret) comp" where
  "libc c = (\<lambda>w. (Inr (kern w (trace w) c), w\<lparr>trace := trace w @ [c]\<rparr>))"

definition pycall :: "syscall \<Rightarrow> ('x world_scheme, sysret) comp" where
  "pycall c = bindM (libc c) (\<lambda>r. case raises r of Some e \<Rightarrow> raise e | None \<Rightarrow> ret r)"

definition do_call :: "syscall \<Rightarrow> ('x world_scheme, unit) comp" where
  "do_call c = seqM (pycall c) (ret ())"

section \<open>What a computation calls\<close>

text \<open>
  A computation only appends to the trace and leaves the environment alone, and every call it makes
  satisfies \<open>P\<close>: \<open>emits P m\<close>.  What it appended is \<open>calls m w\<close>.
\<close>

definition emits :: "(syscall \<Rightarrow> bool) \<Rightarrow> ('x world_scheme, 'a) comp \<Rightarrow> bool" where
  "emits P m \<longleftrightarrow>
     (\<forall>w. kern (snd (m w)) = kern w \<and> (\<exists>cs. trace (snd (m w)) = trace w @ cs \<and> list_all P cs))"

abbreviation appends :: "('x world_scheme, 'a) comp \<Rightarrow> bool" where
  "appends \<equiv> emits (\<lambda>_. True)"

definition calls :: "('x world_scheme, 'a) comp \<Rightarrow> 'x world_scheme \<Rightarrow> syscall list" where
  "calls m w = drop (length (trace w)) (trace (snd (m w)))"

named_theorems emits_rules \<open>what the combinators and the components call\<close>

declare TrueI [emits_rules]

lemma emitsI:
  "(\<And>w. \<exists>cs. kern (snd (m w)) = kern w \<and> trace (snd (m w)) = trace w @ cs \<and> list_all P cs) \<Longrightarrow> emits P m"
  by (auto simp: emits_def)

lemma emits_at:
  "emits P m \<Longrightarrow> m w = (r, w') \<Longrightarrow>
   \<exists>cs. kern w' = kern w \<and> trace w' = trace w @ cs \<and> list_all P cs"
  unfolding emits_def by (metis snd_conv)

lemma emitsD: "emits P m \<Longrightarrow> trace (snd (m w)) = trace w @ calls m w"
  by (auto simp: emits_def calls_def dest!: spec [of _ w])

lemma emits_calls: "emits P m \<Longrightarrow> c \<in> set (calls m w) \<Longrightarrow> P c"
  by (auto simp: emits_def calls_def list_all_iff dest!: spec [of _ w])

lemma emits_list_all: "emits P m \<Longrightarrow> list_all P (calls m w)"
  using emits_calls by (metis list_all_iff)

lemma emits_kern: "emits P m \<Longrightarrow> kern (snd (m w)) = kern w"
  by (simp add: emits_def)

lemma emits_weaken: "emits P m \<Longrightarrow> (\<And>c. P c \<Longrightarrow> Q c) \<Longrightarrow> emits Q m"
  unfolding emits_def list_all_iff by metis

lemma emits_ret [emits_rules]: "emits P (ret x)"
  by (simp add: emits_def)

lemma emits_raise [emits_rules]: "emits P (raise e)"
  by (simp add: emits_def)

lemma emits_liftR [emits_rules]: "emits P (liftR r)"
  by (simp add: emits_def liftR_def)

lemma emits_gets [emits_rules]: "emits P (gets f)"
  by (simp add: emits_def)

lemma emits_modify [emits_rules]:
  "(\<And>w. kern (f w) = kern w) \<Longrightarrow> (\<And>w. trace (f w) = trace w) \<Longrightarrow> emits P (modify f)"
  by (simp add: emits_def)

lemma emits_libc [emits_rules]: "P c \<Longrightarrow> emits P (libc c)"
  by (simp add: emits_def libc_def)

text \<open>One computation after another.\<close>

lemma emits_after:
  assumes "\<exists>cs. kern w' = kern w \<and> trace w' = trace w @ cs \<and> list_all P cs" and "emits P n"
  shows "\<exists>cs. kern (snd (n w')) = kern w \<and> trace (snd (n w')) = trace w @ cs \<and> list_all P cs"
proof -
  from assms(1) obtain cs where "kern w' = kern w" "trace w' = trace w @ cs" "list_all P cs" by blast
  moreover from assms(2) obtain ds where "kern (snd (n w')) = kern w'"
      "trace (snd (n w')) = trace w' @ ds" "list_all P ds"
    unfolding emits_def by blast
  ultimately show ?thesis by (intro exI [of _ "cs @ ds"]) simp
qed

lemma emits_bindM [emits_rules]:
  assumes "emits P m" "\<And>x. emits P (f x)"
  shows "emits P (bindM m f)"
proof (rule emitsI)
  fix w
  obtain r w' where m: "m w = (r, w')" by force
  note step = emits_at [OF assms(1) m]
  from m step emits_after [OF step assms(2)]
  show "\<exists>cs. kern (snd (bindM m f w)) = kern w \<and> trace (snd (bindM m f w)) = trace w @ cs \<and> list_all P cs"
    by (cases r) (simp_all add: bindM_apply)
qed

lemma emits_seqM [emits_rules]: "emits P m \<Longrightarrow> emits P k \<Longrightarrow> emits P (seqM m k)"
  by (simp add: seqM_def emits_bindM)

lemma emits_tryM [emits_rules]:
  assumes "emits P m" "\<And>e. emits P (h e)"
  shows "emits P (tryM p m h)"
proof (rule emitsI)
  fix w
  obtain r w' where m: "m w = (r, w')" by force
  note step = emits_at [OF assms(1) m]
  from m step emits_after [OF step assms(2)]
  show "\<exists>cs. kern (snd (tryM p m h w)) = kern w \<and> trace (snd (tryM p m h w)) = trace w @ cs \<and> list_all P cs"
    by (cases r) (simp_all add: tryM_apply)
qed

lemma emits_finallyM [emits_rules]:
  assumes "emits P m" "emits P fin"
  shows "emits P (finallyM m fin)"
proof (rule emitsI)
  fix w
  obtain r w' where m: "m w = (r, w')" by force
  obtain r' w'' where f: "fin w' = (r', w'')" by force
  note step = emits_at [OF assms(1) m]
  from m f step emits_after [OF step assms(2)]
  show "\<exists>cs. kern (snd (finallyM m fin w)) = kern w \<and> trace (snd (finallyM m fin w)) = trace w @ cs \<and>
      list_all P cs"
    by (cases r') (simp_all add: finallyM_apply)
qed

lemma emits_whenM [emits_rules]: "emits P m \<Longrightarrow> emits P (whenM b m)"
  by (simp add: whenM_def emits_ret)

lemma emits_forM [emits_rules]: "(\<And>x. emits P (f x)) \<Longrightarrow> emits P (forM xs f)"
  by (induction xs) (auto intro: emits_ret emits_seqM)

lemma emits_if [emits_rules]: "emits P m \<Longrightarrow> emits P k \<Longrightarrow> emits P (if b then m else k)"
  by simp

lemma emits_case_option [emits_rules]:
  "emits P m \<Longrightarrow> (\<And>x. emits P (k x)) \<Longrightarrow> emits P (case x of None \<Rightarrow> m | Some y \<Rightarrow> k y)"
  by (simp split: option.split)

lemma emits_case_sum [emits_rules]:
  "(\<And>x. emits P (m x)) \<Longrightarrow> (\<And>x. emits P (k x)) \<Longrightarrow> emits P (case x of Inl y \<Rightarrow> m y | Inr y \<Rightarrow> k y)"
  by (simp split: sum.split)

lemma emits_case_prod [emits_rules]:
  "(\<And>x y. emits P (m x y)) \<Longrightarrow> emits P (case p of (x, y) \<Rightarrow> m x y)"
  by (simp split: prod.split)

lemma emits_case_list [emits_rules]:
  "emits P m \<Longrightarrow> (\<And>x xs. emits P (k x xs)) \<Longrightarrow> emits P (case l of [] \<Rightarrow> m | x # xs \<Rightarrow> k x xs)"
  by (simp split: list.split)

lemma emits_case_json [emits_rules]:
  "emits P a \<Longrightarrow> (\<And>x. emits P (b x)) \<Longrightarrow> (\<And>x. emits P (c x)) \<Longrightarrow> (\<And>x. emits P (d x)) \<Longrightarrow>
   (\<And>x. emits P (e x)) \<Longrightarrow> (\<And>x. emits P (f x)) \<Longrightarrow>
   emits P (case j of JNull \<Rightarrow> a | JBool x \<Rightarrow> b x | JInt x \<Rightarrow> c x | JStr x \<Rightarrow> d x | JList x \<Rightarrow> e x | JObj x \<Rightarrow> f x)"
  by (simp split: json.split)

lemma keeps_case_json [keeps_rules]:
  "keeps I a \<Longrightarrow> (\<And>x. keeps I (b x)) \<Longrightarrow> (\<And>x. keeps I (c x)) \<Longrightarrow> (\<And>x. keeps I (d x)) \<Longrightarrow>
   (\<And>x. keeps I (e x)) \<Longrightarrow> (\<And>x. keeps I (f x)) \<Longrightarrow>
   keeps I (case j of JNull \<Rightarrow> a | JBool x \<Rightarrow> b x | JInt x \<Rightarrow> c x | JStr x \<Rightarrow> d x | JList x \<Rightarrow> e x | JObj x \<Rightarrow> f x)"
  by (simp split: json.split)

lemma emits_pycall [emits_rules]: "P c \<Longrightarrow> emits P (pycall c)"
  unfolding pycall_def by (intro emits_rules)

lemma emits_do_call [emits_rules]: "P c \<Longrightarrow> emits P (do_call c)"
  unfolding do_call_def by (intro emits_rules)

lemma libc_apply [comp_simps]:
  "libc c w = (Inr (kern w (trace w) c), w\<lparr>trace := trace w @ [c]\<rparr>)"
  by (simp add: libc_def)

lemma pycall_apply [comp_simps]:
  "pycall c w = (case raises (kern w (trace w) c) of Some e \<Rightarrow> Inl e | None \<Rightarrow> Inr (kern w (trace w) c),
     w\<lparr>trace := trace w @ [c]\<rparr>)"
  by (simp add: pycall_def libc_def bindM_def split: option.splits)

lemma do_call_apply [comp_simps]:
  "do_call c w = (case raises (kern w (trace w) c) of Some e \<Rightarrow> Inl e | None \<Rightarrow> Inr (),
     w\<lparr>trace := trace w @ [c]\<rparr>)"
  by (simp add: do_call_def seqM_apply pycall_apply split: option.splits)

text \<open>A step of the environment alone keeps whatever does not speak of the trace.\<close>

named_theorems keeps_calls \<open>calls keep what does not speak of the trace\<close>

lemma keeps_libc [keeps_calls]: "(\<And>w t. I (w\<lparr>trace := t\<rparr>) = I w) \<Longrightarrow> keeps I (libc c)"
  by (simp add: keeps_def libc_def)

lemma keeps_pycall [keeps_calls]: "(\<And>w t. I (w\<lparr>trace := t\<rparr>) = I w) \<Longrightarrow> keeps I (pycall c)"
  by (simp add: keeps_def pycall_apply)

lemma keeps_do_call [keeps_calls]: "(\<And>w t. I (w\<lparr>trace := t\<rparr>) = I w) \<Longrightarrow> keeps I (do_call c)"
  by (simp add: keeps_def do_call_apply)

text \<open>Calls raise nothing where the environment raises nothing.\<close>

definition quiet :: "'x world_scheme \<Rightarrow> bool" where
  "quiet w \<longleftrightarrow> (\<forall>t c. raises (kern w t c) = None)"

lemma quietD [simp]: "quiet w \<Longrightarrow> raises (kern w t c) = None"
  by (simp add: quiet_def)

lemma quiet_trace [simp]: "quiet (w\<lparr>trace := t\<rparr>) = quiet w"
  by (simp add: quiet_def del: quietD)

named_theorems quiet_rules \<open>calls of an environment that raises nothing\<close>

lemma safe_libc [quiet_rules]: "(\<And>w t. I w \<Longrightarrow> I (w\<lparr>trace := t\<rparr>)) \<Longrightarrow> safe p I (libc c)"
  by (simp add: safe_def libc_def)

lemma safe_pycall [quiet_rules]:
  "(\<And>w t. I w \<Longrightarrow> I (w\<lparr>trace := t\<rparr>)) \<Longrightarrow> (\<And>w. I w \<Longrightarrow> quiet w) \<Longrightarrow> safe p I (pycall c)"
  by (simp add: safe_def pycall_apply)

lemma safe_do_call [quiet_rules]:
  "(\<And>w t. I w \<Longrightarrow> I (w\<lparr>trace := t\<rparr>)) \<Longrightarrow> (\<And>w. I w \<Longrightarrow> quiet w) \<Longrightarrow> safe p I (do_call c)"
  by (simp add: safe_def do_call_apply)

text \<open>The calls of a computation that goes on from where another one stopped.\<close>

lemma calls_after:
  assumes "m' w = m w1" "trace w1 = trace w @ cs" "emits P m"
  shows "calls m' w = cs @ calls m w1"
proof -
  obtain ds where "trace (snd (m w1)) = trace w1 @ ds" using assms(3) unfolding emits_def by blast
  with assms(1,2) show ?thesis by (simp add: calls_def)
qed

lemma calls_bindM:
  assumes "emits P m" "\<And>x. emits Q (f x)"
  shows "calls (bindM m f) w = calls m w @
    (case m w of (Inl e, w1) \<Rightarrow> [] | (Inr x, w1) \<Rightarrow> calls (f x) w1)"
proof (cases "m w")
  case (Pair r w1)
  then have t: "trace w1 = trace w @ calls m w" using emitsD [OF assms(1), of w] by simp
  show ?thesis
  proof (cases r)
    case (Inl e)
    with Pair show ?thesis by (simp add: calls_def bindM_apply)
  next
    case (Inr x)
    with Pair have "bindM m f w = f x w1" by (simp add: bindM_apply)
    from calls_after [of "bindM m f", OF this t assms(2)] Pair Inr show ?thesis by simp
  qed
qed

lemma calls_seqM:
  assumes "emits P m" "emits Q k"
  shows "calls (seqM m k) w = calls m w @
    (case m w of (Inl e, w1) \<Rightarrow> [] | (Inr x, w1) \<Rightarrow> calls k w1)"
  using calls_bindM [OF assms(1), of Q "\<lambda>_. k"] assms(2) by (simp add: seqM_def)

text \<open>A call that the first part never makes comes from the second, which then runs.\<close>

lemma call_from_second:
  assumes "emits P m" "\<And>x. emits Q (f x)" "c \<in> set (calls (bindM m f) w)" "\<not> P c"
  shows "\<exists>x w1. m w = (Inr x, w1) \<and> c \<in> set (calls (f x) w1) \<and>
    calls (bindM m f) w = calls m w @ calls (f x) w1 \<and>
    trace w1 = trace w @ calls m w \<and> kern w1 = kern w"
proof (cases "m w")
  case (Pair r w1)
  have no: "c \<notin> set (calls m w)" using emits_calls [OF assms(1)] assms(4) by blast
  have eq: "calls (bindM m f) w = calls m w @
      (case m w of (Inl e, w1) \<Rightarrow> [] | (Inr x, w1) \<Rightarrow> calls (f x) w1)"
    by (rule calls_bindM [OF assms(1,2)])
  show ?thesis
  proof (cases r)
    case (Inl e)
    with eq no Pair assms(3) show ?thesis by simp
  next
    case (Inr x)
    with eq no Pair assms(3) emitsD [OF assms(1), of w] emits_kern [OF assms(1), of w]
    show ?thesis by (intro exI [of _ x] exI [of _ w1]) auto
  qed
qed

lemma call_from_seqM:
  assumes "emits P m" "emits Q k" "c \<in> set (calls (seqM m k) w)" "\<not> P c"
  shows "\<exists>x w1. m w = (Inr x, w1) \<and> c \<in> set (calls k w1) \<and>
    calls (seqM m k) w = calls m w @ calls k w1 \<and> trace w1 = trace w @ calls m w \<and> kern w1 = kern w"
  using call_from_second [OF assms(1), of Q "\<lambda>_. k" c w] assms(2-4) by (simp add: seqM_def)

lemma emits_bind_liftR:
  "(\<And>x. r = Inr x \<Longrightarrow> emits P (f x)) \<Longrightarrow> emits P (bindM (liftR r) f)"
  by (cases r) (auto simp: emits_raise)

lemma emits_forM_set: "(\<And>x. x \<in> set xs \<Longrightarrow> emits P (f x)) \<Longrightarrow> emits P (forM xs f)"
  by (induction xs) (auto intro: emits_ret emits_seqM)

text \<open>A call once made stays in the trace.\<close>

lemma keeps_called: "appends m \<Longrightarrow> keeps (\<lambda>w. n \<le> length (trace w) \<and> c \<in> set (drop n (trace w))) m"
  by (rule keepsI) (auto simp: emitsD)

end
