(* ===== verification/Wrappers.thy ===== *)
theory Wrappers
  imports Kernel
begin

text \<open>
  \<open>app2/wrappers.py\<close> and \<open>app2/rctl.py\<close>: the arrays of key and value given to \<open>jail_set\<close> and
  \<open>nmount\<close>, and the thin functions around libc.  Text is its bytes.
\<close>

section \<open>Structures and flags\<close>

text \<open>The structures of \<open>wrappers.py\<close>; its socket address has no length byte.\<close>

definition iovec_t :: ctype where
  "iovec_t = CStruct [(''iov_base'', c_ptr), (''iov_len'', c_ulong)]"

definition w_in_addr_t :: ctype where
  "w_in_addr_t = CStruct [(''s_addr'', c_uint32)]"

definition w_sockaddr_t :: ctype where
  "w_sockaddr_t = CStruct [(''sa_family'', c_uint16), (''sa_data'', CArray 14 c_char)]"

definition w_ifaddrs_t :: ctype where
  "w_ifaddrs_t = CStruct [(''ifa_next'', c_ptr), (''ifa_name'', c_ptr), (''ifa_flags'', c_uint32),
     (''ifa_addr'', c_ptr), (''ifa_netmask'', c_ptr), (''ifa_dstaddr'', c_ptr), (''ifa_data'', c_ptr)]"

text \<open>The flags of \<open>rfork\<close>, as \<open>JailManager_.py\<close> has them.\<close>

definition rfork_bits :: "(string \<times> int) list" where
  "rfork_bits =
     [(''RFNAMEG'', 2 ^ 0), (''RFENVG'', 2 ^ 1), (''RFFDG'', 2 ^ 2), (''RFNOTEG'', 2 ^ 3), (''RFPROC'', 2 ^ 4),
      (''RFMEM'', 2 ^ 5), (''RFNOWAIT'', 2 ^ 6), (''RFCNAMEG'', 2 ^ 10), (''RFCENVG'', 2 ^ 11), (''RFCFDG'', 2 ^ 12),
      (''RFTHREAD'', 2 ^ 13), (''RFSIGSHARE'', 2 ^ 14), (''RFLINUXTHPN'', 2 ^ 16), (''RFSTOPPED'', 2 ^ 17),
      (''RFHIGHPID'', 2 ^ 18), (''RFTSIGZMB'', 2 ^ 19), (''RFTSIGSHIFT'', 20), (''RFTSIGMASK'', 0xFF),
      (''RFPROCDESC'', 2 ^ 28), (''RFPPWAIT'', 2 ^ 31), (''RFSPAWN'', 2 ^ 31)]"

definition rflag :: "string \<Rightarrow> int" where
  "rflag name = the (map_of rfork_bits name)"

text \<open>What \<open>addr_iovec\<close> and \<open>get_interface_names_wrapper\<close> hand over has the size the kernel goes by.\<close>

lemma wrapper_sizes: "sizeof iovec_t = 16" "sizeof w_in_addr_t = 4" "sizeof w_sockaddr_t = 16"
  "sizeof w_ifaddrs_t = 56" "sizeof ifaddrs_t = sizeof w_ifaddrs_t"
  by code_simp+

section \<open>Iovecs\<close>

definition cstr :: "string \<Rightarrow> iovec" where
  "cstr s = IovBytes (s @ [CHR 0x00])"

fun iov_len :: "iovec \<Rightarrow> nat" where
  "iov_len (IovBytes s) = length s"
| "iov_len (IovCInt n) = 4"
| "iov_len (IovAddrs as) = 4 * length as"
| "iov_len IovNull = 0"
| "iov_len (IovBuffer n) = n"

definition str_iovec :: "string \<Rightarrow> string \<Rightarrow> iovec list" where
  "str_iovec key val = [cstr key, cstr val]"

definition int_iovec :: "string \<Rightarrow> int \<Rightarrow> iovec list" where
  "int_iovec key val = [cstr key, IovCInt (word_of_int val)]"

definition empty_iovec :: "string \<Rightarrow> iovec list" where
  "empty_iovec key = [cstr key, IovNull]"

definition errmsg_iovec :: "iovec list" where
  "errmsg_iovec = [cstr ''errmsg'', IovBuffer 256]"

text \<open>Addresses that \<open>inet_aton\<close> does not know are printed and left out; an item that is no text has
  no \<open>encode\<close>.\<close>

fun convert_addrs :: "json list \<Rightarrow> ('x world_scheme, ipv4 list) comp" where
  "convert_addrs [] = ret []"
| "convert_addrs (ip # ips) =
     (case ip of
        JStr s \<Rightarrow> bindM (libc (JailC (Inet_aton s))) (\<lambda>r.
          bindM (convert_addrs ips) (\<lambda>as. ret (if rv r \<noteq> 0 then raddr r # as else as)))
      | _ \<Rightarrow> raise AttributeError)"

definition addr_iovec :: "json list \<Rightarrow> ('x world_scheme, iovec list) comp" where
  "addr_iovec ips = bindM (convert_addrs ips) (\<lambda>as. ret [cstr ''ip4.addr'', IovAddrs as])"

section \<open>Jails\<close>

definition jail_set_wrapper :: "iovec list \<Rightarrow> int \<Rightarrow> ('x world_scheme, int) comp" where
  "jail_set_wrapper iovs flags = bindM (libc (JailC (Jail_set iovs flags))) (\<lambda>r. ret (rv r))"

definition jail_remove_wrapper :: "int \<Rightarrow> ('x world_scheme, int) comp" where
  "jail_remove_wrapper jid = bindM (libc (JailC (Jail_remove jid))) (\<lambda>r. ret (rv r))"

definition jail_attach_wrapper :: "int \<Rightarrow> ('x world_scheme, int) comp" where
  "jail_attach_wrapper jid = bindM (libc (JailC (Jail_attach jid))) (\<lambda>r. ret (rv r))"

definition get_jail_id_by_name :: "string \<Rightarrow> ('x world_scheme, int) comp" where
  "get_jail_id_by_name name =
     bindM (libc (JailC (Jail_get (str_iovec ''name'' name) 0))) (\<lambda>r. ret (rv r))"

definition rfork_wrapper :: "int \<Rightarrow> ('x world_scheme, int) comp" where
  "rfork_wrapper flags = bindM (libc (ProcC (Rfork flags))) (\<lambda>r. ret (rv r))"

definition set_proc_title_wrapper :: "string \<Rightarrow> ('x world_scheme, unit) comp" where
  "set_proc_title_wrapper title = seqM (libc (JailC (Setproctitle title))) (ret ())"

definition get_interface_names_wrapper :: "('x world_scheme, string list) comp" where
  "get_interface_names_wrapper = bindM (libc (NetC Getifaddrs)) (\<lambda>r.
     if rv r \<noteq> 0 then raise (OSError 100) else ret (sort (remdups (rnames r))))"

section \<open>Mounts\<close>

definition nmount :: "iovec list \<Rightarrow> int \<Rightarrow> ('x world_scheme, int) comp" where
  "nmount iovs flags = bindM (libc (JailC (Nmount iovs flags))) (\<lambda>r. ret (rv r))"

definition mount_devfs :: "string \<Rightarrow> json \<Rightarrow> ('x world_scheme, int) comp" where
  "mount_devfs path ruleset =
     nmount (str_iovec ''fstype'' ''devfs'' @ str_iovec ''fspath'' path @
             str_iovec ''ruleset'' (py_str ruleset)) 0"

definition mount_fdescfs :: "string \<Rightarrow> ('x world_scheme, int) comp" where
  "mount_fdescfs path = nmount (str_iovec ''fstype'' ''fdescfs'' @ str_iovec ''fspath'' path) 0"

definition mount_tmpfs :: "string \<Rightarrow> ('x world_scheme, int) comp" where
  "mount_tmpfs path = nmount (str_iovec ''fstype'' ''tmpfs'' @ str_iovec ''fspath'' path) 0"

definition mount_nullfs :: "string \<Rightarrow> string \<Rightarrow> int \<Rightarrow> ('x world_scheme, int) comp" where
  "mount_nullfs path from_path flags =
     nmount (str_iovec ''fstype'' ''nullfs'' @ str_iovec ''fspath'' path @ str_iovec ''from'' from_path)
       flags"

definition mount_unionfs :: "string \<Rightarrow> string \<Rightarrow> int \<Rightarrow> ('x world_scheme, int) comp" where
  "mount_unionfs image_root container_root flags =
     nmount (str_iovec ''fstype'' ''unionfs'' @ str_iovec ''fspath'' container_root @
             str_iovec ''from'' image_root @ int_iovec ''below'' 1 @ int_iovec ''noatime'' 1 @
             str_iovec ''copymode'' ''transparent'' @ str_iovec ''whiteout'' ''whenneeded'') flags"

definition unmount :: "string \<Rightarrow> ('x world_scheme, unit) comp" where
  "unmount path = bindM (libc (JailC (Unmount path))) (\<lambda>r.
     if rv r \<noteq> 0 then raise (OSError (rerrno r)) else ret ())"

section \<open>Resource limits\<close>

text \<open>The text in a C buffer ends at the first NUL byte.\<close>

definition c_value :: "string \<Rightarrow> string" where
  "c_value s = takeWhile (\<lambda>c. c \<noteq> CHR 0x00) s"

definition rctl_call :: "string \<Rightarrow> string \<Rightarrow> nat \<Rightarrow> ('x world_scheme, string) comp" where
  "rctl_call fn inbuf outbuflen = bindM (libc (JailC (Rctl fn inbuf outbuflen))) (\<lambda>r.
     if rv r \<noteq> 0 then raise (OSError (rerrno r)) else ret (c_value (rtext r)))"

definition rctl_get_rules :: "string \<Rightarrow> nat \<Rightarrow> ('x world_scheme, string) comp" where
  "rctl_get_rules subject outbuflen = rctl_call ''rctl_get_rules'' subject outbuflen"

definition rctl_add_rule :: "string \<Rightarrow> nat \<Rightarrow> ('x world_scheme, string) comp" where
  "rctl_add_rule rule outbuflen = rctl_call ''rctl_add_rule'' rule outbuflen"

definition rctl_get_limits :: "string \<Rightarrow> nat \<Rightarrow> ('x world_scheme, string) comp" where
  "rctl_get_limits name outbuflen = rctl_call ''rctl_get_limits'' name outbuflen"

definition rctl_get_racct :: "string \<Rightarrow> nat \<Rightarrow> ('x world_scheme, string list) comp" where
  "rctl_get_racct name outbuflen =
     bindM (rctl_call ''rctl_get_racct'' name outbuflen) (\<lambda>s. ret (splitc CHR '','' s))"

definition rctl_remove_rule :: "string \<Rightarrow> nat \<Rightarrow> ('x world_scheme, string) comp" where
  "rctl_remove_rule rule outbuflen = rctl_call ''rctl_remove_rule'' rule outbuflen"

section \<open>They only append to the trace\<close>

lemmas wrapper_defs = jail_set_wrapper_def jail_remove_wrapper_def jail_attach_wrapper_def
  get_jail_id_by_name_def rfork_wrapper_def set_proc_title_wrapper_def get_interface_names_wrapper_def
  nmount_def mount_devfs_def mount_fdescfs_def mount_tmpfs_def mount_nullfs_def mount_unionfs_def
  unmount_def rctl_call_def rctl_get_rules_def rctl_add_rule_def rctl_get_limits_def
  rctl_get_racct_def rctl_remove_rule_def

lemma appends_convert_addrs [emits_rules]: "appends (convert_addrs ips)"
proof (induction ips)
  case (Cons ip ips)
  then show ?case unfolding convert_addrs.simps by (intro emits_rules)
qed (simp only: convert_addrs.simps emits_ret)

lemma appends_addr_iovec [emits_rules]: "appends (addr_iovec ips)"
  unfolding addr_iovec_def by (intro emits_rules)

lemma appends_wrappers [emits_rules]:
  "appends (jail_set_wrapper iovs flags)" "appends (jail_remove_wrapper jid)"
  "appends (jail_attach_wrapper jid)" "appends (get_jail_id_by_name name)"
  "appends (rfork_wrapper flags)" "appends (set_proc_title_wrapper name)"
  "appends get_interface_names_wrapper"
  "appends (mount_devfs path ruleset)" "appends (mount_fdescfs path)" "appends (mount_tmpfs path)"
  "appends (mount_nullfs path from_path flags)" "appends (mount_unionfs path from_path flags)"
  "appends (unmount path)" "appends (rctl_get_rules s n)" "appends (rctl_add_rule s n)"
  "appends (rctl_get_limits s n)" "appends (rctl_get_racct s n)" "appends (rctl_remove_rule s n)"
  unfolding wrapper_defs by (intro emits_rules)+

text \<open>The wrappers of a single call, evaluated.\<close>

lemma wrapper_apply [comp_simps]:
  "jail_set_wrapper iovs flags w =
     (Inr (rv (kern w (trace w) (JailC (Jail_set iovs flags)))),
      w\<lparr>trace := trace w @ [JailC (Jail_set iovs flags)]\<rparr>)"
  "jail_remove_wrapper jid w =
     (Inr (rv (kern w (trace w) (JailC (Jail_remove jid)))),
      w\<lparr>trace := trace w @ [JailC (Jail_remove jid)]\<rparr>)"
  "jail_attach_wrapper jid w =
     (Inr (rv (kern w (trace w) (JailC (Jail_attach jid)))),
      w\<lparr>trace := trace w @ [JailC (Jail_attach jid)]\<rparr>)"
  "get_jail_id_by_name name w =
     (Inr (rv (kern w (trace w) (JailC (Jail_get (str_iovec ''name'' name) 0)))),
      w\<lparr>trace := trace w @ [JailC (Jail_get (str_iovec ''name'' name) 0)]\<rparr>)"
  "rfork_wrapper rflags w =
     (Inr (rv (kern w (trace w) (ProcC (Rfork rflags)))),
      w\<lparr>trace := trace w @ [ProcC (Rfork rflags)]\<rparr>)"
  "nmount iovs flags w =
     (Inr (rv (kern w (trace w) (JailC (Nmount iovs flags)))),
      w\<lparr>trace := trace w @ [JailC (Nmount iovs flags)]\<rparr>)"
  by (simp_all add: wrapper_defs comp_simps)

end
