(* ===== verification/Dataset.thy ===== *)
theory Dataset
  imports Wrappers
begin

text \<open>
  \<open>app2/zfs/dataset.py\<close> and \<open>app2/ufs/dataset.py\<close>: the file-system trees of images and containers.
  The manager takes one of the two modules by the configured driver.  libzfs is foreign code: its
  objects are the names of their datasets, and its exception is \<open>ZFSException\<close>.
\<close>

datatype driver = ZFS | UFS

definition ZFSException :: exn where
  "ZFSException = GenericException ''ZFSException''"

section \<open>ZFS\<close>

text \<open>A dataset is answered with its mountpoint in \<open>rtext\<close>.\<close>

definition zfs_get_dataset :: "string \<Rightarrow> ('x world_scheme, sysret option) comp" where
  "zfs_get_dataset name =
     tryM (\<lambda>e. e = ZFSException) (bindM (pycall (ZfsC (ZfsGet name))) (\<lambda>r. ret (Some r))) (\<lambda>e. ret None)"

definition get_dataset_snapshot :: "string \<Rightarrow> string \<Rightarrow> ('x world_scheme, string option) comp" where
  "get_dataset_snapshot ds snapshot_name = bindM (pycall (ZfsC (ZfsSnapshots ds))) (\<lambda>r.
     ret (find (\<lambda>s. s = snapshot_name) (rnames r)))"

definition zfs_clone_dataset ::
  "string \<Rightarrow> string \<Rightarrow> string \<Rightarrow> string \<Rightarrow> ('x world_scheme, int) comp" where
  "zfs_clone_dataset ds snapshot_name target mountpoint =
     bindM (get_dataset_snapshot ds snapshot_name) (\<lambda>snapshot.
     case snapshot of
       None \<Rightarrow> ret (- 1)
     | Some s \<Rightarrow>
         tryM is_Exception
           (seqM (do_call (ZfsC (ZfsClone ds s target)))
           (if mountpoint = [] then ret 0
            else bindM (zfs_get_dataset target) (\<lambda>d.
              case d of
                None \<Rightarrow> raise AttributeError
              | Some _ \<Rightarrow> seqM (do_call (ZfsC (ZfsSetMountpoint target mountpoint))) (ret 0))))
           (\<lambda>e. ret (- 1)))"

definition zfs_delete_dataset :: "string \<Rightarrow> ('x world_scheme, int \<times> string option) comp" where
  "zfs_delete_dataset ds_path =
     bindM (zfs_get_dataset ds_path) (\<lambda>d.
     case d of
       None \<Rightarrow> ret (- 1, Some ''Dataset doesn't exist'')
     | Some r \<Rightarrow>
         seqM (whenM (rtext r \<noteq> []) (do_call (ZfsC (ZfsUmount ds_path))))
         (tryM is_Exception (seqM (do_call (ZfsC (ZfsDelete ds_path))) (ret (0, None)))
           (\<lambda>e. ret (- 1, Some ''Failed to destroy dataset''))))"

section \<open>UFS\<close>

text \<open>\<open>Path.exists\<close> is called with an argument it does not take.\<close>

definition ufs_get_dataset :: "string \<Rightarrow> ('x world_scheme, sysret option) comp" where
  "ufs_get_dataset name = raise TypeError"

definition ufs_clone_dataset ::
  "string \<Rightarrow> string \<Rightarrow> string \<Rightarrow> string \<Rightarrow> ('x world_scheme, int) comp" where
  "ufs_clone_dataset ds snapshot_name target mountpoint =
     seqM (do_call (FsC (Makedirs mountpoint))) (seqM (do_call (FsC (Chown mountpoint))) (ret 0))"

definition ufs_delete_dataset :: "string \<Rightarrow> ('x world_scheme, int \<times> string option) comp" where
  "ufs_delete_dataset ds_path =
     bindM (pycall (FsC (PathExists ds_path))) (\<lambda>r.
     if rv r = 0 then ret (- 1, Some ''Dataset doesn't exist'')
     else bindM (pycall (FsC (PathIsmount ds_path))) (\<lambda>r.
       seqM (whenM (rv r \<noteq> 0) (unmount ds_path))
       (tryM is_Exception (seqM (do_call (FsC (Rmtree ds_path))) (ret (0, None)))
         (\<lambda>e. ret (- 1, Some ''Failed to destroy dataset'')))))"

section \<open>The driver in use\<close>

definition CONTAINER_ROOT :: "driver \<Rightarrow> string" where
  "CONTAINER_ROOT d = (case d of ZFS \<Rightarrow> ''zroot/jails/containers'' | UFS \<Rightarrow> ''/jails/containers'')"

definition IMAGE_ROOT :: "driver \<Rightarrow> string" where
  "IMAGE_ROOT d = (case d of ZFS \<Rightarrow> ''zroot/jails/images'' | UFS \<Rightarrow> ''/jails/images'')"

definition get_dataset :: "driver \<Rightarrow> string \<Rightarrow> ('x world_scheme, sysret option) comp" where
  "get_dataset d = (case d of ZFS \<Rightarrow> zfs_get_dataset | UFS \<Rightarrow> ufs_get_dataset)"

definition clone_dataset ::
  "driver \<Rightarrow> string \<Rightarrow> string \<Rightarrow> string \<Rightarrow> string \<Rightarrow> ('x world_scheme, int) comp" where
  "clone_dataset d = (case d of ZFS \<Rightarrow> zfs_clone_dataset | UFS \<Rightarrow> ufs_clone_dataset)"

lemmas dataset_defs = zfs_get_dataset_def get_dataset_snapshot_def zfs_clone_dataset_def
  zfs_delete_dataset_def ufs_get_dataset_def ufs_clone_dataset_def ufs_delete_dataset_def

lemma emits_case_driver [emits_rules]:
  "emits P m \<Longrightarrow> emits P k \<Longrightarrow> emits P (case d of ZFS \<Rightarrow> m | UFS \<Rightarrow> k)"
  by (cases d) auto

lemma appends_dataset [emits_rules]:
  "appends (get_dataset d s)" "appends (clone_dataset d s s' s'' s''')"
  unfolding get_dataset_def clone_dataset_def
  by (cases d; simp; unfold dataset_defs; intro emits_rules)+

text \<open>They touch nothing but the environment.\<close>

lemma keeps_dataset:
  assumes "\<And>w t. I (w\<lparr>trace := t\<rparr>) = I w"
  shows "keeps I (get_dataset d s)" and "keeps I (clone_dataset d s s' s'' s''')"
  unfolding get_dataset_def clone_dataset_def
  by (cases d; simp; unfold dataset_defs; intro keeps_rules keeps_calls; simp add: assms)+

end
