(* ===== verification/NetIf.thy ===== *)
theory NetIf
  imports Wrappers
begin

text \<open>
  \<open>app2/lib/methods.py\<close> and \<open>app2/route/route.py\<close>: network interfaces through \<open>ioctl\<close>.  The
  optional argument \<open>sock\<close> is the flag \<open>own\<close>: a function called without a socket opens one of its
  own and closes it.  A field \<open>c_char * n\<close> rejects longer text with ValueError.
\<close>

section \<open>Sockets and fields\<close>

definition open_sock :: "bool \<Rightarrow> ('x world_scheme, unit) comp" where
  "open_sock own = whenM own (do_call (NetC Socket))"

definition close_sock :: "bool \<Rightarrow> ('x world_scheme, unit) comp" where
  "close_sock own = whenM own (do_call (NetC CloseSocket))"

definition c_chars :: "nat \<Rightarrow> string \<Rightarrow> string res" where
  "c_chars n s = (if length s \<le> n then Inr s else Inl ValueError)"

definition ioctl :: "int \<Rightarrow> ioctl_arg \<Rightarrow> ('x world_scheme, sysret) comp" where
  "ioctl req arg = libc (NetC (Ioctl req arg))"

definition inet_pton :: "string \<Rightarrow> ipv4 res" where
  "inet_pton s = (case ip_of_str s of Inr a \<Rightarrow> Inr a | Inl _ \<Rightarrow> Inl (OSError 0))"

text \<open>One request on a socket, raising with the errno when it does not return 0.\<close>

definition ioctl_closing :: "bool \<Rightarrow> int \<Rightarrow> ioctl_arg \<Rightarrow> ('x world_scheme, sysret) comp" where
  "ioctl_closing own req arg =
     seqM (open_sock own) (bindM (ioctl req arg) (\<lambda>r. seqM (close_sock own) (ret r)))"

definition check_zero :: "sysret \<Rightarrow> ('x world_scheme, unit) comp" where
  "check_zero r = (if rv r \<noteq> 0 then raise (OSError (rerrno r)) else ret ())"

section \<open>Interfaces\<close>

definition get_interface_names :: "('x world_scheme, string list) comp" where
  "get_interface_names = bindM (libc (NetC Getifaddrs)) (\<lambda>r.
     seqM (check_zero r) (ret (sort (remdups (rnames r)))))"

definition get_if_index :: "string \<Rightarrow> bool \<Rightarrow> ('x world_scheme, int) comp" where
  "get_if_index intf own =
     bindM (liftR (c_chars IFNAMSIZ intf)) (\<lambda>name.
     bindM (ioctl_closing own SIOCGIFINDEX (IfreqArg name IfruNone)) (\<lambda>r.
     ret (if rv r \<noteq> 0 then - 1 else sint (rflag0 r))))"

definition get_interface_groups :: "string \<Rightarrow> bool \<Rightarrow> ('x world_scheme, string list) comp" where
  "get_interface_groups intf own =
     bindM (liftR (c_chars IFNAMSIZ intf)) (\<lambda>name.
     bindM (ioctl_closing own SIOCGIFGROUP (IfgroupGet name (8 * sizeof ifg_req_t))) (\<lambda>r.
     seqM (check_zero r)
       (let group_count = unat (raddr r) div sizeof ifg_req_t in
        if 8 < group_count then raise IndexError
        else ret (filter (\<lambda>g. g \<noteq> []) (map c_value (take group_count (rnames r)))))))"

definition set_interface_group :: "string \<Rightarrow> string \<Rightarrow> bool \<Rightarrow> ('x world_scheme, int option) comp" where
  "set_interface_group intf group_name own =
     (if intf = [] then ret (Some (- 1))
      else if group_name = [] then ret (Some (- 1))
      else bindM (liftR (c_chars IFNAMSIZ intf)) (\<lambda>name.
           bindM (liftR (c_chars IFNAMSIZ group_name)) (\<lambda>g.
           bindM (ioctl_closing own SIOCAIFGROUP (IfgroupSet name g)) (\<lambda>r.
           seqM (check_zero r) (ret None)))))"

definition create_interface :: "string \<Rightarrow> bool \<Rightarrow> ('x world_scheme, string) comp" where
  "create_interface base_name own =
     bindM (liftR (c_chars IFNAMSIZ base_name)) (\<lambda>name.
     bindM (ioctl_closing own SIOCIFCREATE2 (IfreqArg name IfruNone)) (\<lambda>r.
     seqM (check_zero r) (ret (c_value (rtext r)))))"

definition destroy_interface :: "string \<Rightarrow> bool \<Rightarrow> ('x world_scheme, unit) comp" where
  "destroy_interface name own =
     bindM (liftR (c_chars IFNAMSIZ name)) (\<lambda>name'.
     bindM (ioctl_closing own SIOCIFDESTROY (IfreqArg name' IfruNone)) check_zero)"

definition rename_interface :: "string \<Rightarrow> string \<Rightarrow> bool \<Rightarrow> ('x world_scheme, unit) comp" where
  "rename_interface name newname own =
     bindM (liftR (c_chars IFNAMSIZ name)) (\<lambda>name'.
     bindM (ioctl_closing own SIOCSIFNAME (IfreqArg name' (IfruData newname))) check_zero)"

definition move_to_jail :: "string \<Rightarrow> int \<Rightarrow> bool \<Rightarrow> ('x world_scheme, unit) comp" where
  "move_to_jail name jid own =
     bindM (liftR (c_chars IFNAMSIZ name)) (\<lambda>name'.
     bindM (ioctl_closing own SIOCSIFVNET (IfreqArg name' (IfruJid (word_of_int jid)))) check_zero)"

definition remove_from_jail :: "string \<Rightarrow> int \<Rightarrow> bool \<Rightarrow> ('x world_scheme, unit) comp" where
  "remove_from_jail name jid own =
     bindM (liftR (c_chars IFNAMSIZ name)) (\<lambda>name'.
     bindM (ioctl_closing own SIOCSIFRVNET (IfreqArg name' (IfruJid (word_of_int jid)))) check_zero)"

section \<open>Flags\<close>

text \<open>The two shorts of \<open>ifru_flags\<close>; the second is signed when it is shifted.\<close>

definition get_if_flags :: "string \<Rightarrow> bool \<Rightarrow> ('x world_scheme, int) comp" where
  "get_if_flags name own =
     bindM (liftR (c_chars IFNAMSIZ name)) (\<lambda>name'.
     bindM (ioctl_closing own SIOCGIFFLAGS (IfreqArg name' IfruNone)) (\<lambda>r.
     if rv r < 0 then raise (OSError (rerrno r))
     else ret ((sint (rflag0 r) AND 0xFFFF) OR push_bit 16 (sint (rflag1 r)))))"

definition write_if_flags :: "string \<Rightarrow> int \<Rightarrow> bool \<Rightarrow> ('x world_scheme, unit) comp" where
  "write_if_flags name flags own =
     bindM (liftR (c_chars IFNAMSIZ name)) (\<lambda>name'.
     bindM (ioctl SIOCSIFFLAGS (IfreqArg name'
        (IfruFlags (word_of_int (flags AND 0xFFFF)) (word_of_int (drop_bit 16 flags AND 0xFFFF))))) (\<lambda>r.
     seqM (close_sock own)
       (if rv r < 0 then raise (OSError (rerrno r)) else ret ())))"

definition set_if_flag :: "string \<Rightarrow> int \<Rightarrow> bool \<Rightarrow> ('x world_scheme, unit) comp" where
  "set_if_flag name flag own =
     seqM (open_sock own)
       (bindM (get_if_flags name False) (\<lambda>flags. write_if_flags name (flags OR flag) own))"

text \<open>\<open>clear_if_flag\<close> declares \<open>sock=True\<close>: called without a socket it takes the number for one.\<close>

datatype sock_arg = NoSock | GivenSock | TrueSock

definition clear_if_flag :: "string \<Rightarrow> int \<Rightarrow> sock_arg \<Rightarrow> ('x world_scheme, unit) comp" where
  "clear_if_flag name flag sock =
     (if sock = TrueSock then
        bindM (liftR (c_chars IFNAMSIZ name)) (\<lambda>_. raise AttributeError)
      else
        seqM (open_sock (sock = NoSock))
          (bindM (get_if_flags name False) (\<lambda>flags.
             write_if_flags name (flags AND NOT flag) (sock = NoSock))))"

section \<open>Bridges, addresses, modules and routes\<close>

definition bridge_if :: "string \<Rightarrow> string \<Rightarrow> bool \<Rightarrow> bool \<Rightarrow> ('x world_scheme, unit) comp" where
  "bridge_if bridge_if_name member_if add own =
     bindM (liftR (c_chars IFNAMSIZ member_if)) (\<lambda>mem.
     bindM (liftR (c_chars IFNAMSIZ bridge_if_name)) (\<lambda>br.
     seqM (open_sock own)
     (bindM (ioctl SIOCSDRVSPEC (IfdrvArg br (if add then BRDGADD else BRDGDEL) (sizeof ifbreq_t) mem)) (\<lambda>r.
     if rv r \<noteq> 0 then seqM (close_sock own) (raise (OSError (rerrno r)))
     else tryM is_OSError
            (seqM (set_if_flag member_if IFF_UP False) (close_sock own))
            (\<lambda>e. seqM (close_sock own) (raise e))))))"

definition set_ip_address ::
  "string \<Rightarrow> string \<Rightarrow> string \<Rightarrow> string option \<Rightarrow> bool \<Rightarrow> ('x world_scheme, unit) comp" where
  "set_ip_address ifname ip_addr net_mask broadcast_addr own =
     bindM (liftR (c_chars IFNAMSIZ ifname)) (\<lambda>name.
     bindM (liftR (inet_pton ip_addr)) (\<lambda>a.
     bindM (liftR (inet_pton net_mask)) (\<lambda>m.
     bindM (case broadcast_addr of
              Some s \<Rightarrow> if s \<noteq> [] then bindM (liftR (inet_pton s)) (\<lambda>b. ret (Some b)) else ret None
            | None \<Rightarrow> ret None) (\<lambda>b.
     seqM (open_sock own)
     (bindM (ioctl SIOCAIFADDR (IfAliasArg name a b m)) (\<lambda>r.
     if rv r \<noteq> 0 then raise (OSError (rerrno r))
     else tryM is_OSError
            (seqM (set_if_flag ifname IFF_UP False) (close_sock own))
            (\<lambda>e. seqM (close_sock own) (raise e))))))))"

definition kldload :: "string \<Rightarrow> ('x world_scheme, int option) comp" where
  "kldload module_name = bindM (libc (JailC (Kldload module_name))) (\<lambda>r.
     if rv r = - 1 then (if rerrno r = 17 then ret None else raise (OSError (rerrno r)))
     else ret (Some (rv r)))"

definition add_route :: "string \<Rightarrow> string \<Rightarrow> string \<Rightarrow> bool \<Rightarrow> ('x world_scheme, unit) comp" where
  "add_route destination nmask gateway own =
     seqM (whenM own (do_call (NetC RouteSocket)))
     (finallyM
       (bindM (libc (NetC (AddRoute destination nmask gateway))) (\<lambda>r.
          if rv r < 0 then raise (OSError (rerrno r)) else ret ()))
       (close_sock own))"

lemmas netif_defs = open_sock_def close_sock_def ioctl_def ioctl_closing_def check_zero_def
  get_interface_names_def get_if_index_def get_interface_groups_def set_interface_group_def
  create_interface_def destroy_interface_def rename_interface_def move_to_jail_def
  remove_from_jail_def get_if_flags_def write_if_flags_def set_if_flag_def clear_if_flag_def
  bridge_if_def set_ip_address_def kldload_def add_route_def

lemma appends_netif [emits_rules]:
  "appends get_interface_names" "appends (get_if_index n own)" "appends (get_interface_groups n own)"
  "appends (set_interface_group n g own)" "appends (create_interface n own)"
  "appends (destroy_interface n own)" "appends (rename_interface n n' own)"
  "appends (move_to_jail n jid own)" "appends (remove_from_jail n jid own)"
  "appends (get_if_flags n own)" "appends (set_if_flag n flag own)" "appends (bridge_if br n add own)"
  "appends (set_ip_address n ip nm bc own)" "appends (kldload n)" "appends (add_route d m g own)"
  unfolding netif_defs Let_def by (intro emits_rules)+

section \<open>Properties\<close>

text \<open>A socket opens and closes without an exception in the environments these properties speak of.\<close>

definition sockets_work :: "'x world_scheme \<Rightarrow> bool" where
  "sockets_work w \<longleftrightarrow> (\<forall>t. raises (kern w t (NetC Socket)) = None \<and>
     raises (kern w t (NetC CloseSocket)) = None)"

definition open_sockets :: "syscall list \<Rightarrow> int" where
  "open_sockets cs = int (length (filter (\<lambda>c. c = NetC Socket) cs)) -
     int (length (filter (\<lambda>c. c = NetC CloseSocket) cs))"

lemma open_sockets_simps [simp]:
  "open_sockets [] = 0"
  "open_sockets (c # cs) =
     (if c = NetC Socket then 1 else if c = NetC CloseSocket then - 1 else 0) + open_sockets cs"
  "open_sockets (cs @ ds) = open_sockets cs + open_sockets ds"
  by (simp_all add: open_sockets_def)

lemma sockets_workD [simp]:
  "sockets_work w \<Longrightarrow> raises (kern w t (NetC Socket)) = None"
  "sockets_work w \<Longrightarrow> raises (kern w t (NetC CloseSocket)) = None"
  by (simp_all add: sockets_work_def)

lemma word_halves:
  fixes lo hi :: "16 word"
  defines "flags \<equiv> (sint lo AND 0xFFFF) OR push_bit 16 (sint hi)"
  shows "word_of_int ((flags OR f) AND 0xFFFF) = lo OR word_of_int f"
    and "word_of_int (drop_bit 16 (flags OR f) AND 0xFFFF) = hi OR word_of_int (drop_bit 16 f)"
proof -
  have m: "(0xFFFF :: int) = mask 16" by (simp add: mask_eq_exp_minus_1)
  show "word_of_int ((flags OR f) AND 0xFFFF) = lo OR word_of_int f"
    unfolding flags_def m by (rule bit_word_eqI) (auto simp: bit_simps)
  show "word_of_int (drop_bit 16 (flags OR f) AND 0xFFFF) = hi OR word_of_int (drop_bit 16 f)"
    unfolding flags_def m by (rule bit_word_eqI) (auto simp: bit_simps ac_simps)
qed

text \<open>
  Raising a flag of an interface writes back the flags just read with that one bit set and
  every other bit of both halves as it was.
\<close>

theorem set_if_flag_sets_bit:
  assumes "sockets_work w" and "length name \<le> IFNAMSIZ"
    and "pre = (if own then [NetC Socket] else [])"
    and "r = kern w (trace w @ pre) (NetC (Ioctl SIOCGIFFLAGS (IfreqArg name IfruNone)))"
    and "0 \<le> rv r"
  shows "calls (set_if_flag name IFF_UP own) w =
    pre @ [NetC (Ioctl SIOCGIFFLAGS (IfreqArg name IfruNone)),
           NetC (Ioctl SIOCSIFFLAGS (IfreqArg name (IfruFlags (rflag0 r OR 1) (rflag1 r))))] @
    (if own then [NetC CloseSocket] else [])"
proof -
  have d: "drop_bit 16 (1 :: int) = 0" by (simp add: drop_bit_Suc numeral_eq_Suc)
  show ?thesis
    using assms word_halves [of "rflag0 r" "rflag1 r" IFF_UP]
    by (cases own) (simp_all add: calls_def netif_defs comp_simps c_chars_def IFF_UP_def d)
qed

theorem set_if_flag_sets_bit_witness:
  "\<exists>w :: unit world_scheme. calls (set_if_flag ''epair0b'' IFF_UP True) w =
    [NetC Socket] @ [NetC (Ioctl SIOCGIFFLAGS (IfreqArg ''epair0b'' IfruNone)),
       NetC (Ioctl SIOCSIFFLAGS (IfreqArg ''epair0b'' (IfruFlags (0x8802 OR 1) 2)))] @ [NetC CloseSocket]"
proof -
  let ?w = "\<lparr>kern = \<lambda>_ _. ok_ret\<lparr>rflag0 := 0x8802, rflag1 := 2\<rparr>, trace = []\<rparr>"
  have "sockets_work ?w" by (simp add: sockets_work_def ok_ret_def)
  from set_if_flag_sets_bit [OF this, of "''epair0b''" _ True] show ?thesis
    by (intro exI [of _ ?w]) (simp add: IFNAMSIZ_def ok_ret_def)
qed

text \<open>
  Adding an interface to a bridge closes the socket it opened, whatever the kernel answers.
\<close>

theorem bridge_if_closes_socket:
  assumes "sockets_work w"
  shows "open_sockets (calls (bridge_if br mem add own) w) = 0"
  using assms
  by (cases own; cases "length mem \<le> IFNAMSIZ"; cases "length br \<le> IFNAMSIZ")
    (simp_all add: calls_def netif_defs comp_simps c_chars_def split: option.splits)

theorem bridge_if_closes_socket_witness:
  "\<exists>w :: unit world_scheme. sockets_work w \<and>
     open_sockets (calls (bridge_if ''br0'' ''epair0b'' True True) w) = 0"
proof -
  let ?w = "\<lparr>kern = \<lambda>_ _. ok_ret, trace = []\<rparr>"
  have w: "sockets_work ?w" by (simp add: sockets_work_def ok_ret_def)
  from w bridge_if_closes_socket [OF w, of "''br0''" "''epair0b''" True True] show ?thesis by blast
qed

text \<open> \<open>set_ip_address\<close> leaks its socket exactly when the kernel refuses the address: the request
  raises before the socket is closed.
\<close>

theorem set_ip_address_leak:
  assumes "sockets_work w" and "length ifname \<le> IFNAMSIZ"
    and "ip_of_str ip = Inr a" and "ip_of_str nm = Inr m"
  shows "open_sockets (calls (set_ip_address ifname ip nm None True) w) =
    (if rv (kern w (trace w @ [NetC Socket]) (NetC (Ioctl SIOCAIFADDR (IfAliasArg ifname a None m)))) = 0
     then 0 else 1)"
  using assms
  by (simp add: calls_def netif_defs comp_simps c_chars_def inet_pton_def split: option.splits)

theorem set_ip_address_leak_witness:
  "\<exists>w :: unit world_scheme. open_sockets (calls (set_ip_address ''lo0'' ''127.0.0.11'' ''255.255.255.255'' None True) w) = 1"
proof -
  let ?w = "\<lparr>kern = \<lambda>_ _. ok_ret\<lparr>rv := 1\<rparr>, trace = []\<rparr>"
  have w: "sockets_work ?w" by (simp add: sockets_work_def ok_ret_def)
  have "ip_of_str ''127.0.0.11'' = Inr 2130706443" "ip_of_str ''255.255.255.255'' = Inr 4294967295"
    by code_simp+
  from set_ip_address_leak [OF w _ this, of "''lo0''"] show ?thesis
    by (intro exI [of _ ?w]) (simp add: IFNAMSIZ_def ok_ret_def)
qed

end
