(* ===== verification/Pf.thy ===== *)
theory Pf
  imports NetIf
begin

text \<open>
  \<open>app2/pf/pf.py\<close>: the packet filter, through \<open>/dev/pf\<close> and the C libraries \<open>libpfctl\<close> and
  \<open>libpf_util\<close>.  A call of one of their functions is \<open>PfCall\<close> with the converted arguments; its
  number comes back in \<open>rv\<close>.  Flushing C's output buffers is left out.
\<close>

section \<open>Arguments\<close>

definition PF_DEV :: string where
  "PF_DEV = ''/dev/pf''"

text \<open>What \<open>ctypes\<close> makes of an argument declared \<open>c_int\<close>: the number modulo \<open>2 ^ 32\<close>.\<close>

definition c_int :: "int \<Rightarrow> json" where
  "c_int n = JInt (sint (word_of_int n :: 32 word))"

fun c_int_arg :: "json \<Rightarrow> json res" where
  "c_int_arg (JInt n) = Inr (c_int n)"
| "c_int_arg (JBool b) = Inr (JInt (if b then 1 else 0))"
| "c_int_arg _ = Inl (GenericException ''ArgumentError'')"

text \<open>\<open>(if)\<close> is the address of an interface, \<open><name>\<close> a table, all else a network; the text goes to a
  field of \<open>MAXPATHLEN\<close> characters.\<close>

definition MAXPATHLEN :: nat where
  "MAXPATHLEN = 1024"

text \<open>The types of a filter address, and their numbers.\<close>

datatype AddrType = PF_ADDR_ADDRMASK | PF_ADDR_NOROUTE | PF_ADDR_DYNIFTL | PF_ADDR_TABLE |
  PF_ADDR_URPFFAILED | PF_ADDR_RANGE

fun addr_value :: "AddrType \<Rightarrow> int" where
  "addr_value PF_ADDR_ADDRMASK = 0"
| "addr_value PF_ADDR_NOROUTE = 1"
| "addr_value PF_ADDR_DYNIFTL = 2"
| "addr_value PF_ADDR_TABLE = 3"
| "addr_value PF_ADDR_URPFFAILED = 4"
| "addr_value PF_ADDR_RANGE = 5"

text \<open>A filter of a given type, as the functions for one interface build it.\<close>

definition typed_addr :: "AddrType \<Rightarrow> string \<Rightarrow> json res" where
  "typed_addr k s = bindR (c_chars MAXPATHLEN s) (\<lambda>t. Inr (JList [JInt (addr_value k), JStr t]))"

definition filter_addr :: "string \<Rightarrow> json res" where
  "filter_addr s =
     (let inner = slice 1 (length s - 1) s
      in if startswith s ''('' \<and> endswith s '')'' then typed_addr PF_ADDR_DYNIFTL inner
         else if startswith s ''<'' \<and> endswith s ''>'' then typed_addr PF_ADDR_TABLE inner
         else typed_addr PF_ADDR_ADDRMASK s)"

definition c_ip_list :: "json \<Rightarrow> json list res" where
  "c_ip_list rdr = bindR (json_iter rdr) (mapR (\<lambda>ip. bindR (as_str AttributeError ip) (\<lambda>s. Inr (JStr s))))"

definition c_ints :: "json list \<Rightarrow> json list res" where
  "c_ints = mapR c_int_arg"

section \<open>The device\<close>

text \<open>Opening the device, one call, closing it in any case, and raising \<open>err\<close> of the answer when the
  call did not return 0.\<close>

definition with_pf ::
  "(sysret \<Rightarrow> exn) \<Rightarrow> (int \<Rightarrow> ('x world_scheme, sysret) comp) \<Rightarrow> ('x world_scheme, unit) comp" where
  "with_pf err m =
     bindM (pycall (FsC (OpenFile PF_DEV))) (\<lambda>dev.
     seqM (whenM (rv dev = - 1) (raise (OSError (rerrno dev))))
     (bindM (finallyM (m (rv dev)) (do_call (FsC (CloseFd PF_DEV)))) (\<lambda>res.
      if rv res \<noteq> 0 then raise (err res) else ret ())))"

definition os_error :: "sysret \<Rightarrow> exn" where
  "os_error r = OSError (rerrno r)"

definition pf_call :: "string \<Rightarrow> json list res \<Rightarrow> ('x world_scheme, sysret) comp" where
  "pf_call fn args = bindM (liftR args) (\<lambda>as. libc (NetC (PfCall fn as)))"

section \<open>Redirection and NAT rules\<close>

text \<open>The arguments: interface, anchor, source, its port, destination, its port, the addresses and
  their number, the port redirected to, and the protocol.  Text is encoded in this order, numbers are
  converted when the call is made.\<close>

definition pfctl_add_rdr_rule ::
  "string \<Rightarrow> string \<Rightarrow> string \<Rightarrow> json \<Rightarrow> json \<Rightarrow> json \<Rightarrow> json \<Rightarrow> int \<Rightarrow> ('x world_scheme, unit) comp" where
  "pfctl_add_rdr_rule if_name src_address dst_address rdr_address rdr_port src_port dst_port af =
     with_pf os_error (\<lambda>dev. pf_call ''add_rdr_rule''
       (bindR (c_ip_list rdr_address) (\<lambda>ips.
        bindR (c_ints [src_port, dst_port, rdr_port]) (\<lambda>ps.
        Inr [c_int dev, JStr if_name, JStr (''cni-rdr/'' @ if_name), JStr src_address, ps ! 0, JStr dst_address, ps ! 1,
          JList ips, c_int (int (length ips)), ps ! 2, c_int af]))))"

definition pfctl_append_rdr_rule ::
  "string \<Rightarrow> string \<Rightarrow> string \<Rightarrow> string \<Rightarrow> json \<Rightarrow> json \<Rightarrow> json \<Rightarrow> json \<Rightarrow> int \<Rightarrow> ('x world_scheme, unit) comp" where
  "pfctl_append_rdr_rule if_name anchor src_address dst_address rdr_address rdr_port src_port dst_port af =
     with_pf os_error (\<lambda>dev. pf_call ''append_rdr_rule''
       (bindR (c_ip_list rdr_address) (\<lambda>ips.
        bindR (c_ints [src_port, dst_port, rdr_port]) (\<lambda>ps.
        Inr [c_int dev, JStr if_name, JStr anchor, JStr src_address, ps ! 0, JStr dst_address, ps ! 1,
          JList ips, c_int (int (length ips)), ps ! 2, c_int af]))))"

text \<open>When the call fails, the error is raised with an unbound name.\<close>

definition pfctl_add_rdr_rule_if ::
  "string \<Rightarrow> string \<Rightarrow> string \<Rightarrow> json \<Rightarrow> json \<Rightarrow> json \<Rightarrow> int \<Rightarrow> ('x world_scheme, unit) comp" where
  "pfctl_add_rdr_rule_if if_name src_address dst_address rdr_port src_port dst_port af =
     with_pf (\<lambda>_. NameError) (\<lambda>dev. pf_call ''add_rdr_rule_if''
       (bindR (c_ints [src_port, dst_port, rdr_port]) (\<lambda>ps.
        Inr [c_int dev, JStr if_name, JStr (''cni-rdr/'' @ if_name), JStr src_address, ps ! 0, JStr dst_address, ps ! 1,
          JStr if_name, ps ! 2, c_int af])))"

definition rule_src_if ::
  "string \<Rightarrow> string \<Rightarrow> string \<Rightarrow> string \<Rightarrow> json \<Rightarrow> json \<Rightarrow> json \<Rightarrow> json \<Rightarrow> int \<Rightarrow> ('x world_scheme, unit) comp" where
  "rule_src_if if_name anchor src_if dst_address rdr_address rdr_port src_port dst_port af =
     with_pf os_error (\<lambda>dev. pf_call ''append_rdr_rule_src_if''
       (bindR (typed_addr PF_ADDR_ADDRMASK src_if) (\<lambda>src. bindR (typed_addr PF_ADDR_DYNIFTL dst_address) (\<lambda>dst.
        bindR (c_ip_list rdr_address) (\<lambda>ips.
        bindR (c_ints [src_port, dst_port, rdr_port]) (\<lambda>ps.
        Inr [c_int dev, JStr if_name, JStr anchor, src, ps ! 0, dst, ps ! 1,
          JList ips, c_int (int (length ips)), ps ! 2, c_int af]))))))"

definition pfctl_append_rdr_rule_src_if ::
  "string \<Rightarrow> string \<Rightarrow> string \<Rightarrow> string \<Rightarrow> json \<Rightarrow> json \<Rightarrow> json \<Rightarrow> json \<Rightarrow> int \<Rightarrow> ('x world_scheme, unit) comp" where
  "pfctl_append_rdr_rule_src_if = rule_src_if"

text \<open>The function named after NAT adds a redirection rule.\<close>

definition pfctl_append_nat_rule_src_if ::
  "string \<Rightarrow> string \<Rightarrow> string \<Rightarrow> string \<Rightarrow> json \<Rightarrow> json \<Rightarrow> json \<Rightarrow> json \<Rightarrow> int \<Rightarrow> ('x world_scheme, unit) comp" where
  "pfctl_append_nat_rule_src_if = rule_src_if"

text \<open>The two generic functions differ in the C function they call.  The interface and the
  destination may come from a request and need not be text.\<close>

definition rule_generic ::
  "string \<Rightarrow> json \<Rightarrow> string \<Rightarrow> string \<Rightarrow> json \<Rightarrow> json \<Rightarrow> json \<Rightarrow> json \<Rightarrow> json \<Rightarrow> int \<Rightarrow> int \<Rightarrow>
   ('x world_scheme, unit) comp" where
  "rule_generic fn if_name anchor src dst rdr_address rdr_port src_port dst_port af quick =
     with_pf os_error (\<lambda>dev. pf_call fn
       (bindR (filter_addr src) (\<lambda>s. bindR (bindR (as_str AttributeError dst) filter_addr) (\<lambda>d.
        bindR (c_ip_list rdr_address) (\<lambda>ips.
        bindR (as_str AttributeError if_name) (\<lambda>ifn.
        bindR (c_ints [src_port, dst_port, rdr_port]) (\<lambda>ps.
        Inr [c_int dev, JStr ifn, JStr anchor, s, ps ! 0, d, ps ! 1,
          JList ips, c_int (int (length ips)), ps ! 2, c_int af, c_int quick])))))))"

definition pfctl_append_rdr_rule_generic ::
  "json \<Rightarrow> string \<Rightarrow> string \<Rightarrow> json \<Rightarrow> json \<Rightarrow> json \<Rightarrow> json \<Rightarrow> json \<Rightarrow> int \<Rightarrow> int \<Rightarrow>
   ('x world_scheme, unit) comp" where
  "pfctl_append_rdr_rule_generic = rule_generic ''append_rdr_rule_generic''"

definition pfctl_append_nat_rule_generic ::
  "json \<Rightarrow> string \<Rightarrow> string \<Rightarrow> json \<Rightarrow> json \<Rightarrow> json \<Rightarrow> json \<Rightarrow> json \<Rightarrow> int \<Rightarrow> int \<Rightarrow>
   ('x world_scheme, unit) comp" where
  "pfctl_append_nat_rule_generic = rule_generic ''append_nat_rule_generic''"

section \<open>Pools, removal and switches\<close>

definition pfctl_add_addressList_to_pool :: "string \<Rightarrow> int \<Rightarrow> string list \<Rightarrow> ('x world_scheme, unit) comp" where
  "pfctl_add_addressList_to_pool path r_num addr_list =
     with_pf (\<lambda>_. NameError) (\<lambda>dev. pf_call ''add_addressList_to_pool''
       (Inr [c_int dev, JStr path, c_int r_num, JList (map JStr addr_list), c_int (int (length addr_list))]))"

definition pfctl_remove_addressList_from_pool :: "string \<Rightarrow> int \<Rightarrow> string list \<Rightarrow> ('x world_scheme, unit) comp" where
  "pfctl_remove_addressList_from_pool path r_num addr_list =
     with_pf (\<lambda>_. NameError) (\<lambda>dev. pf_call ''remove_addressList_from_pool''
       (Inr [c_int dev, JStr path, c_int r_num, JList (map JStr addr_list), c_int (int (length addr_list))]))"

definition pfctl_clear_ruleset :: "string \<Rightarrow> ('x world_scheme, unit) comp" where
  "pfctl_clear_ruleset anchor = with_pf os_error (\<lambda>dev. pf_call ''clear_ruleset'' (Inr [c_int dev, JStr anchor]))"

definition pfctl_clear_nat_ruleset :: "string \<Rightarrow> ('x world_scheme, unit) comp" where
  "pfctl_clear_nat_ruleset anchor = with_pf os_error (\<lambda>dev. pf_call ''clear_nat_ruleset'' (Inr [c_int dev, JStr anchor]))"

definition pfctl_remove_rdr_port_rule :: "string \<Rightarrow> json \<Rightarrow> int \<Rightarrow> ('x world_scheme, unit) comp" where
  "pfctl_remove_rdr_port_rule anchor port proto =
     with_pf os_error (\<lambda>dev. pf_call ''remove_rdr_port_rule''
       (bindR (c_int_arg port) (\<lambda>p. Inr [c_int dev, JStr anchor, p, c_int proto])))"

definition pfctl_remove_nat_port_rule :: "string \<Rightarrow> json \<Rightarrow> int \<Rightarrow> ('x world_scheme, unit) comp" where
  "pfctl_remove_nat_port_rule anchor port proto =
     with_pf os_error (\<lambda>dev. pf_call ''remove_nat_port_rule''
       (bindR (c_int_arg port) (\<lambda>p. Inr [c_int dev, JStr anchor, p, c_int proto])))"

definition pfctl_enable :: "('x world_scheme, unit) comp" where
  "pfctl_enable = with_pf os_error (\<lambda>dev. pf_call ''enable'' (Inr [c_int dev]))"

definition pfctl_disable :: "('x world_scheme, unit) comp" where
  "pfctl_disable = with_pf os_error (\<lambda>dev. pf_call ''disable'' (Inr [c_int dev]))"

section \<open>Tables\<close>

text \<open>An address of a table: the address, its family and the prefix length in eight bits.\<close>

definition PF_TABLE_NAME_SIZE :: nat where
  "PF_TABLE_NAME_SIZE = 32"

definition AF_INET_value :: int where
  "AF_INET_value = 2"

definition pfr_addr :: "string \<Rightarrow> int \<Rightarrow> json res" where
  "pfr_addr ip net = bindR (inet_pton ip) (\<lambda>a.
     Inr (JList [JInt (uint a), JInt AF_INET_value, JInt (sint (word_of_int net :: 8 word))]))"

text \<open>\<open>a.split('/')\<close>: the address and the length, 32 without one.\<close>

definition pfr_net :: "string \<Rightarrow> (string \<times> int) res" where
  "pfr_net s = (case splitc CHR ''/'' s of
     a # m # _ \<Rightarrow> bindR (py_int m) (\<lambda>n. Inr (a, n))
   | a # _ \<Rightarrow> Inr (a, 32)
   | [] \<Rightarrow> Inl IndexError)"

text \<open>The two functions on an open device; a failure is raised with an unbound name.\<close>

definition pfctl_table_del_addrs ::
  "int \<Rightarrow> string \<Rightarrow> string \<Rightarrow> int \<Rightarrow> int \<Rightarrow> ('x world_scheme, unit) comp" where
  "pfctl_table_del_addrs dev table_name addr cnt flags =
     bindM (pf_call ''pfctl_table_del_addrs''
       (bindR (c_chars PF_TABLE_NAME_SIZE table_name) (\<lambda>t.
        bindR (pfr_addr addr 32) (\<lambda>a. Inr [c_int dev, JStr t, JList [a], c_int cnt, JInt 0, c_int flags])))) (\<lambda>res.
     if rv res \<noteq> 0 then raise NameError else ret ())"

definition pfctl_table_add_addrs ::
  "int \<Rightarrow> string \<Rightarrow> string \<Rightarrow> int \<Rightarrow> ('x world_scheme, unit) comp" where
  "pfctl_table_add_addrs dev table_name addr flags =
     seqM (bindM (liftR (pfr_net addr)) (\<lambda>(ip, m).
       bindM (liftR (c_chars PF_TABLE_NAME_SIZE table_name)) (\<lambda>t.
       bindM (liftR (pfr_addr ip m)) (\<lambda>a. ret ()))))
     (raise NameError)"

definition pfctl_table_add_addrs_list :: "string \<Rightarrow> string list \<Rightarrow> int \<Rightarrow> ('x world_scheme, unit) comp" where
  "pfctl_table_add_addrs_list table_name addrs flags =
     (if addrs = [] then raise ValueError
      else bindM (liftR (c_chars PF_TABLE_NAME_SIZE table_name)) (\<lambda>t.
        bindM (liftR (mapR (\<lambda>s. case splitc CHR ''/'' s of
            [] \<Rightarrow> Inl IndexError
          | a # ms \<Rightarrow> bindR (inet_pton a) (\<lambda>_. bindR (pfr_net s) (\<lambda>(ip, m). pfr_addr ip m))) addrs)) (\<lambda>as.
        with_pf os_error (\<lambda>dev. pf_call ''pfctl_table_add_addrs''
          (Inr [c_int dev, JStr t, JList as, c_int (int (length addrs)), JInt 0, c_int flags])))))"

definition pfctl_table_del_addr_list :: "string \<Rightarrow> string list \<Rightarrow> int \<Rightarrow> ('x world_scheme, unit) comp" where
  "pfctl_table_del_addr_list table_name addrs flags =
     (if addrs = [] then raise ValueError
      else bindM (liftR (c_chars PF_TABLE_NAME_SIZE table_name)) (\<lambda>t.
        bindM (liftR (mapR (\<lambda>s. pfr_addr s 32) addrs)) (\<lambda>as.
        with_pf os_error (\<lambda>dev. pf_call ''pfctl_table_del_addrs''
          (Inr [c_int dev, JStr t, JList as, c_int (int (length addrs)), JInt 0, c_int flags])))))"

lemmas pf_rule_defs = pfctl_add_rdr_rule_def pfctl_append_rdr_rule_def pfctl_add_rdr_rule_if_def
  rule_src_if_def pfctl_append_rdr_rule_src_if_def pfctl_append_nat_rule_src_if_def rule_generic_def
  pfctl_append_rdr_rule_generic_def pfctl_append_nat_rule_generic_def pfctl_add_addressList_to_pool_def
  pfctl_remove_addressList_from_pool_def pfctl_clear_ruleset_def pfctl_clear_nat_ruleset_def
  pfctl_remove_rdr_port_rule_def pfctl_remove_nat_port_rule_def pfctl_enable_def pfctl_disable_def

lemma emits_with_pf [emits_rules]:
  "P (FsC (OpenFile PF_DEV)) \<Longrightarrow> P (FsC (CloseFd PF_DEV)) \<Longrightarrow> (\<And>dev. emits P (m dev)) \<Longrightarrow> emits P (with_pf err m)"
  unfolding with_pf_def by (intro emits_rules)

lemma emits_pf_call [emits_rules]:
  assumes "\<And>as. args = Inr as \<Longrightarrow> P (NetC (PfCall fn as))"
  shows "emits P (pf_call fn args)"
  using assms by (cases args) (simp_all add: pf_call_def liftR_def bindM_def emits_def libc_def)

lemma keeps_with_pf [keeps_calls]:
  "(\<And>w t. I (w\<lparr>trace := t\<rparr>) = I w) \<Longrightarrow> (\<And>dev. keeps I (m dev)) \<Longrightarrow> keeps I (with_pf err m)"
  unfolding with_pf_def by (intro keeps_rules keeps_calls)

lemma keeps_pf_call [keeps_calls]: "(\<And>w t. I (w\<lparr>trace := t\<rparr>) = I w) \<Longrightarrow> keeps I (pf_call fn args)"
  unfolding pf_call_def by (intro keeps_rules keeps_calls)

section \<open>Properties\<close>

text \<open>
  A redirection rule whose addresses are text and whose ports are numbers of a C int reaches
  the packet filter as it was given: the device is opened, the rule is added with the arguments in
  the order of the C function, the device is closed, and the call fails exactly when the filter
  refuses the rule.
\<close>

theorem rdr_rule_call:
  assumes "raises (kern w (trace w) (FsC (OpenFile PF_DEV))) = None"
    and "rv (kern w (trace w) (FsC (OpenFile PF_DEV))) \<noteq> - 1"
    and "\<forall>t. raises (kern w t (FsC (CloseFd PF_DEV))) = None"
    and "filter_addr src = Inr s" and "filter_addr dst = Inr d"
    and "\<forall>p \<in> {rp, sp, dp}. - (2 ^ 31) \<le> p \<and> p < 2 ^ 31" and "length ips < 2 ^ 31"
  shows "let dev = rv (kern w (trace w) (FsC (OpenFile PF_DEV)));
             c = NetC (PfCall ''append_rdr_rule_generic'' [c_int dev, JStr ifn, JStr anchor, s, JInt sp, d, JInt dp,
                 JList (map JStr ips), JInt (int (length ips)), JInt rp, c_int af, c_int quick]);
             answer = kern w (trace w @ [FsC (OpenFile PF_DEV)]) c
         in pfctl_append_rdr_rule_generic (JStr ifn) anchor src (JStr dst) (JList (map JStr ips)) (JInt rp)
              (JInt sp) (JInt dp) af quick w =
            (if rv answer = 0 then Inr () else Inl (OSError (rerrno answer)),
             w\<lparr>trace := trace w @ [FsC (OpenFile PF_DEV), c, FsC (CloseFd PF_DEV)]\<rparr>)"
proof -
  have c_int: "c_int p = JInt p" if "- (2 ^ 31) \<le> p" "p < 2 ^ 31" for p
  proof -
    have "signed_take_bit 31 p = p" using that by (intro signed_take_bit_int_eq_self) simp_all
    then show ?thesis by (simp add: c_int_def signed_of_int)
  qed
  have ints: "c_ints [JInt sp, JInt dp, JInt rp] = Inr [JInt sp, JInt dp, JInt rp]"
    using assms(6) by (simp add: c_ints_def c_int)
  have "mapR (\<lambda>ip. bindR (as_str AttributeError ip) (\<lambda>s. Inr (JStr s))) (map JStr ips) = Inr (map JStr ips)"
    by (induction ips) simp_all
  then have list: "c_ip_list (JList (map JStr ips)) = Inr (map JStr ips)"
    by (simp add: c_ip_list_def)
  have count: "c_int (int (length ips)) = JInt (int (length ips))"
    using assms(7) by (intro c_int) simp_all
  show ?thesis
    unfolding pfctl_append_rdr_rule_generic_def rule_generic_def with_pf_def pf_call_def
    using assms(1-5)
    by (simp add: ints list count comp_simps os_error_def Let_def)
qed

theorem rdr_rule_call_witness:
  "let w = \<lparr>kern = \<lambda>_ _. ok_ret, trace = []\<rparr>;
       c = NetC (PfCall ''append_rdr_rule_generic'' [JInt 0, JStr ''web'', JStr ''cni-rdr/web'', JList [JInt 0, JStr ''10.0.0.0/24''],
             JInt (- 1), JList [JInt 2, JStr ''self''], JInt 80, JList (map JStr [''10.0.0.2'']), JInt 1, JInt 8080, JInt 6, JInt 1])
   in snd (pfctl_append_rdr_rule_generic (JStr ''web'') ''cni-rdr/web'' ''10.0.0.0/24'' (JStr ''(self)'')
        (JList (map JStr [''10.0.0.2''])) (JInt 8080) (JInt (- 1)) (JInt 80) 6 1 w) =
      w\<lparr>trace := [FsC (OpenFile PF_DEV), c, FsC (CloseFd PF_DEV)]\<rparr>"
proof -
  let ?w = "\<lparr>kern = \<lambda>_ _. ok_ret, trace = []\<rparr>"
  have s: "filter_addr ''10.0.0.0/24'' = Inr (JList [JInt 0, JStr ''10.0.0.0/24''])" by code_simp
  have d: "filter_addr ''(self)'' = Inr (JList [JInt 2, JStr ''self''])" by code_simp
  have c: "c_int 0 = JInt 0" "c_int 6 = JInt 6" "c_int 1 = JInt 1" "rv ok_ret = 0" by code_simp+
  have w: "raises (kern ?w (trace ?w) (FsC (OpenFile PF_DEV))) = None"
    "rv (kern ?w (trace ?w) (FsC (OpenFile PF_DEV))) \<noteq> - 1"
    "\<forall>t. raises (kern ?w t (FsC (CloseFd PF_DEV))) = None"
    by (simp_all add: ok_ret_def)
  have p: "\<forall>p \<in> {8080, - 1, 80 :: int}. - (2 ^ 31) \<le> p \<and> p < 2 ^ 31" by simp
  have l: "length [''10.0.0.2''] < 2 ^ 31" by simp
  show ?thesis
    using rdr_rule_call [OF w s d p l, of "''web''" "''cni-rdr/web''" 6 1] by (simp add: Let_def c)
qed

end
