(* ===== verification/SubnetAllocator.thy ===== *)
theory SubnetAllocator
  imports IPv4
begin

text \<open>
  \<open>app2/network/SubnetAllocator.py\<close>: the first subnet of a base network that overlaps none of the
  allocated ones.  The search is an instance of a first-fit search over candidates, stated as the
  locale \<open>first_fit\<close>, which the choice of a container's address interprets as well.
\<close>

section \<open>First fit\<close>

fun blocked :: "('c \<Rightarrow> 'u \<Rightarrow> bool) \<Rightarrow> 'u list \<Rightarrow> 'c \<Rightarrow> bool" where
  "blocked conflict [] c = False"
| "blocked conflict (u # us) c = (conflict c u \<or> blocked conflict us c)"

lemma blocked_iff: "blocked conflict us c \<longleftrightarrow> (\<exists>u \<in> set us. conflict c u)"
  by (induction us) auto

fun first_free :: "('c \<Rightarrow> 'u \<Rightarrow> bool) \<Rightarrow> 'u list \<Rightarrow> 'c list \<Rightarrow> 'c option" where
  "first_free conflict used [] = None"
| "first_free conflict used (c # cs) =
     (if \<not> blocked conflict used c then Some c else first_free conflict used cs)"

lemma first_free_SomeD:
  "first_free conflict used cs = Some c \<Longrightarrow>
     \<exists>before rest. cs = before @ c # rest \<and> (\<forall>b \<in> set before. blocked conflict used b) \<and>
        \<not> blocked conflict used c"
proof (induction cs)
  case (Cons a cs)
  show ?case
  proof (cases "blocked conflict used a")
    case True
    with Cons obtain before rest where "cs = before @ c # rest"
      "\<forall>b \<in> set before. blocked conflict used b" "\<not> blocked conflict used c" by auto
    with True show ?thesis by (intro exI [of _ "a # before"] exI [of _ rest]) simp
  next
    case False
    with Cons.prems show ?thesis by (intro exI [of _ "[]"] exI [of _ cs]) simp
  qed
qed simp

lemma first_free_None:
  "first_free conflict used cs = None \<longleftrightarrow> (\<forall>c \<in> set cs. blocked conflict used c)"
  by (induction cs) auto

text \<open>
  The interface: the candidates of a search are distinct, and there is a bound on the number of them
  that each thing in use conflicts with.  Then the search finds something as long as the bounds of the
  things in use sum up to less than there are candidates.
\<close>

locale first_fit =
  fixes candidates :: "'k \<Rightarrow> 'c list"
    and conflict :: "'c \<Rightarrow> 'u \<Rightarrow> bool"
    and usable :: "'k \<Rightarrow> 'u \<Rightarrow> bool"
    and weight :: "'k \<Rightarrow> 'u \<Rightarrow> nat"
  assumes distinct_candidates: "distinct (candidates k)"
    and conflict_weight: "usable k u \<Longrightarrow> card {c \<in> set (candidates k). conflict c u} \<le> weight k u"
begin

lemma found:
  "first_free conflict used (candidates k) = Some c \<Longrightarrow>
   c \<in> set (candidates k) \<and> (\<forall>u \<in> set used. \<not> conflict c u)"
  by (drule first_free_SomeD) (auto simp: blocked_iff)

lemma blocked_count:
  "\<forall>u \<in> set used. usable k u \<Longrightarrow>
   card {c \<in> set (candidates k). blocked conflict used c} \<le> sum_list (map (weight k) used)"
proof (induction used)
  case (Cons u us)
  have "{c \<in> set (candidates k). blocked conflict (u # us) c} =
      {c \<in> set (candidates k). conflict c u} \<union> {c \<in> set (candidates k). blocked conflict us c}" by auto
  then have "card {c \<in> set (candidates k). blocked conflict (u # us) c} \<le>
      card {c \<in> set (candidates k). conflict c u} + card {c \<in> set (candidates k). blocked conflict us c}"
    by (simp add: card_Un_le)
  also have "\<dots> \<le> weight k u + sum_list (map (weight k) us)"
    using Cons conflict_weight by (intro add_mono) simp_all
  finally show ?case by simp
qed simp

lemma finds_below:
  assumes usable: "\<forall>u \<in> set used. usable k u"
    and room: "sum_list (map (weight k) used) < length (candidates k)"
  shows "\<exists>c. first_free conflict used (candidates k) = Some c"
proof (rule ccontr)
  assume "\<nexists>c. first_free conflict used (candidates k) = Some c"
  then have "{c \<in> set (candidates k). blocked conflict used c} = set (candidates k)"
    using first_free_None [of conflict used "candidates k"] by auto
  with blocked_count [OF usable] room distinct_candidates [of k] show False
    by (simp add: distinct_card)
qed

end

section \<open>The allocator\<close>

text \<open>The object holds its base network, \<open>10.0.0.0/16\<close> unless another is given.\<close>

record subnet_allocator =
  base_network :: ipv4_network

definition default_allocator :: subnet_allocator where
  "default_allocator = \<lparr>base_network = \<lparr>net_addr = 167772160, net_prefix = 16\<rparr>\<rparr>"

definition is_overlapping :: "ipv4_network \<Rightarrow> ipv4_network list \<Rightarrow> bool" where
  "is_overlapping candidate allocated_networks = blocked overlaps allocated_networks candidate"

definition find_available_subnet ::
  "subnet_allocator \<Rightarrow> nat \<Rightarrow> ipv4_network list \<Rightarrow> ipv4_network option res" where
  "find_available_subnet a plen allocated =
     bindR (subnets (base_network a) plen) (\<lambda>cs. Inr (first_free overlaps allocated cs))"

definition allocate_subnet ::
  "subnet_allocator \<Rightarrow> ipv4_network list \<Rightarrow> nat \<Rightarrow> (string \<times> nat) option res" where
  "allocate_subnet a allocated plen =
     bindR (find_available_subnet a plen allocated) (\<lambda>subnet.
       Inr (case subnet of
              Some n \<Rightarrow> Some (ip_str (net_addr n), net_prefix n)
            | None \<Rightarrow> None))"

lemma default_allocator_text:
  "ip_network ''10.0.0.0/16'' = Inr (base_network default_allocator)"
  by code_simp

section \<open>Subnets as candidates\<close>

lemma unat_subnet_addr:
  assumes "valid_net n" "net_prefix n \<le> q" "q \<le> 32" "k < 2 ^ (q - net_prefix n)"
  shows "unat (net_addr n + of_nat k * 2 ^ (32 - q)) = unat (net_addr n) + k * 2 ^ (32 - q)"
proof -
  have "k * 2 ^ (32 - q) < 2 ^ (q - net_prefix n) * 2 ^ (32 - q)"
    using assms(4) by simp
  also have "\<dots> = 2 ^ (32 - net_prefix n)" using assms(2,3) by (simp flip: power_add)
  finally have "unat (net_addr n + of_nat (k * 2 ^ (32 - q))) = unat (net_addr n) + k * 2 ^ (32 - q)"
    by (rule unat_add_offset [OF assms(1)])
  then show ?thesis by simp
qed

lemma subnets_distinct:
  assumes "valid_net n" "subnets n q = Inr ms"
  shows "distinct ms"
proof (cases "net_prefix n = 32")
  case False
  then have q: "net_prefix n \<le> q" "q \<le> 32"
    and ms: "ms = map (\<lambda>k. \<lparr>net_addr = net_addr n + of_nat k * 2 ^ (32 - q), net_prefix = q\<rparr>)
      [0 ..< 2 ^ (q - net_prefix n)]"
    using assms(2) by (auto simp: subnets_def split: if_splits)
  have inj: "j = k" if "j < 2 ^ (q - net_prefix n)" "k < 2 ^ (q - net_prefix n)"
    "net_addr n + of_nat j * 2 ^ (32 - q) = net_addr n + of_nat k * 2 ^ (32 - q)" for j k
  proof -
    have "unat (net_addr n) + j * 2 ^ (32 - q) = unat (net_addr n) + k * 2 ^ (32 - q)"
      using unat_subnet_addr [OF assms(1) q that(1)] unat_subnet_addr [OF assms(1) q that(2)] that(3)
      by metis
    then show ?thesis by simp
  qed
  show ?thesis
    unfolding ms distinct_map by (auto intro!: inj_onI intro: inj simp only: distinct_upt
        ipv4_network.ext_inject atLeastLessThan_upt [symmetric] atLeastLessThan_iff)
qed (use assms(2) in \<open>auto simp: subnets_def\<close>)

lemma length_subnets:
  "net_prefix n \<noteq> 32 \<Longrightarrow> subnets n q = Inr ms \<Longrightarrow> length ms = 2 ^ (q - net_prefix n)"
  by (auto simp: subnets_def split: if_splits)

text \<open>A network meets at most as many candidates as it has subnets of their length, and one if it is no
  larger than them: the bits between the two lengths tell them apart.\<close>

lemma block_count:
  assumes u: "valid_net u" and C: "\<forall>c \<in> C. valid_net c \<and> net_prefix c = q \<and> overlaps c u"
  shows "card C \<le> 2 ^ (q - net_prefix u)"
proof -
  let ?f = "\<lambda>c. map (bit (net_addr c)) [32 - q ..< 32 - net_prefix u]"
  let ?L = "{bs :: bool list. set bs \<subseteq> UNIV \<and> length bs = (32 - net_prefix u) - (32 - q)}"
  have high: "bit (net_addr c) i = bit (net_addr u) i"
    if c: "c \<in> C" and i: "i < 32" "32 - q \<le> i" "32 - net_prefix u \<le> i" for c i
  proof -
    from C c u obtain x where x: "in_net x c" "in_net x u" using overlaps_iff_common by metis
    with C c i u show ?thesis by (metis in_net_bits)
  qed
  have "inj_on ?f C"
  proof (rule inj_onI)
    fix c c' assume c: "c \<in> C" "c' \<in> C" and eq: "?f c = ?f c'"
    have "bit (net_addr c) i = bit (net_addr c') i" if i: "i < 32" "32 - q \<le> i" for i
    proof (cases "32 - net_prefix u \<le> i")
      case True
      with high [OF c(1) i] high [OF c(2) i] show ?thesis by simp
    next
      case False
      with i(2) eq show ?thesis by (simp add: map_eq_conv)
    qed
    then have "in_net (net_addr c) c'" using C c(2) by (simp add: in_net_bits)
    moreover have "in_net (net_addr c) c" using C c(1) by (simp add: in_net_bits)
    ultimately show "c = c'" using C c same_prefix_eq by metis
  qed
  moreover have "?f ` C \<subseteq> ?L" by auto
  moreover have "finite ?L" by (rule finite_lists_length_eq) simp
  ultimately have "card C \<le> card ?L" by (meson card_inj_on_le)
  also have "\<dots> = 2 ^ ((32 - net_prefix u) - (32 - q))" by (subst card_lists_length_eq) simp_all
  also have "\<dots> \<le> 2 ^ (q - net_prefix u)"
    using valid_net_prefix [OF u] by (intro power_increasing) auto
  finally show ?thesis .
qed

text \<open>The key of a search is the base network with the new length, when the split is possible.\<close>

definition subnet_candidates :: "ipv4_network \<times> nat \<Rightarrow> ipv4_network list" where
  "subnet_candidates k = (case k of (n, q) \<Rightarrow>
     if valid_net n \<and> net_prefix n < 32 then (case subnets n q of Inr ms \<Rightarrow> ms | Inl _ \<Rightarrow> []) else [])"

definition subnet_weight :: "ipv4_network \<times> nat \<Rightarrow> ipv4_network \<Rightarrow> nat" where
  "subnet_weight k u = 2 ^ (snd k - net_prefix u)"

lemma subnet_candidatesD:
  assumes "c \<in> set (subnet_candidates (n, q))"
  shows "valid_net n \<and> net_prefix n < 32 \<and> (\<exists>ms. subnets n q = Inr ms \<and> subnet_candidates (n, q) = ms)"
proof (cases "subnets n q")
  case (Inl e)
  then have "subnet_candidates (n, q) = []" by (simp add: subnet_candidates_def)
  with assms have False by simp
  then show ?thesis ..
next
  case (Inr ms)
  then have c: "subnet_candidates (n, q) = (if valid_net n \<and> net_prefix n < 32 then ms else [])"
    by (simp add: subnet_candidates_def)
  with assms have ok: "valid_net n \<and> net_prefix n < 32"
    by (metis empty_iff list.set(1))
  with c have "subnet_candidates (n, q) = ms" by metis
  with ok Inr show ?thesis by metis
qed

interpretation alloc: first_fit subnet_candidates overlaps "\<lambda>k u. valid_net u" subnet_weight
proof
  fix k
  show "distinct (subnet_candidates k)"
    by (auto simp: subnet_candidates_def dest: subnets_distinct split: prod.splits sum.splits)
next
  fix k :: "ipv4_network \<times> nat" and u
  assume u: "valid_net u"
  obtain n q where k: "k = (n, q)" by (cases k)
  have "valid_net c \<and> net_prefix c = q" if c: "c \<in> set (subnet_candidates k)" for c
  proof -
    obtain ms where ms: "valid_net n" "net_prefix n < 32" "subnets n q = Inr ms" "c \<in> set ms"
      using subnet_candidatesD [of c n q] c unfolding k by blast
    then show ?thesis using subnets_prefix [OF ms(3,4)] subnets_inside(1) [OF ms(1,3,4)] by simp
  qed
  then show "card {c \<in> set (subnet_candidates k). overlaps c u} \<le> subnet_weight k u"
    unfolding subnet_weight_def k by (simp add: block_count [OF u])
qed

lemma find_available_subnet_candidates:
  assumes "valid_net (base_network a)" "net_prefix (base_network a) < 32"
    and "subnets (base_network a) q = Inr ms"
  shows "find_available_subnet a q allocated =
    Inr (first_free overlaps allocated (subnet_candidates (base_network a, q)))"
  using assms by (simp add: find_available_subnet_def subnet_candidates_def)

text \<open>What the search promises about its result.\<close>

lemma allocated_apart:
  assumes "allocate_subnet a allocated q = Inr (Some (s, p))"
    and "valid_net (base_network a)" and "net_prefix (base_network a) < 32"
    and "\<forall>u \<in> set allocated. valid_net u"
  shows "\<exists>n. ip_network (s @ ''/'' @ dec p) = Inr n \<and> net_prefix n = q \<and> p = q \<and>
    (\<forall>x. in_net x n \<longrightarrow> in_net x (base_network a) \<and> (\<forall>u \<in> set allocated. \<not> in_net x u))"
proof -
  obtain ms n where ms: "subnets (base_network a) q = Inr ms"
    and n: "first_free overlaps allocated ms = Some n"
    and s: "s = ip_str (net_addr n)" "p = net_prefix n"
    using assms(1) by (auto simp: allocate_subnet_def find_available_subnet_def bindR_eq_Inr
        split: option.splits)
  have c: "subnet_candidates (base_network a, q) = ms"
    using ms assms(2,3) by (simp add: subnet_candidates_def)
  from alloc.found [of allocated "(base_network a, q)" n] n c
  have in_ms: "n \<in> set ms" and free: "\<forall>u \<in> set allocated. \<not> overlaps n u" by auto
  note inside = subnets_inside [OF assms(2) ms in_ms]
  have "net_prefix n = q" using subnets_prefix [OF ms in_ms] assms(3) by simp
  moreover have "ip_network (s @ ''/'' @ dec p) = Inr n"
    using inside(1) s ip_network_net_str [of n] by (simp add: net_str_def)
  moreover have "\<not> in_net x u" if "in_net x n" "u \<in> set allocated" for x u
    using free that assms(4) overlaps_iff_common [OF inside(1)] by blast
  ultimately show ?thesis using inside(2) s by blast
qed

section \<open>Properties\<close>

text \<open>
  An allocated subnet has the requested length, lies inside the base network and has no
  address in common with any allocated network.
\<close>

theorem allocate_subnet_disjoint:
  assumes "allocate_subnet a allocated q = Inr (Some (s, p))"
    and "valid_net (base_network a)" and "net_prefix (base_network a) < 32"
    and "\<forall>u \<in> set allocated. valid_net u"
  shows "\<exists>n. ip_network (s @ ''/'' @ dec p) = Inr n \<and> net_prefix n = q \<and> p = q \<and>
    (\<forall>x. in_net x n \<longrightarrow> in_net x (base_network a) \<and> (\<forall>u \<in> set allocated. \<not> in_net x u))"
  using allocated_apart [OF assms] .

theorem allocate_subnet_disjoint_witness:
  "\<exists>n. ip_network (''10.0.1.0'' @ ''/'' @ dec 24) = Inr n \<and> net_prefix n = 24 \<and> (24 :: nat) = 24 \<and>
    (\<forall>x. in_net x n \<longrightarrow> in_net x (base_network default_allocator) \<and>
      (\<forall>u \<in> set [\<lparr>net_addr = 167772160, net_prefix = 24\<rparr>]. \<not> in_net x u))"
proof -
  let ?u = "\<lparr>net_addr = 167772160, net_prefix = 24\<rparr>"
  have c: "allocate_subnet default_allocator [?u] 24 = Inr (Some (''10.0.1.0'', 24))" by code_simp
  have b: "valid_net (base_network default_allocator)" by code_simp
  have p: "net_prefix (base_network default_allocator) < 32" by (simp add: default_allocator_def)
  have u: "\<forall>u \<in> set [?u]. valid_net u" by code_simp
  show ?thesis by (rule allocate_subnet_disjoint [OF c b p u])
qed

text \<open>
  C19.  The allocator never gives up while there is room, whatever is allocated: if the subnets of the
  requested length that the allocated networks take up, one for a network no larger than that and
  \<open>2 ^ (q - p)\<close> for a network of length \<open>p < q\<close>, are together fewer than the base network has, it
  finds one.
\<close>

theorem allocate_subnet_complete:
  assumes "valid_net (base_network a)" and "net_prefix (base_network a) < 32"
    and "net_prefix (base_network a) \<le> q" and "q \<le> 32"
    and "\<forall>u \<in> set allocated. valid_net u"
    and "(\<Sum>u \<leftarrow> allocated. 2 ^ (q - net_prefix u)) < (2 :: nat) ^ (q - net_prefix (base_network a))"
  shows "\<exists>s. allocate_subnet a allocated q = Inr (Some (s, q))"
proof -
  obtain ms where ms: "subnets (base_network a) q = Inr ms"
    using assms(2-4) by (simp add: subnets_def)
  then have c: "subnet_candidates (base_network a, q) = ms"
    using assms(1,2) by (simp add: subnet_candidates_def)
  have "length ms = 2 ^ (q - net_prefix (base_network a))"
    using length_subnets [OF _ ms] assms(2) by simp
  then obtain n where n: "first_free overlaps allocated ms = Some n"
    using alloc.finds_below [of allocated "(base_network a, q)"] assms(5,6) c
    by (auto simp: subnet_weight_def [abs_def])
  then have "n \<in> set ms" using alloc.found [of allocated "(base_network a, q)" n] c by simp
  then have "net_prefix n = q" using subnets_prefix [OF ms] assms(2) by simp
  with n ms show ?thesis by (simp add: allocate_subnet_def find_available_subnet_def)
qed

theorem allocate_subnet_complete_witness:
  "\<exists>s. allocate_subnet default_allocator
     [\<lparr>net_addr = 167772160, net_prefix = 17\<rparr>, \<lparr>net_addr = 167804928, net_prefix = 24\<rparr>] 24 = Inr (Some (s, 24))"
proof -
  let ?u = "\<lparr>net_addr = 167772160, net_prefix = 17\<rparr>" and ?v = "\<lparr>net_addr = 167804928, net_prefix = 24\<rparr>"
  have b: "valid_net (base_network default_allocator)" by code_simp
  have p: "net_prefix (base_network default_allocator) = 16" by (simp add: default_allocator_def)
  have u: "valid_net ?u" "valid_net ?v" by code_simp+
  show ?thesis
    by (rule allocate_subnet_complete [of default_allocator 24 "[?u, ?v]", OF b]) (simp_all add: p u)
qed

end
