(* ===== verification/ManagerState.thy ===== *)
theory ManagerState
  imports Database Dataset Pf SubnetAllocator
begin

text \<open>
  The state of \<open>JailManager\<close> (\<open>app2/JailManager_.py\<close>): its connection to the database, the worker's
  socket, the storage driver and the allocator of subnets.  \<open>cur\<close> is the database as the open
  transaction sees it, \<open>saved\<close> what is committed: a statement that changes a table opens a
  transaction, which stays open, whatever happens, until the next commit or rollback.
\<close>

section \<open>State\<close>

record mgr = world +
  cur :: db
  saved :: db
  worker :: bool
  storage :: driver
  subnetallocator :: subnet_allocator

definition VOLUME_MOUNT_ROOT :: string where
  "VOLUME_MOUNT_ROOT = ''/jails/volumes''"

definition CONTAINER_MOUNT_ROOT :: string where
  "CONTAINER_MOUNT_ROOT = ''/jails/containers''"

section \<open>Statements\<close>

text \<open>A SELECT; a statement that changes the tables or fails leaving them as they are; COMMIT and
  ROLLBACK.\<close>

definition sql_query :: "(db \<Rightarrow> 'a) \<Rightarrow> ('x mgr_scheme, 'a) comp" where
  "sql_query f = gets (\<lambda>w. f (cur w))"

definition sql_exec :: "(db \<Rightarrow> (db \<times> 'a) res) \<Rightarrow> ('x mgr_scheme, 'a) comp" where
  "sql_exec f = (\<lambda>w. case f (cur w) of
      Inl e \<Rightarrow> (Inl e, w)
    | Inr (d, x) \<Rightarrow> (Inr x, w\<lparr>cur := d\<rparr>))"

definition sql_run :: "(db \<Rightarrow> db res) \<Rightarrow> ('x mgr_scheme, unit) comp" where
  "sql_run f = sql_exec (\<lambda>d. bindR (f d) (\<lambda>d'. Inr (d', ())))"

definition sql_commit :: "('x mgr_scheme, unit) comp" where
  "sql_commit = modify (\<lambda>w. w\<lparr>saved := cur w\<rparr>)"

definition sql_rollback :: "('x mgr_scheme, unit) comp" where
  "sql_rollback = modify (\<lambda>w. w\<lparr>cur := saved w\<rparr>)"

text \<open>A row as a dictionary of its columns.\<close>

abbreviation jnat :: "nat \<Rightarrow> json" where
  "jnat n \<equiv> JInt (int n)"

text \<open>An exception in a message is given by its class; the text the operating system has for an errno
  is given by the number.\<close>

fun exn_text :: "exn \<Rightarrow> string" where
  "exn_text (OSError n) = dec_int n"
| "exn_text (JailException s) = s"
| "exn_text (GenericException s) = s"
| "exn_text TypeError = ''TypeError''"
| "exn_text AttributeError = ''AttributeError''"
| "exn_text NameError = ''NameError''"
| "exn_text ValueError = ''ValueError''"
| "exn_text KeyError = ''KeyError''"
| "exn_text IndexError = ''IndexError''"
| "exn_text IntegrityError = ''IntegrityError''"
| "exn_text OperationalError = ''OperationalError''"
| "exn_text InterfaceError = ''InterfaceError''"
| "exn_text _ = ''Error''"

lemma sql_query_apply [comp_simps]: "sql_query f w = (Inr (f (cur w)), w)"
  by (simp add: sql_query_def)

lemma bindM_sql_query_apply: "bindM (sql_query q) f w = f (q (cur w)) w"
  by (simp add: bindM_apply sql_query_apply)

lemmas query_simps = bindM_liftR_apply bindM_sql_query_apply

lemma sql_exec_apply [comp_simps]:
  "sql_exec f w = (case f (cur w) of Inl e \<Rightarrow> (Inl e, w) | Inr (d, x) \<Rightarrow> (Inr x, w\<lparr>cur := d\<rparr>))"
  by (simp add: sql_exec_def)

lemma sql_run_apply [comp_simps]:
  "sql_run f w = (case f (cur w) of Inl e \<Rightarrow> (Inl e, w) | Inr d \<Rightarrow> (Inr (), w\<lparr>cur := d\<rparr>))"
  by (simp add: sql_run_def sql_exec_def split: sum.splits)

lemma sql_end_apply [comp_simps]:
  "sql_commit w = (Inr (), w\<lparr>saved := cur w\<rparr>)"
  "sql_rollback w = (Inr (), w\<lparr>cur := saved w\<rparr>)"
  by (simp_all add: sql_commit_def sql_rollback_def)

lemma triple_query:
  "(\<And>y. triple (\<lambda>w. P w \<and> q (cur w) = y) (f y) Q) \<Longrightarrow> triple P (bindM (sql_query q) f) Q"
  unfolding sql_query_def by (rule triple_gets)

section \<open>Invariants of the two databases\<close>

text \<open>\<open>both P\<close>: the pending and the committed tables satisfy \<open>P\<close>; commit and rollback keep that.\<close>

definition both :: "(db \<Rightarrow> bool) \<Rightarrow> 'x mgr_scheme \<Rightarrow> bool" where
  "both P w \<longleftrightarrow> P (cur w) \<and> P (saved w)"

named_theorems mgr_keeps \<open>statements keep invariants of the tables\<close>

lemma both_trace [simp]: "both P (w\<lparr>trace := t\<rparr>) = both P w"
  by (simp add: both_def)

lemma keeps_sql_query [mgr_keeps]: "keeps I (sql_query f)"
  by (simp add: sql_query_def keeps_gets)

lemma keeps_sql_exec:
  "(\<And>d d' x. P d \<Longrightarrow> f d = Inr (d', x) \<Longrightarrow> P d') \<Longrightarrow> keeps (both P) (sql_exec f)"
  by (rule keepsI) (auto simp: sql_exec_apply both_def split: sum.splits)

lemma keeps_sql_run:
  "(\<And>d d'. P d \<Longrightarrow> f d = Inr d' \<Longrightarrow> P d') \<Longrightarrow> keeps (both P) (sql_run f)"
  by (rule keepsI) (auto simp: sql_run_apply both_def split: sum.splits)

lemma keeps_sql_end [mgr_keeps]: "keeps (both P) sql_commit" "keeps (both P) sql_rollback"
  by (auto simp: keeps_def sql_end_apply both_def)

lemma keeps_env [mgr_keeps]:
  "keeps (both P) (libc c)" "keeps (both P) (pycall c)" "keeps (both P) (do_call c)"
  by (intro keeps_calls both_trace)+

lemma emits_sql [emits_rules]:
  "emits P (sql_query f)" "emits P (sql_exec g)" "emits P (sql_run h)" "emits P sql_commit"
  "emits P sql_rollback"
  by (auto simp: emits_def sql_query_apply sql_exec_apply sql_run_apply sql_end_apply split: sum.splits)

end
