(* ===== verification/Helpers.thy ===== *)
theory Helpers
  imports NetIf
begin

text \<open>
  \<open>app2/helpers.py\<close>: what the jail code does with the wrappers, its error codes, and the pure
  conversions: a dictionary to iovecs, a prefix length to a netmask, sizes to bytes, limits to
  resource-control rules.  A name the source never binds (\<open>bol\<close>, \<open>CINVALD\<close>, \<open>host_path\<close>) is a
  NameError where it is evaluated.
\<close>

section \<open>Error codes\<close>

definition CENOERR :: int where "CENOERR = 0"
definition CERROR :: int where "CERROR = - 1"
definition CENOJAIL :: int where "CENOJAIL = - 1"
definition CENOPATH :: int where "CENOPATH = - 3"
definition CEINVALD :: int where "CEINVALD = - 4"
definition CEATTERR :: int where "CEATTERR = - 5"
definition CEMNTPOT :: int where "CEMNTPOT = - 6"
definition CEMNTDEV :: int where "CEMNTDEV = - 7"
definition CEUMNTERR :: int where "CEUMNTERR = - 8"

lemmas error_codes = CENOERR_def CERROR_def CENOJAIL_def CENOPATH_def CEINVALD_def CEATTERR_def
  CEMNTPOT_def CEMNTDEV_def CEUMNTERR_def

text \<open>The two exceptions of the module, with their messages.\<close>

definition JailDoesNotExist :: "string \<Rightarrow> exn" where
  "JailDoesNotExist jail_name = JailException (''Unable to find jail: '' @ jail_name)"

definition CustomException :: "string \<Rightarrow> string \<Rightarrow> exn" where
  "CustomException err_msg jail_name = JailException (''Jail '' @ jail_name @ '': '' @ err_msg)"

section \<open>Jails\<close>

text \<open>\<open>bool\<close> is a subclass of \<open>int\<close>: the branch for booleans is never reached, they are passed as
  the ints 0 and 1.\<close>

fun scalar_iovec :: "string \<Rightarrow> json \<Rightarrow> iovec list" where
  "scalar_iovec key (JStr s) = str_iovec key s"
| "scalar_iovec key (JInt n) = int_iovec key n"
| "scalar_iovec key (JBool b) = int_iovec key (if b then 1 else 0)"
| "scalar_iovec key _ = []"

definition address_iovec :: "string \<Rightarrow> json \<Rightarrow> ('x world_scheme, iovec list) comp" where
  "address_iovec key val =
     (if key = ''ip4.addr'' then
        (case val of
           JStr s \<Rightarrow> addr_iovec [JStr s]
         | JList xs \<Rightarrow> addr_iovec xs
         | JObj d \<Rightarrow> addr_iovec (map (\<lambda>(k, v). JStr k) d)
         | _ \<Rightarrow> ret [])
      else ret [])"

fun entries_iovec :: "json dict \<Rightarrow> ('x world_scheme, iovec list) comp" where
  "entries_iovec [] = ret []"
| "entries_iovec ((key, val) # rest) =
     bindM (address_iovec key val) (\<lambda>as.
     bindM (entries_iovec rest) (\<lambda>is. ret (as @ scalar_iovec key val @ is)))"

definition json_to_iovec :: "json dict \<Rightarrow> ('x world_scheme, iovec list) comp" where
  "json_to_iovec data = bindM (entries_iovec data) (\<lambda>is. ret (is @ errmsg_iovec))"

definition jail_get_id :: "string \<Rightarrow> ('x world_scheme, int) comp" where
  "jail_get_id name = (if name = [] then ret (- 1) else get_jail_id_by_name name)"

definition start_jail_from_json :: "json dict \<Rightarrow> ('x world_scheme, int) comp" where
  "start_jail_from_json data = bindM (json_to_iovec data) (\<lambda>iovs. jail_set_wrapper iovs 1)"

definition remove_jail_from_name :: "string \<Rightarrow> ('x world_scheme, int) comp" where
  "remove_jail_from_name name =
     (if name = [] then ret (- 1)
      else bindM (get_jail_id_by_name name) (\<lambda>jid.
        if jid < 0 then ret CENOJAIL
        else tryM is_OSError (seqM (jail_remove_wrapper jid) (ret CENOERR)) (\<lambda>e. ret CERROR)))"

definition jail_attach :: "string \<Rightarrow> ('x world_scheme, int) comp" where
  "jail_attach name =
     (if name = [] then ret CENOJAIL
      else bindM (get_jail_id_by_name name) (\<lambda>jid.
        if jid < 0 then ret CENOJAIL
        else bindM (jail_attach_wrapper jid) (\<lambda>res. ret (if res \<noteq> 0 then CENOJAIL else CENOERR))))"

definition set_proc_title :: "string \<Rightarrow> ('x world_scheme, unit) comp" where
  "set_proc_title name = set_proc_title_wrapper name"

section \<open>Interfaces\<close>

text \<open>The empty name is answered with -1, which is true.\<close>

definition check_interface_exist :: "string \<Rightarrow> ('x world_scheme, bool) comp" where
  "check_interface_exist name =
     (if name = [] then ret True else bindM (get_if_index name True) (\<lambda>i. ret (i \<noteq> - 1)))"

definition create_bridge :: "string \<Rightarrow> ('x world_scheme, string option) comp" where
  "create_bridge name =
     (if name \<noteq> [] then raise NameError
      else tryM is_OSError (bindM (create_interface ''bridge'' True) (\<lambda>i. ret (Some i))) (\<lambda>e. ret None))"

definition create_epair :: "string \<Rightarrow> bool \<Rightarrow> ('x world_scheme, string option) comp" where
  "create_epair name own =
     (if name \<noteq> [] then raise NameError
      else tryM is_OSError (bindM (create_interface ''epair'' own) (\<lambda>i. ret (Some i))) (\<lambda>e. ret None))"

definition destroy_if :: "string \<Rightarrow> ('x world_scheme, int) comp" where
  "destroy_if name =
     (if name = [] then ret CEINVALD
      else tryM is_OSError (seqM (destroy_interface name True) (ret CENOERR)) (\<lambda>e. ret CERROR))"

definition attach_vnet_ifaces :: "string \<Rightarrow> string \<Rightarrow> ('x world_scheme, int) comp" where
  "attach_vnet_ifaces j_name if_name =
     bindM (get_jail_id_by_name j_name) (\<lambda>jid.
       if jid < 0 then ret CENOJAIL
       else tryM is_OSError (seqM (move_to_jail if_name jid True) (ret CENOERR)) (\<lambda>e. ret CERROR))"

definition deattach_vnet_ifaces :: "string \<Rightarrow> string \<Rightarrow> ('x world_scheme, int) comp" where
  "deattach_vnet_ifaces j_name if_name =
     bindM (get_jail_id_by_name j_name) (\<lambda>jid.
       if jid < 0 then ret CENOJAIL
       else tryM is_OSError (seqM (remove_from_jail if_name jid True) (ret CENOERR)) (\<lambda>e. ret CERROR))"

definition set_if_address ::
  "string \<Rightarrow> string \<Rightarrow> string \<Rightarrow> string option \<Rightarrow> ('x world_scheme, int) comp" where
  "set_if_address if_name ip_addr net_mask brodcast_addr =
     tryM is_OSError
       (seqM (set_ip_address if_name ip_addr net_mask brodcast_addr True) (ret CENOERR))
       (\<lambda>e. ret CERROR)"

section \<open>Mounts\<close>

text \<open>\<open>path\<close> is what \<open>dict.get("path")\<close> returned.  The two functions differ in the directory under
  the root and in the file system.\<close>

definition mount_under ::
  "json \<Rightarrow> string \<Rightarrow> (string \<Rightarrow> ('x world_scheme, int) comp) \<Rightarrow> ('x world_scheme, int) comp" where
  "mount_under path sub mount =
     (if \<not> truthy path then raise NameError
      else bindM (liftR (as_str TypeError path)) (\<lambda>root.
        bindM (pycall (FsC (PathExists root))) (\<lambda>r.
        if rv r = 0 then ret CENOPATH
        else (let dev_path = path_join root sub in
          bindM (pycall (FsC (PathExists dev_path))) (\<lambda>r.
          seqM (whenM (rv r = 0) (do_call (FsC (Mkdir dev_path))))
          (bindM (pycall (FsC (PathIsmount dev_path))) (\<lambda>r.
          if rv r \<noteq> 0 then ret CEMNTPOT
          else bindM (mount dev_path) (\<lambda>res. ret (if res \<noteq> 0 then CEMNTDEV else CENOERR))))))))) "

definition mount_jail_defvs :: "json \<Rightarrow> json \<Rightarrow> ('x world_scheme, int) comp" where
  "mount_jail_defvs path ruleset = mount_under path ''dev'' (\<lambda>p. mount_devfs p ruleset)"

definition mount_jail_tmpfs :: "json \<Rightarrow> ('x world_scheme, int) comp" where
  "mount_jail_tmpfs path = mount_under path ''tmp'' mount_tmpfs"

definition unmount_jail_mounts :: "string \<Rightarrow> ('x world_scheme, int) comp" where
  "unmount_jail_mounts path =
     tryM is_OSError (seqM (unmount path) (ret CENOERR)) (\<lambda>e. ret CEUMNTERR)"

definition unmount_jail_defvs :: "json \<Rightarrow> ('x world_scheme, int) comp" where
  "unmount_jail_defvs path =
     bindM (liftR (as_str TypeError path)) (\<lambda>root.
       tryM is_OSError (seqM (unmount (path_join root ''dev'')) (ret CENOERR)) (\<lambda>e. ret CEUMNTERR))"

definition unmount_jail_tmpfs :: "json \<Rightarrow> ('x world_scheme, int) comp" where
  "unmount_jail_tmpfs path =
     bindM (liftR (as_str TypeError path)) (\<lambda>root.
       tryM is_OSError (seqM (unmount (path_join root ''tmp'')) (ret CENOERR)) (\<lambda>e. ret CEUMNTERR))"

definition mount_host_to_jail :: "string \<Rightarrow> string \<Rightarrow> int \<Rightarrow> ('x world_scheme, int) comp" where
  "mount_host_to_jail jail_path host_path flags =
     bindM (mount_nullfs jail_path host_path flags) (\<lambda>res. ret (if res \<noteq> 0 then CERROR else CENOERR))"

definition mount_jail_unionfs :: "string \<Rightarrow> string \<Rightarrow> int \<Rightarrow> ('x world_scheme, int) comp" where
  "mount_jail_unionfs image_path container_root flags =
     bindM (mount_unionfs image_path container_root flags) (\<lambda>res.
       if res \<noteq> 0 then raise NameError else ret CENOERR)"

section \<open>Kernel settings\<close>

definition sysctl_set_int :: "string \<Rightarrow> int \<Rightarrow> ('x world_scheme, unit) comp" where
  "sysctl_set_int name val =
     bindM (libc (JailC (Sysctl_set name (word_of_int val)))) (\<lambda>r.
       if rv r \<noteq> 0 then raise (OSError (rerrno r)) else ret ())"

text \<open>The value is read into one byte.\<close>

definition sysctl_get_int :: "string \<Rightarrow> ('x world_scheme, int) comp" where
  "sysctl_get_int name =
     bindM (libc (JailC (Sysctl_get name))) (\<lambda>r.
       if rv r \<noteq> 0 then raise (OSError (rerrno r)) else ret (uint (take_bit 8 (raddr r))))"

lemmas helper_defs = addr_iovec_def address_iovec_def json_to_iovec_def jail_get_id_def
  start_jail_from_json_def remove_jail_from_name_def jail_attach_def set_proc_title_def
  check_interface_exist_def create_bridge_def create_epair_def destroy_if_def attach_vnet_ifaces_def
  deattach_vnet_ifaces_def set_if_address_def mount_under_def mount_jail_defvs_def
  mount_jail_tmpfs_def unmount_jail_mounts_def unmount_jail_defvs_def unmount_jail_tmpfs_def
  mount_host_to_jail_def mount_jail_unionfs_def sysctl_set_int_def sysctl_get_int_def

lemma appends_entries_iovec [emits_rules]: "appends (entries_iovec d)"
proof (induction d rule: entries_iovec.induct)
  case (2 key val rest)
  then show ?case unfolding entries_iovec.simps address_iovec_def by (intro emits_rules)
qed (simp only: entries_iovec.simps emits_ret)

lemma appends_helpers [emits_rules]:
  "appends (json_to_iovec d)" "appends (jail_get_id n)" "appends (start_jail_from_json d)"
  "appends (remove_jail_from_name n)" "appends (jail_attach n)" "appends (set_proc_title n)"
  "appends (check_interface_exist n)" "appends (create_bridge n)" "appends (create_epair n own)"
  "appends (destroy_if n)" "appends (attach_vnet_ifaces j i)" "appends (deattach_vnet_ifaces j i)"
  "appends (set_if_address i ip nm bc)" "appends (mount_jail_defvs p ruleset)"
  "appends (mount_jail_tmpfs p)" "appends (unmount_jail_mounts s)" "appends (unmount_jail_defvs p)"
  "appends (unmount_jail_tmpfs p)" "appends (mount_host_to_jail s s' flags)"
  "appends (mount_jail_unionfs s s' flags)" "appends (sysctl_set_int n v)" "appends (sysctl_get_int n)"
  unfolding helper_defs Let_def by (intro emits_rules)+

section \<open>Properties of the iovecs\<close>

fun iov_pairs :: "iovec list \<Rightarrow> (iovec \<times> iovec) list" where
  "iov_pairs (k # v # rest) = (k, v) # iov_pairs rest"
| "iov_pairs _ = []"

fun scalar :: "json \<Rightarrow> iovec option" where
  "scalar (JStr s) = Some (cstr s)"
| "scalar (JInt n) = Some (IovCInt (word_of_int n))"
| "scalar (JBool b) = Some (IovCInt (if b then 1 else 0))"
| "scalar _ = None"

lemma entries_iovec_plain:
  "''ip4.addr'' \<notin> fst ` set d \<Longrightarrow>
   entries_iovec d = ret (concat (map (\<lambda>(k, v). scalar_iovec k v) d))"
proof (induction d rule: entries_iovec.induct)
  case (2 key val rest)
  then have key: "key \<noteq> ''ip4.addr''" "''ip4.addr'' \<notin> fst ` set rest" by auto
  show ?case
    unfolding entries_iovec.simps address_iovec_def "2.IH" [OF key(2)]
    by (simp only: key if_False bindM_ret) simp
qed simp

lemma iov_pairs_scalars:
  "iov_pairs (concat (map (\<lambda>(k, v). scalar_iovec k v) d) @ rest) =
     concat (map (\<lambda>(k, v). case scalar v of None \<Rightarrow> [] | Some i \<Rightarrow> [(cstr k, i)]) d) @ iov_pairs rest"
proof (induction d)
  case (Cons p d)
  obtain k v where "p = (k, v)" by force
  with Cons show ?case by (cases v) (simp_all add: str_iovec_def int_iovec_def)
qed simp

text \<open>
  The array for \<open>jail_set\<close> holds one key and value for every text, number or boolean of the
  dictionary, in its order and NUL-terminated, and the error buffer last; booleans go as the C ints
  0 and 1, so no key is ever passed in its \<open>no...\<close> form.
\<close>

theorem json_to_iovec_pairs:
  assumes "''ip4.addr'' \<notin> fst ` set data"
  shows "\<exists>iovs. json_to_iovec data w = (Inr iovs, w) \<and> even (length iovs) \<and>
    iov_pairs iovs = concat (map (\<lambda>(k, v). case scalar v of None \<Rightarrow> [] | Some i \<Rightarrow> [(cstr k, i)]) data)
      @ [(cstr ''errmsg'', IovBuffer 256)]"
proof -
  let ?is = "concat (map (\<lambda>(k, v). scalar_iovec k v) data)"
  have "even (length ?is)"
  proof (induction data)
    case (Cons p d)
    then show ?case by (cases p; cases "snd p") (auto simp: str_iovec_def int_iovec_def)
  qed simp
  then show ?thesis
    using iov_pairs_scalars [of data errmsg_iovec]
    by (simp add: json_to_iovec_def entries_iovec_plain [OF assms] errmsg_iovec_def)
qed

theorem json_to_iovec_pairs_witness:
  "\<exists>(w :: unit world_scheme) iovs.
     json_to_iovec [(''name'', JStr ''web''), (''persist'', JBool True), (''vnet'', JBool False)] w = (Inr iovs, w) \<and>
     iov_pairs iovs = [(cstr ''name'', cstr ''web''), (cstr ''persist'', IovCInt 1), (cstr ''vnet'', IovCInt 0),
       (cstr ''errmsg'', IovBuffer 256)]"
proof -
  let ?w = "\<lparr>kern = \<lambda>_ _. ok_ret, trace = []\<rparr>"
  let ?d = "[(''name'', JStr ''web''), (''persist'', JBool True), (''vnet'', JBool False)]"
  have "''ip4.addr'' \<notin> fst ` set ?d" by simp
  from json_to_iovec_pairs [OF this, of ?w] show ?thesis
    by (intro exI [of _ ?w]) auto
qed

end
