(* ===== verification/Networks.thy ===== *)
theory Networks
  imports ManagerState Helpers
begin

text \<open>
  The part of \<open>JailManager\<close> (\<open>app2/JailManager_.py\<close>) that keeps networks: creating and starting
  them, the addresses of containers, the redirection of ports.
\<close>

section \<open>Subnets\<close>

text \<open>\<open>ipaddress.ip_network\<close> of a JSON value: text, or an int as an address with all 32 bits.\<close>

fun network_arg :: "json \<Rightarrow> ipv4_network res" where
  "network_arg (JStr s) = ip_network s"
| "network_arg (JInt n) =
     (if 0 \<le> n \<and> n < 2 ^ 32 then Inr \<lparr>net_addr = word_of_int n, net_prefix = 32\<rparr> else Inl ValueError)"
| "network_arg (JBool b) = Inr \<lparr>net_addr = (if b then 1 else 0), net_prefix = 32\<rparr>"
| "network_arg _ = Inl ValueError"

definition is_valid_subnet :: "json \<Rightarrow> ipv4_network option" where
  "is_valid_subnet subnet = (case network_arg subnet of Inr n \<Rightarrow> Some n | Inl _ \<Rightarrow> None)"

definition subnet_row_text :: "subnet_row \<Rightarrow> string" where
  "subnet_row_text r = s_subnet r @ ''/'' @ dec (s_prefix r)"

definition get_allocated_networks :: "('x mgr_scheme, ipv4_network list) comp" where
  "get_allocated_networks =
     bindM (sql_query allocated_subnets) (\<lambda>rows.
     liftR (mapR (\<lambda>r. ip_network (subnet_row_text r)) rows))"

text \<open>The subnet of a new network, or the message that ends the attempt.  The allocator is asked for
  its default length; unpacking its None raises TypeError.\<close>

definition choose_subnet :: "json dict \<Rightarrow> ('x mgr_scheme, string + string \<times> nat) comp" where
  "choose_subnet kwargs =
     (let subnet = dget kwargs ''subnet'' JNull in
      if truthy subnet then
        (case is_valid_subnet subnet of
           None \<Rightarrow> ret (Inl ''Invalid Subnet'')
         | Some parsed_net \<Rightarrow>
             seqM (whenM (\<not> truthy (dget kwargs ''gateway'' JNull))
                    (bindM (liftR (next_host parsed_net)) (\<lambda>h. ret ())))
               (ret (Inr (ip_str (net_addr parsed_net), net_prefix parsed_net))))
      else
        bindM get_allocated_networks (\<lambda>allocated.
        bindM (gets subnetallocator) (\<lambda>a.
        bindM (liftR (allocate_subnet a allocated 24)) (\<lambda>found.
        case found of None \<Rightarrow> raise TypeError | Some sp \<Rightarrow> ret (Inr sp)))))"

section \<open>Networks\<close>

text \<open>The result is the name of the network with its subnet, or None with a message.\<close>

definition create_network :: "json \<Rightarrow> json dict \<Rightarrow> ('x mgr_scheme, json \<times> string) comp" where
  "create_network name kwargs =
     bindM (liftR (bind_text name)) (\<lambda>key.
     bindM (sql_query (\<lambda>d. find_text n_name key (networks d))) (\<lambda>row.
     if row \<noteq> None then ret (JNull, py_repr name @ '' already exists'')
     else bindM (choose_subnet kwargs) (\<lambda>chosen.
       case chosen of
         Inl msg \<Rightarrow> ret (JNull, msg)
       | Inr (subnet, plen) \<Rightarrow>
           if subnet = [] then ret (JNull, ''No Empty Network'')
           else tryM (\<lambda>e. e = IntegrityError)
             (seqM (sql_run (insert_subnet_row subnet plen))
             (seqM (sql_run (insert_network_row key subnet plen))
             (seqM sql_commit (ret (name, subnet @ ''/'' @ dec plen)))))
             (\<lambda>e. ret (JNull, ''Failed to create network'')))))"

definition get_networks :: "('x mgr_scheme, json) comp" where
  "get_networks = sql_query (\<lambda>d. JList (map (\<lambda>r.
     JObj [(''id'', jnat (n_id r)), (''name'', JStr (n_name r)), (''driver'', JStr (n_driver r))]) (networks d)))"

text \<open>The rule that sends name queries of the network to the resolver.\<close>

definition dns_rdr_rule :: "string \<Rightarrow> string \<Rightarrow> string \<Rightarrow> int \<Rightarrow> ('x mgr_scheme, unit) comp" where
  "dns_rdr_rule name cidr ip quick =
     pfctl_append_rdr_rule_generic (JStr name) (''cni-rdr/'' @ name) cidr (JStr ip)
       (JList [JStr ''127.0.0.11/32'']) (JInt 53) (JInt (- 1)) (JInt 53) 17 quick"

definition setup_network_if ::
  "string \<Rightarrow> string \<Rightarrow> ipv4 \<Rightarrow> ipv4 \<Rightarrow> ('x mgr_scheme, string option \<times> string option) comp" where
  "setup_network_if name cidr ip nm =
     tryM is_OSError
       (bindM (create_interface ''bridge'' True) (\<lambda>if_name.
        seqM (rename_interface if_name name True)
        (bindM (set_interface_group name ''jailnet'' True) (\<lambda>_.
        bindM (set_ip_address name (ip_str ip) (ip_str nm) None True) (\<lambda>_.
        seqM (dns_rdr_rule name cidr (ip_str ip) 0) (ret (Some (ip_str ip), None)))))))
       (\<lambda>e. ret (None, Some (''Failed to create network '' @ repr_str name @ '': '' @ exn_text e)))"

definition start_network :: "string \<Rightarrow> ('x mgr_scheme, string option \<times> string option) comp" where
  "start_network name =
     (if name = ''host'' then ret (Some name, None)
      else bindM (sql_query (\<lambda>d. find_row n_name name (networks d))) (\<lambda>row.
      case row of
        None \<Rightarrow> ret (None, Some (repr_str name @ '' doesn't exist''))
      | Some r \<Rightarrow>
          let cidr = n_subnet r @ ''/'' @ dec (n_prefix r) in
          bindM (liftR (ip_network cidr)) (\<lambda>ip_net.
          bindM (liftR (next_host ip_net)) (\<lambda>h.
          bindM (liftR (ip_interface (ip_str h @ ''/'' @ dec (n_prefix r)))) (\<lambda>(ip, nm).
          bindM (check_interface_exist name) (\<lambda>present.
          if present then
            seqM (tryM is_Exception (dns_rdr_rule name cidr (ip_str ip) 1) (\<lambda>e. ret ()))
              (ret (Some (ip_str ip), None))
          else setup_network_if name cidr ip nm))))))"

section \<open>Addresses of containers\<close>

text \<open>\<open>allocate_ip\<close>: the first host is skipped, then the first one not in use is taken.\<close>

definition allocate_ip :: "string list \<Rightarrow> string \<Rightarrow> ipv4 option res" where
  "allocate_ip used_ips subnet_cidr =
     bindR (ip_network subnet_cidr) (\<lambda>subnet.
     bindR (hosts_iter subnet) (\<lambda>host_iter.
     case host_iter of
       [] \<Rightarrow> Inr None
     | _ # rest \<Rightarrow> Inr (first_free (\<lambda>ip used. ip_str ip = used) used_ips rest)))"

definition get_free_ip_for_network :: "nat \<Rightarrow> ('x mgr_scheme, ipv4 option) comp" where
  "get_free_ip_for_network network_id =
     bindM (sql_query (\<lambda>d. map cn_ip (filter (\<lambda>r. cn_network r = network_id) (container_networks d)))) (\<lambda>used_ips.
     bindM (sql_query (\<lambda>d. find_row n_id network_id (networks d))) (\<lambda>row.
     case row of
       None \<Rightarrow> raise TypeError
     | Some r \<Rightarrow> liftR (allocate_ip used_ips (n_subnet r @ ''/'' @ dec (n_prefix r)))))"

definition attach_network :: "json \<Rightarrow> string \<Rightarrow> ('x mgr_scheme, string option) comp" where
  "attach_network container_name network_name =
     bindM (liftR (bind_text container_name)) (\<lambda>key.
     bindM (sql_query (\<lambda>d. find_text c_name key (containers d))) (\<lambda>cont.
     case cont of
       None \<Rightarrow> ret (Some ''No such Container'')
     | Some c \<Rightarrow>
     bindM (sql_query (\<lambda>d. find_row n_name network_name (networks d))) (\<lambda>network.
     case network of
       None \<Rightarrow> ret (Some ''No Such Network'')
     | Some n \<Rightarrow>
     bindM (sql_query (\<lambda>d. find_row (\<lambda>r. (cn_container r, cn_network r)) (c_id c, n_id n) (container_networks d))) (\<lambda>is_present.
     if is_present \<noteq> None then ret (Some ''Network Already Present'')
     else bindM (get_free_ip_for_network (n_id n)) (\<lambda>allocated_ip.
       case allocated_ip of
         None \<Rightarrow> seqM sql_rollback (ret (Some ''Failed to get free IP Address''))
       | Some ip \<Rightarrow>
           tryM is_Exception
             (seqM (sql_run (insert_container_network (n_id n) (c_id c) (ip_str ip)))
             (seqM sql_commit (ret None)))
             (\<lambda>e. seqM sql_rollback (ret (Some ''Failed to attach network''))))))))"

section \<open>Redirected ports\<close>

definition add_rdr_port :: "json \<Rightarrow> json \<Rightarrow> ('x mgr_scheme, unit) comp" where
  "add_rdr_port network port =
     bindM (liftR (jindex port ''host'')) (\<lambda>host.
     bindM (liftR (jindex port ''container'')) (\<lambda>container.
     bindM (liftR (jindex port ''rdr'')) (\<lambda>r.
     let rdr = (case r of JStr s \<Rightarrow> JList [r] | _ \<Rightarrow> r);
         anchor = ''cni-rdr/'' @ py_str network in
     bindM (liftR (jget port ''proto'' JNull)) (\<lambda>p.
     let proto = (if p = JStr ''udp'' then 17 else 6) in
     seqM (pfctl_append_rdr_rule_generic (JStr (CHR ''!'' # py_str network)) anchor ''0.0.0.0/0.0.0.0''
             (JStr ''(self)'') rdr container (JInt (- 1)) host proto 1)
       (tryM is_Exception
         (bindM (liftR (json_head rdr)) (\<lambda>first.
          pfctl_append_nat_rule_generic network anchor ''(lo0)'' first (JList [network]) (JInt (- 1))
            (JInt (- 1)) container proto 0))
         (\<lambda>e. ret ()))))))"

text \<open>Without data a bare 0 comes back, here None.\<close>

definition add_rdr_ports :: "json \<Rightarrow> ('x mgr_scheme, (int \<times> string) option) comp" where
  "add_rdr_ports data =
     (if \<not> truthy data then ret None
      else bindM (liftR (jget data ''network'' JNull)) (\<lambda>network.
        if \<not> truthy network then ret (Some (- 1, ''Network cannot be null''))
        else bindM (liftR (bindR (jget data ''ports'' (JList [])) json_iter)) (\<lambda>ports.
          seqM (forM ports (add_rdr_port network)) (ret (Some (0, ''''))))))"

definition clear_ruleset_before_close :: "('x mgr_scheme, unit) comp" where
  "clear_ruleset_before_close =
     bindM (sql_query networks) (\<lambda>rows.
     forM (sort_key n_name rows) (\<lambda>r. tryM is_Exception (pfctl_clear_ruleset (''cni-rdr/'' @ n_name r)) (\<lambda>e. ret ())))"

section \<open>What keeps the tables\<close>

text \<open>The functions of other components change nothing but the trace.\<close>

lemma keeps_components [keeps_calls]:
  assumes "\<And>w t. I (w\<lparr>trace := t\<rparr>) = I w"
  shows "keeps I (create_interface s own)" "keeps I (rename_interface s s' own)"
    "keeps I (set_interface_group s s' own)" "keeps I (set_ip_address s s' s'' bc own)"
    "keeps I (check_interface_exist s)" "keeps I (jail_get_id s)" "keeps I (remove_jail_from_name s)"
    "keeps I (kldload s)" "keeps I (sysctl_set_int s i)" "keeps I (sysctl_get_int s)"
  unfolding netif_defs helper_defs wrapper_defs Let_def
  by (intro keeps_rules keeps_calls; simp add: assms)+

lemma keeps_pf_rules [keeps_calls]:
  assumes "\<And>w t. I (w\<lparr>trace := t\<rparr>) = I w"
  shows "keeps I (pfctl_append_rdr_rule_generic ifn an src dst rdr rp sp dp af q)"
    "keeps I (pfctl_append_nat_rule_generic ifn an src dst rdr rp sp dp af q)"
    "keeps I (pfctl_clear_ruleset an)" "keeps I (pfctl_remove_rdr_port_rule an port af)"
    "keeps I (pfctl_remove_nat_port_rule an port af)" "keeps I pfctl_enable" "keeps I pfctl_disable"
  unfolding pf_rule_defs by (intro keeps_rules keeps_calls; simp add: assms)+

section \<open>Addresses are unique\<close>

text \<open>The address of a container in a network: one of the network that is not its first host, which
  the bridge has; or the text of None.\<close>

definition host_of :: "db \<Rightarrow> nat \<Rightarrow> string \<Rightarrow> bool" where
  "host_of d nid ip \<longleftrightarrow> (\<exists>n \<in> set (networks d). \<exists>net a. n_id n = nid \<and>
     ip_network (n_subnet n @ ''/'' @ dec (n_prefix n)) = Inr net \<and>
     in_net a net \<and> next_host net \<noteq> Inr a \<and> ip = ip_str a)"

definition addressed :: "container_network_row \<Rightarrow> bool" where
  "addressed r \<longleftrightarrow> cn_ip r \<noteq> ''None''"

definition addr_ok :: "db \<Rightarrow> bool" where
  "addr_ok d \<longleftrightarrow>
     distinct (map (\<lambda>r. (cn_network r, cn_ip r)) (filter addressed (container_networks d))) \<and>
     (\<forall>r \<in> set (container_networks d). addressed r \<longrightarrow> host_of d (cn_network r) (cn_ip r))"

text \<open>A free address: the host of its network that no row has.\<close>

definition free_ip :: "db \<Rightarrow> nat \<Rightarrow> string \<Rightarrow> bool" where
  "free_ip d nid ip \<longleftrightarrow> ip = ''None'' \<or>
     host_of d nid ip \<and> (\<forall>r \<in> set (container_networks d). cn_network r = nid \<longrightarrow> cn_ip r \<noteq> ip)"

text \<open>The life of a container knows three of the five statuses.\<close>

definition lifecycle :: "string list" where
  "lifecycle = [''created'', ''running'', ''exited'']"

definition life_ok :: "db \<Rightarrow> bool" where
  "life_ok d \<longleftrightarrow> (\<forall>r \<in> set (containers d). c_status r \<in> set lifecycle)"

definition good :: "db \<Rightarrow> bool" where
  "good d \<longleftrightarrow> db_ok d \<and> addr_ok d \<and> life_ok d"

lemma life_ok_same_rows: "life_ok d \<Longrightarrow> containers d' = containers d \<Longrightarrow> life_ok d'"
  by (simp add: life_ok_def)

lemma host_of_mono: "host_of d nid ip \<Longrightarrow> set (networks d) \<subseteq> set (networks d') \<Longrightarrow> host_of d' nid ip"
  unfolding host_of_def by blast

lemma addr_ok_same_rows:
  "addr_ok d \<Longrightarrow> container_networks d' = container_networks d \<Longrightarrow> set (networks d) \<subseteq> set (networks d') \<Longrightarrow>
   addr_ok d'"
  unfolding addr_ok_def using host_of_mono by metis

lemma addr_ok_insert:
  assumes "addr_ok d" "free_ip d nid ip" "insert_container_network nid cid ip d = Inr d'"
  shows "addr_ok d'"
proof -
  let ?r = "\<lparr>cn_id = next_cn d, cn_network = nid, cn_container = cid, cn_ip = ip\<rparr>"
  have rows: "container_networks d' = container_networks d @ [?r]" and nets: "networks d' = networks d"
    using assms(3) by (auto simp: insert_container_network_def bindR_eq_Inr insert_row_Inr)
  have host: "host_of d' i p = host_of d i p" for i p by (simp add: host_of_def nets)
  show ?thesis
    using assms(1,2) unfolding addr_ok_def rows host free_ip_def
    by (auto simp: addressed_def)
qed

lemma good_inserts:
  "good d \<Longrightarrow> insert_container_row nm im cf now pj sv gid d = Inr (d', i) \<Longrightarrow> good d'"
  "good d \<Longrightarrow> insert_network_row nm sn pl d = Inr d' \<Longrightarrow> good d'"
  "good d \<Longrightarrow> insert_subnet_row sn pl d = Inr d' \<Longrightarrow> good d'"
  "good d \<Longrightarrow> insert_volume_row nm dr pa now d = Inr d' \<Longrightarrow> good d'"
  "good d \<Longrightarrow> insert_volume_container vi ci d = Inr d' \<Longrightarrow> good d'"
proof -
  have addr: "addr_ok d \<Longrightarrow> insert_container_row nm im cf now pj sv gid d = Inr (d', i) \<Longrightarrow> addr_ok d'"
    "addr_ok d \<Longrightarrow> insert_network_row nm sn pl d = Inr d' \<Longrightarrow> addr_ok d'"
    "addr_ok d \<Longrightarrow> insert_subnet_row sn pl d = Inr d' \<Longrightarrow> addr_ok d'"
    "addr_ok d \<Longrightarrow> insert_volume_row nm dr pa now d = Inr d' \<Longrightarrow> addr_ok d'"
    "addr_ok d \<Longrightarrow> insert_volume_container vi ci d = Inr d' \<Longrightarrow> addr_ok d'"
    by (auto elim!: addr_ok_same_rows simp: insert_defs bindR_eq_Inr insert_row_Inr)
  have life: "life_ok d \<Longrightarrow> insert_container_row nm im cf now pj sv gid d = Inr (d', i) \<Longrightarrow> life_ok d'"
    "life_ok d \<Longrightarrow> insert_network_row nm sn pl d = Inr d' \<Longrightarrow> life_ok d'"
    "life_ok d \<Longrightarrow> insert_subnet_row sn pl d = Inr d' \<Longrightarrow> life_ok d'"
    "life_ok d \<Longrightarrow> insert_volume_row nm dr pa now d = Inr d' \<Longrightarrow> life_ok d'"
    "life_ok d \<Longrightarrow> insert_volume_container vi ci d = Inr d' \<Longrightarrow> life_ok d'"
    by (auto simp: life_ok_def lifecycle_def insert_defs bindR_eq_Inr insert_row_Inr)
  show "good d \<Longrightarrow> insert_container_row nm im cf now pj sv gid d = Inr (d', i) \<Longrightarrow> good d'"
    "good d \<Longrightarrow> insert_network_row nm sn pl d = Inr d' \<Longrightarrow> good d'"
    "good d \<Longrightarrow> insert_subnet_row sn pl d = Inr d' \<Longrightarrow> good d'"
    "good d \<Longrightarrow> insert_volume_row nm dr pa now d = Inr d' \<Longrightarrow> good d'"
    "good d \<Longrightarrow> insert_volume_container vi ci d = Inr d' \<Longrightarrow> good d'"
    unfolding good_def by (blast intro: addr life db_ok_inserts)+
qed

lemma good_insert_address:
  "good d \<Longrightarrow> free_ip d nid ip \<Longrightarrow> insert_container_network nid cid ip d = Inr d' \<Longrightarrow> good d'"
proof -
  assume d: "good d" "free_ip d nid ip" and ins: "insert_container_network nid cid ip d = Inr d'"
  then have "containers d' = containers d" by (auto simp: insert_container_network_def bindR_eq_Inr)
  with d ins show ?thesis
    unfolding good_def using addr_ok_insert db_ok_inserts(5) life_ok_same_rows by blast
qed

lemma good_update_status: "good d \<Longrightarrow> s \<in> set lifecycle \<Longrightarrow> good (update_status sel s d)"
proof -
  assume d: "good d" and s: "s \<in> set lifecycle"
  then have "s \<in> set statuses" by (auto simp: lifecycle_def statuses_def)
  with d have "db_ok (update_status sel s d)" by (simp add: good_def db_ok_update_status)
  moreover have "addr_ok (update_status sel s d)"
    using d by (auto simp: good_def update_status_def elim!: addr_ok_same_rows)
  moreover have "life_ok (update_status sel s d)"
    using d s by (auto simp: good_def life_ok_def update_status_def)
  ultimately show ?thesis by (simp add: good_def)
qed

lemma keeps_inserts [mgr_keeps]:
  "keeps (both good) (sql_run (insert_network_row nm sn pl))"
  "keeps (both good) (sql_run (insert_subnet_row sn pl))"
  "keeps (both good) (sql_run (insert_volume_row nm dr pa now))"
  "keeps (both good) (sql_run (insert_volume_container vi ci))"
  "keeps (both good) (sql_exec (insert_container_row nm im cf now pj sv gid))"
  by (rule keeps_sql_run keeps_sql_exec, erule (1) good_inserts)+

section \<open>Choosing an address\<close>

text \<open>The search is an instance of the first-fit search, with the hosts after the first as candidates.\<close>

definition host_candidates :: "ipv4_network \<Rightarrow> ipv4 list" where
  "host_candidates n = (if valid_net n then (case hosts_iter n of Inr (_ # rest) \<Rightarrow> rest | _ \<Rightarrow> []) else [])"

interpretation host_search: first_fit host_candidates "\<lambda>ip used. ip_str ip = used" "\<lambda>n used. True" "\<lambda>n used. 1"
proof
  fix k
  show "distinct (host_candidates k)"
    using hosts_iter_distinct [of k] by (auto simp: host_candidates_def split: sum.splits list.splits)
next
  fix k u
  have "c = c'" if "ip_str c = u" "ip_str c' = u" for c c' using that by (metis ip_str_inject)
  then have "card {c \<in> set (host_candidates k). ip_str c = u} \<le> Suc 0" by (auto simp: card_le_Suc0_iff_eq)
  then show "card {c \<in> set (host_candidates k). ip_str c = u} \<le> 1" by simp
qed

lemma allocate_ip_candidates:
  assumes "ip_network s = Inr n" "net_prefix n \<noteq> 32"
  shows "allocate_ip used s = Inr (first_free (\<lambda>ip u. ip_str ip = u) used (host_candidates n))"
proof -
  have "\<exists>hs. hosts_iter n = Inr hs" using assms(2) by (simp add: hosts_iter_def)
  then obtain hs where "hosts_iter n = Inr hs" by blast
  then show ?thesis
    using assms ip_network_valid [OF assms(1)]
    by (cases hs) (simp_all add: allocate_ip_def host_candidates_def)
qed

lemma host_candidatesD:
  assumes "a \<in> set (host_candidates n)"
  shows "valid_net n \<and> in_net a n \<and> next_host n \<noteq> Inr a"
proof -
  have v: "valid_net n" using assms by (cases "valid_net n") (simp_all add: host_candidates_def)
  obtain h rest where h: "hosts_iter n = Inr (h # rest)" "a \<in> set rest"
  proof (cases "hosts_iter n")
    case (Inr hs)
    with assms v that show ?thesis by (cases hs) (simp_all add: host_candidates_def)
  qed (use assms v in \<open>simp add: host_candidates_def\<close>)
  then have "in_net a n" "a \<noteq> h"
    using v hosts_iter_in_net [of n "h # rest"] hosts_iter_distinct [of n "h # rest"] by auto
  with v h show ?thesis by (simp add: next_host_def)
qed

lemma get_free_ip_pure: "get_free_ip_for_network i w = (r, w') \<Longrightarrow> w' = w"
  by (auto simp: get_free_ip_for_network_def comp_simps liftR_def split: option.splits)

lemma get_free_ip_free:
  assumes "get_free_ip_for_network nid w = (Inr (Some a), w')"
  shows "free_ip (cur w) nid (ip_str a) \<and> host_of (cur w) nid (ip_str a)"
proof -
  let ?used = "map cn_ip (filter (\<lambda>r. cn_network r = nid) (container_networks (cur w)))"
  from assms obtain n where n: "find_row n_id nid (networks (cur w)) = Some n"
    and al: "allocate_ip ?used (n_subnet n @ ''/'' @ dec (n_prefix n)) = Inr (Some a)"
    by (auto simp: get_free_ip_for_network_def comp_simps liftR_def split: option.splits)
  have row: "n \<in> set (networks (cur w))" "n_id n = nid"
    using n by (auto simp: find_row_def find_Some_iff)
  from al obtain net where net: "ip_network (n_subnet n @ ''/'' @ dec (n_prefix n)) = Inr net"
    and "\<exists>hs. hosts_iter net = Inr hs" unfolding allocate_ip_def bindR_eq_Inr by blast
  then have "net_prefix net \<noteq> 32" by (auto simp: hosts_iter_def)
  with al net have "first_free (\<lambda>ip u. ip_str ip = u) ?used (host_candidates net) = Some a"
    by (simp add: allocate_ip_candidates)
  note found = host_search.found [OF this]
  then have "host_of (cur w) nid (ip_str a)"
    using row net host_candidatesD [of a net] unfolding host_of_def by blast
  with found show ?thesis by (auto simp: free_ip_def)
qed

section \<open>The operations keep the invariant\<close>

lemma both_goodD: "both good w \<Longrightarrow> good (cur w)"
  by (simp add: both_def)

lemma store_address_good:
  "both good w \<Longrightarrow> free_ip (cur w) nid ip \<Longrightarrow>
   both good (snd (tryM is_Exception (seqM (sql_run (insert_container_network nid cid ip)) (seqM sql_commit (ret x)))
     (\<lambda>e. seqM sql_rollback (ret y)) w))"
  by (auto simp: comp_simps both_def dest: good_insert_address split: sum.splits)

lemma keeps_attach_network [mgr_keeps]: "keeps (both good) (attach_network c n)"
proof (rule keepsI)
  fix w :: "'a mgr_scheme"
  assume w: "both good w"
  have "both good (snd (bindM (get_free_ip_for_network nid) (\<lambda>allocated_ip.
       case allocated_ip of
         None \<Rightarrow> seqM sql_rollback (ret (Some ''Failed to get free IP Address''))
       | Some ip \<Rightarrow>
           tryM is_Exception (seqM (sql_run (insert_container_network nid cid (ip_str ip))) (seqM sql_commit (ret None)))
             (\<lambda>e. seqM sql_rollback (ret (Some ''Failed to attach network'')))) w))" for nid cid
  proof (cases "get_free_ip_for_network nid w")
    case (Pair r w')
    then have [simp]: "w' = w" by (rule get_free_ip_pure)
    show ?thesis
    proof (cases r)
      case (Inr a)
      show ?thesis
      proof (cases a)
        case (Some ip)
        have "free_ip (cur w) nid (ip_str ip)" using get_free_ip_free [of nid w] Pair Inr Some by blast
        from store_address_good [OF w this] show ?thesis using Pair Inr Some by (simp add: bindM_apply)
      qed (use Pair Inr w in \<open>simp add: bindM_apply seqM_apply sql_end_apply both_def\<close>)
    qed (use Pair w in \<open>simp add: bindM_apply\<close>)
  qed
  then show "both good (snd (attach_network c n w))"
    using w by (simp add: attach_network_def query_simps split: sum.splits option.splits)
qed

lemma keeps_networks [mgr_keeps]:
  "keeps (both good) (create_network nm kw)" "keeps (both good) (start_network s)"
  "keeps (both good) (add_rdr_ports j)" "keeps (both good) clear_ruleset_before_close"
  "keeps (both good) get_networks" "keeps (both good) (get_free_ip_for_network i)"
  unfolding create_network_def choose_subnet_def get_allocated_networks_def start_network_def
    setup_network_if_def dns_rdr_rule_def add_rdr_ports_def add_rdr_port_def clear_ruleset_before_close_def
    get_networks_def get_free_ip_for_network_def Let_def
  by (intro keeps_rules mgr_keeps keeps_calls both_trace)+

section \<open>Properties\<close>

lemma ip_str_not_None: "ip_str a \<noteq> ''None''"
proof
  assume "ip_str a = ''None''"
  then have "ip_of_str ''None'' = Inr a" by (metis ip_of_str_ip_str)
  moreover have "(case ip_of_str ''None'' of Inl _ \<Rightarrow> True | Inr _ \<Rightarrow> False)" by code_simp
  ultimately show False by simp
qed

text \<open>
  C3.  The address chosen for a container lies in its network, is not the network's first host,
  which is the address of the bridge, and belongs to no other container of the network.
\<close>

theorem address_choice:
  assumes "get_free_ip_for_network nid w = (Inr (Some a), w')"
  shows "w' = w \<and>
    (\<exists>n \<in> set (networks (cur w)). \<exists>net. n_id n = nid \<and>
       ip_network (n_subnet n @ ''/'' @ dec (n_prefix n)) = Inr net \<and> in_net a net \<and> next_host net \<noteq> Inr a) \<and>
    (\<forall>r \<in> set (container_networks (cur w)). cn_network r = nid \<longrightarrow> cn_ip r \<noteq> ip_str a)"
proof -
  have h: "host_of (cur w) nid (ip_str a)" and f: "free_ip (cur w) nid (ip_str a)"
    using get_free_ip_free [OF assms] by auto
  with ip_str_not_None get_free_ip_pure [OF assms] show ?thesis unfolding free_ip_def host_of_def by auto
qed

definition example_net :: network_row where
  "example_net = \<lparr>n_id = 1, n_name = ''web'', n_driver = ''bridge'', n_subnet = ''10.0.0.0'', n_prefix = 29\<rparr>"

definition example_db :: db where
  "example_db = (empty_db [])\<lparr>networks := [example_net],
     container_networks := [\<lparr>cn_id = 1, cn_network = 1, cn_container = 1, cn_ip = ''10.0.0.2''\<rparr>]\<rparr>"

definition example_mgr :: "db \<Rightarrow> mgr" where
  "example_mgr d = \<lparr>kern = \<lambda>_ _. ok_ret, trace = [], cur = d, saved = d, worker = True, storage = ZFS,
     subnetallocator = default_allocator\<rparr>"

theorem address_choice_witness:
  "\<exists>a net. fst (get_free_ip_for_network 1 (example_mgr example_db)) = Inr (Some a) \<and>
     in_net a net \<and> next_host net \<noteq> Inr a \<and> ''10.0.0.2'' \<noteq> ip_str a"
proof -
  let ?w = "example_mgr example_db"
  have r: "fst (get_free_ip_for_network 1 ?w) = Inr (Some 167772163)" by code_simp
  then obtain w' where "get_free_ip_for_network 1 ?w = (Inr (Some 167772163), w')" by (metis prod.collapse)
  from address_choice [OF this] r show ?thesis
    by (auto simp: example_mgr_def example_db_def empty_db_def)
qed

text \<open>
  A network does not run out of addresses early: while it has fewer rows than its block has
  hosts after the first, a container gets an address.
\<close>

theorem address_found:
  assumes "find_row n_id nid (networks (cur w)) = Some n"
    and "ip_network (n_subnet n @ ''/'' @ dec (n_prefix n)) = Inr net" and "net_prefix net < 31"
    and "length (filter (\<lambda>r. cn_network r = nid) (container_networks (cur w))) < 2 ^ (32 - net_prefix net) - 3"
  shows "\<exists>a. get_free_ip_for_network nid w = (Inr (Some a), w)"
proof -
  let ?used = "map cn_ip (filter (\<lambda>r. cn_network r = nid) (container_networks (cur w)))"
  have "[1 ..< 2 ^ (32 - net_prefix net) - 1] = 1 # [2 ..< 2 ^ (32 - net_prefix net) - 1]"
    using two_le_block [OF assms(3)] by (simp add: upt_rec numeral_2_eq_2)
  then have "length (host_candidates net) = 2 ^ (32 - net_prefix net) - 3"
    using assms(3) ip_network_valid [OF assms(2)] by (simp add: host_candidates_def hosts_iter_def)
  then obtain a where "first_free (\<lambda>ip u. ip_str ip = u) ?used (host_candidates net) = Some a"
    using host_search.finds_below [of ?used net] assms(4) by (auto simp: comp_def sum_list_triv)
  then have "allocate_ip ?used (n_subnet n @ ''/'' @ dec (n_prefix n)) = Inr (Some a)"
    using allocate_ip_candidates [OF assms(2)] assms(3) by simp
  with assms(1) show ?thesis by (auto simp: get_free_ip_for_network_def query_simps)
qed

theorem address_found_witness:
  "\<exists>a. get_free_ip_for_network 1 (example_mgr example_db) = (Inr (Some a), example_mgr example_db)"
proof (rule address_found)
  show "find_row n_id 1 (networks (cur (example_mgr example_db))) = Some example_net"
    by (simp add: example_mgr_def example_db_def find_row_def example_net_def)
  show "ip_network (n_subnet example_net @ ''/'' @ dec (n_prefix example_net)) =
      Inr \<lparr>net_addr = 167772160, net_prefix = 29\<rparr>" by code_simp
qed (simp_all add: example_mgr_def example_db_def)

lemma mapR_rows: "mapR f xs = Inr ys \<Longrightarrow> x \<in> set xs \<Longrightarrow> \<exists>y \<in> set ys. f x = Inr y"
  by (induction xs arbitrary: ys) (auto simp: bindR_eq_Inr)

lemma mapR_image: "mapR f xs = Inr ys \<Longrightarrow> y \<in> set ys \<Longrightarrow> \<exists>x \<in> set xs. f x = Inr y"
  by (induction xs arbitrary: ys) (auto simp: bindR_eq_Inr)

text \<open>The subnet chosen when the request names none.\<close>

lemma choose_subnet_free:
  assumes "choose_subnet kw w = (Inr (Inr (s, p)), w')" and "\<not> truthy (dget kw ''subnet'' JNull)"
  shows "w' = w \<and> (\<exists>al. mapR (\<lambda>r. ip_network (subnet_row_text r)) (allocated_subnets (cur w)) = Inr al \<and>
    allocate_subnet (subnetallocator w) al 24 = Inr (Some (s, p)))"
  using assms
  by (auto simp: choose_subnet_def get_allocated_networks_def comp_simps liftR_def Let_def
      split: prod.splits sum.splits option.splits)

text \<open>
  C4.  A network created without a subnet gets a /24 of the allocator's base network that has no
  address in common with any allocated subnet, and both its rows are committed.
\<close>

theorem create_network_disjoint:
  assumes "create_network name kw w = (Inr (nm, text), w')" and "nm \<noteq> JNull"
    and "\<not> truthy (dget kw ''subnet'' JNull)"
    and "valid_net (base_network (subnetallocator w))" and "net_prefix (base_network (subnetallocator w)) < 32"
  shows "\<exists>net n r. ip_network text = Inr net \<and> net_prefix net = 24 \<and>
    (\<forall>x. in_net x net \<longrightarrow> in_net x (base_network (subnetallocator w))) \<and>
    (\<forall>s \<in> set (allocated_subnets (cur w)). \<exists>u. ip_network (subnet_row_text s) = Inr u \<and>
       (\<forall>x. \<not> (in_net x net \<and> in_net x u))) \<and>
    cur w' = saved w' \<and> networks (saved w') = networks (cur w) @ [n] \<and> n_subnet n @ ''/'' @ dec (n_prefix n) = text \<and>
    allocated_subnets (saved w') = allocated_subnets (cur w) @ [r] \<and> subnet_row_text r = text"
proof -
  obtain key where key: "bind_text name = Inr key" "find_text n_name key (networks (cur w)) = None"
    using assms(1,2) by (auto simp: create_network_def query_simps split: sum.splits if_splits)
  obtain c w1 where c: "choose_subnet kw w = (c, w1)" by force
  with assms(1,2) key obtain s p where "c = Inr (Inr (s, p))"
    by (auto simp: create_network_def query_simps bindM_apply [of "choose_subnet kw"] split: sum.splits)
  note chosen = c [unfolded this]
  from choose_subnet_free [OF chosen assms(3)] obtain al where w1 [simp]: "w1 = w"
    and al: "mapR (\<lambda>r. ip_network (subnet_row_text r)) (allocated_subnets (cur w)) = Inr al"
    and found: "allocate_subnet (subnetallocator w) al 24 = Inr (Some (s, p))" by blast
  have valid: "\<forall>u \<in> set al. valid_net u" using mapR_image [OF al] ip_network_valid by blast
  from allocated_apart [OF found assms(4,5) valid] obtain net where
    net: "ip_network (s @ ''/'' @ dec p) = Inr net" "net_prefix net = 24"
      "\<forall>x. in_net x net \<longrightarrow> in_net x (base_network (subnetallocator w)) \<and> (\<forall>u \<in> set al. \<not> in_net x u)"
    by blast
  obtain d1 d2 where d1: "insert_subnet_row s p (cur w) = Inr d1" and d2: "insert_network_row key s p d1 = Inr d2"
    and res: "text = s @ ''/'' @ dec p" "w' = w\<lparr>cur := d2, saved := d2\<rparr>"
    using assms(1,2) key chosen
    by (auto simp: create_network_def query_simps bindM_apply [of "choose_subnet kw"] comp_simps
        split: sum.splits if_splits)
  have "networks d2 = networks (cur w) @ [\<lparr>n_id = next_n d1, n_name = the key, n_driver = ''bridge'', n_subnet = s, n_prefix = p\<rparr>]"
    "allocated_subnets d2 = allocated_subnets (cur w) @ [\<lparr>s_id = next_s (cur w), s_subnet = s, s_prefix = p\<rparr>]"
    using d1 d2 by (auto simp: insert_subnet_row_def insert_network_row_def bindR_eq_Inr insert_row_Inr not_null_Inr)
  moreover have "\<exists>u. ip_network (subnet_row_text r) = Inr u \<and> (\<forall>x. \<not> (in_net x net \<and> in_net x u))"
    if "r \<in> set (allocated_subnets (cur w))" for r
    using mapR_rows [OF al that] net(3) by blast
  ultimately show ?thesis
    using net res
    by (intro exI [of _ net] exI [of _ "\<lparr>n_id = next_n d1, n_name = the key, n_driver = ''bridge'', n_subnet = s, n_prefix = p\<rparr>"]
        exI [of _ "\<lparr>s_id = next_s (cur w), s_subnet = s, s_prefix = p\<rparr>"]) (simp add: subnet_row_text_def)
qed

theorem create_network_disjoint_witness:
  "\<exists>net u. ip_network ''10.0.1.0/24'' = Inr net \<and> ip_network ''10.0.0.0/24'' = Inr u \<and>
     (\<forall>x. \<not> (in_net x net \<and> in_net x u))"
proof -
  let ?r = "\<lparr>s_id = 1, s_subnet = ''10.0.0.0'', s_prefix = 24\<rparr>"
  let ?w = "example_mgr ((empty_db [])\<lparr>allocated_subnets := [?r]\<rparr>)"
  have "fst (create_network (JStr ''web'') [] ?w) = Inr (JStr ''web'', ''10.0.1.0/24'')" by code_simp
  then obtain w' where r: "create_network (JStr ''web'') [] ?w = (Inr (JStr ''web'', ''10.0.1.0/24''), w')"
    by (metis prod.collapse)
  have v: "valid_net (base_network (subnetallocator ?w))" by code_simp
  have p: "net_prefix (base_network (subnetallocator ?w)) < 32" by code_simp
  have t: "subnet_row_text ?r = ''10.0.0.0/24''" by code_simp
  have a: "set (allocated_subnets (cur ?w)) = {?r}" by (simp add: example_mgr_def)
  have n: "JStr ''web'' \<noteq> JNull" by simp
  have s: "\<not> truthy (dget [] ''subnet'' JNull)" by (simp add: dget_def)
  obtain net where "ip_network ''10.0.1.0/24'' = Inr net"
    "\<forall>s \<in> set (allocated_subnets (cur ?w)). \<exists>u. ip_network (subnet_row_text s) = Inr u \<and>
       (\<forall>x. \<not> (in_net x net \<and> in_net x u))"
    using create_network_disjoint [OF r n s v p] by blast
  then show ?thesis unfolding a by (metis t singletonI)
qed

text \<open>
  C23.  A request without a name is refused, but the subnet chosen for it stays in the open
  transaction, from which the next commit stores it: the subnet is lost to later networks.
\<close>

theorem refused_network_keeps_subnet:
  assumes "\<not> truthy (dget kw ''subnet'' JNull)"
    and "choose_subnet kw w = (Inr (Inr (s, p)), w)"
    and "valid_net (base_network (subnetallocator w))" and "net_prefix (base_network (subnetallocator w)) < 32"
  shows "\<exists>w'. create_network JNull kw w = (Inr (JNull, ''Failed to create network''), w') \<and>
    saved w' = saved w \<and>
    (\<exists>r. allocated_subnets (cur w') = allocated_subnets (cur w) @ [r] \<and> s_subnet r = s \<and> s_prefix r = p) \<and>
    allocated_subnets (saved (snd (sql_commit w'))) = allocated_subnets (cur w')"
proof -
  from choose_subnet_free [OF assms(2,1)] obtain al where
    al: "mapR (\<lambda>r. ip_network (subnet_row_text r)) (allocated_subnets (cur w)) = Inr al"
    and found: "allocate_subnet (subnetallocator w) al 24 = Inr (Some (s, p))" by blast
  have valid: "\<forall>u \<in> set al. valid_net u" using mapR_image [OF al] ip_network_valid by blast
  from allocated_apart [OF found assms(3,4) valid] obtain net where net: "ip_network (s @ ''/'' @ dec p) = Inr net"
    "\<forall>x. in_net x net \<longrightarrow> (\<forall>u \<in> set al. \<not> in_net x u)" by blast
  have "(s, p) \<notin> (\<lambda>r. (s_subnet r, s_prefix r)) ` set (allocated_subnets (cur w))"
  proof
    assume "(s, p) \<in> (\<lambda>r. (s_subnet r, s_prefix r)) ` set (allocated_subnets (cur w))"
    then obtain r where r: "r \<in> set (allocated_subnets (cur w))" "s_subnet r = s" "s_prefix r = p" by auto
    from mapR_rows [OF al r(1)] r(2,3) net(1) have "net \<in> set al" by (auto simp: subnet_row_text_def)
    with net ip_network_valid [OF net(1)] valid_net_self show False by blast
  qed
  then have "insert_subnet_row s p (cur w) = Inr ((cur w)\<lparr>allocated_subnets := allocated_subnets (cur w) @
      [\<lparr>s_id = next_s (cur w), s_subnet = s, s_prefix = p\<rparr>], next_s := next_s (cur w) + 1\<rparr>)"
    by (simp add: insert_subnet_row_def insert_row_def)
  moreover have "insert_network_row None s p d = Inl IntegrityError" for d
    by (simp add: insert_network_row_def not_null_def)
  moreover have "s \<noteq> []" using found by (auto simp: allocate_subnet_def bindR_eq_Inr ip_str_def joinc_Cons upt_rec split: option.splits)
  ultimately show ?thesis
    using assms(2)
    by (simp add: create_network_def query_simps bindM_apply [of "choose_subnet kw"] find_text_def comp_simps)
qed

theorem refused_network_keeps_subnet_witness:
  "\<exists>w'. create_network JNull [] (example_mgr (empty_db [])) = (Inr (JNull, ''Failed to create network''), w') \<and>
     saved w' = empty_db [] \<and> map s_subnet (allocated_subnets (cur w')) = [''10.0.0.0'']"
proof -
  let ?w = "example_mgr (empty_db [])"
  have f: "fst (choose_subnet [] ?w) = Inr (Inr (''10.0.0.0'', 24))" by code_simp
  have s: "\<not> truthy (dget [] ''subnet'' JNull)" by (simp add: dget_def)
  from f obtain w1 where c: "choose_subnet [] ?w = (Inr (Inr (''10.0.0.0'', 24)), w1)" by (metis prod.collapse)
  have "w1 = ?w" using choose_subnet_free [OF c s] by simp
  with c have c: "choose_subnet [] ?w = (Inr (Inr (''10.0.0.0'', 24)), ?w)" by simp
  have v: "valid_net (base_network (subnetallocator ?w))" by code_simp
  have p: "net_prefix (base_network (subnetallocator ?w)) < 32" by code_simp
  from refused_network_keeps_subnet [OF s c v p] show ?thesis
    by (auto simp: example_mgr_def empty_db_def)
qed

end
