(* ===== verification/ContainerConfig.thy ===== *)
theory ContainerConfig
  imports Kernel
begin

text \<open>
  The part of \<open>JailManager\<close> (\<open>app2/JailManager_.py\<close>) that builds the configuration of a container
  from its image and the request: the search path, the mounts, and the rest of the JSON that is
  stored with the container and read back by the worker.
\<close>

section \<open>Helpers on JSON values\<close>

text \<open>\<open>d[k] = v\<close> and \<open>sep.join(xs)\<close>.\<close>

fun set_item :: "json \<Rightarrow> string \<Rightarrow> json \<Rightarrow> json res" where
  "set_item (JObj d) k v = Inr (JObj (AList.update k v d))"
| "set_item _ k v = Inl TypeError"

fun set_items :: "json \<Rightarrow> json dict \<Rightarrow> json res" where
  "set_items j [] = Inr j"
| "set_items j ((k, v) # kvs) = bindR (set_item j k v) (\<lambda>j'. set_items j' kvs)"

definition join_json :: "char \<Rightarrow> json \<Rightarrow> string res" where
  "join_json sep xs = bindR (json_iter xs) (\<lambda>is. bindR (mapR (as_str TypeError) is) (\<lambda>ss. Inr (joinc sep ss)))"

text \<open>\<open>uuid.UUID(s)\<close> drops \<open>urn:\<close>, \<open>uuid:\<close>, braces and hyphens, wants 32 characters and reads
  them with \<open>int(s, 16)\<close>: white space around, a sign (a minus has gone with the hyphens), a prefix
  \<open>0x\<close>, and hexadecimal digits with single underscores between them.\<close>

definition is_hex :: "char \<Rightarrow> bool" where
  "is_hex c = (is_digit c \<or> 97 \<le> code c \<and> code c \<le> 102 \<or> 65 \<le> code c \<and> code c \<le> 70)"

definition strip_chars :: "char list \<Rightarrow> string \<Rightarrow> string" where
  "strip_chars cs s = rev (dropWhile (\<lambda>c. c \<in> set cs) (rev (dropWhile (\<lambda>c. c \<in> set cs) s)))"

definition is_hex_int :: "string \<Rightarrow> bool" where
  "is_hex_int s =
     (let t = strip s;
          u = (if take 1 t = ''+'' then drop 1 t else t);
          v = (if take 2 u = ''0x'' \<or> take 2 u = ''0X'' then drop 2 u else u);
          h = (if v \<noteq> u \<and> take 1 v = ''_'' then drop 1 v else v)
      in list_all (\<lambda>p. p \<noteq> [] \<and> list_all is_hex p) (splitc CHR ''_'' h))"

definition is_uuid :: "string \<Rightarrow> bool" where
  "is_uuid s =
     (let h = filter (\<lambda>c. c \<noteq> CHR ''-'')
                (strip_chars ''{}'' (py_replace ''uuid:'' [] (py_replace ''urn:'' [] s)))
      in length h = 32 \<and> is_hex_int h)"

fun parse_uuid :: "json \<Rightarrow> unit res" where
  "parse_uuid (JStr s) = (if is_uuid s then Inr () else Inl ValueError)"
| "parse_uuid JNull = Inl TypeError"
| "parse_uuid _ = Inl AttributeError"

section \<open>The search path\<close>

definition create_path :: "json \<Rightarrow> json \<Rightarrow> string res" where
  "create_path paths_list path_str =
     bindR (join_json CHR '':'' paths_list) (\<lambda>joined_paths.
     bindR (as_str AttributeError path_str) (\<lambda>s. Inr (py_replace ''$PATH'' joined_paths s)))"

section \<open>Mounts\<close>

definition mount_json :: "json \<Rightarrow> json \<Rightarrow> string \<Rightarrow> json \<Rightarrow> json" where
  "mount_json tpe source target readonly =
     JObj [(''type'', tpe), (''source'', source), (''target'', JStr target), (''readonly'', readonly)]"

text \<open>Each volume of the image gets a fresh random name.\<close>

fun image_mounts :: "json dict \<Rightarrow> json dict \<Rightarrow> ('x world_scheme, json dict) comp" where
  "image_mounts [] mounts = ret mounts"
| "image_mounts ((m, v) # rest) mounts =
     bindM (pycall Uuid4) (\<lambda>r.
     bindM (liftR (jget v ''readonly'' (JBool False))) (\<lambda>ro.
     image_mounts rest (AList.update m (mount_json (JStr ''volume'') (JStr (rtext r)) m ro) mounts)))"

fun user_mounts :: "json dict \<Rightarrow> json dict \<Rightarrow> json dict res" where
  "user_mounts [] mounts = Inr mounts"
| "user_mounts ((m, v) # rest) mounts =
     bindR (jindex v ''type'') (\<lambda>tpe.
     bindR (jindex v ''source'') (\<lambda>source.
     bindR (jget v ''readonly'' (JBool False)) (\<lambda>ro.
     user_mounts rest (AList.update m (mount_json tpe source m ro) mounts))))"

definition sorted_mounts :: "json dict \<Rightarrow> json list" where
  "sorted_mounts mounts = map (\<lambda>k. dget mounts k JNull) (rev (sort (map fst mounts)))"

definition handle_container_mounts :: "json \<Rightarrow> json \<Rightarrow> ('x world_scheme, json list) comp" where
  "handle_container_mounts image_volumes usr =
     bindM (liftR (jitems image_volumes)) (\<lambda>vs.
     bindM (image_mounts vs []) (\<lambda>mounts.
     bindM (liftR (jitems usr)) (\<lambda>us.
     bindM (liftR (user_mounts us mounts)) (\<lambda>mounts'. ret (sorted_mounts mounts')))))"

text \<open>The loop over the mounts: for a volume whose source is a UUID the next line reads the unbound
  name \<open>VOLUME_ROOT\<close>.\<close>

fun create_anamous_volumes :: "json list \<Rightarrow> unit res" where
  "create_anamous_volumes [] = Inr ()"
| "create_anamous_volumes (mount # rest) =
     bindR (jindex mount ''type'') (\<lambda>tpe.
     if tpe \<noteq> JStr ''volume'' then create_anamous_volumes rest
     else bindR (jindex mount ''source'') (\<lambda>source.
       case parse_uuid source of
         Inr _ \<Rightarrow> Inl NameError
       | Inl ValueError \<Rightarrow> create_anamous_volumes rest
       | Inl e \<Rightarrow> Inl e))"

section \<open>The configuration\<close>

definition container_env :: "json dict \<Rightarrow> json dict \<Rightarrow> json res" where
  "container_env image_json data =
     (let img_path = dget image_json ''PATH'' (JList []);
          env_var = dget image_json ''env'' (JObj []) in
      bindR (case map_of data ''env'' of
               None \<Rightarrow> Inr env_var
             | Some e \<Rightarrow> bindR (jitems e) (set_items env_var)) (\<lambda>env.
      bindR (case map_of data ''PATH'' of
               Some p \<Rightarrow> create_path img_path p
             | None \<Rightarrow> join_json CHR '':'' img_path) (\<lambda>path.
      set_item env ''PATH'' (JStr path))))"

definition optional_entry :: "string \<Rightarrow> json \<Rightarrow> json dict" where
  "optional_entry k v = (if truthy v then [(k, v)] else [])"

definition create_container_json :: "json dict \<Rightarrow> json dict \<Rightarrow> ('x world_scheme, json dict) comp" where
  "create_container_json image_json data =
     (let pick = (\<lambda>k. py_or (dget data k JNull) (dget image_json k JNull)) in
      bindM (liftR (container_env image_json data)) (\<lambda>env.
      bindM (handle_container_mounts (dget image_json ''volumes'' JNull) (dget data ''mounts'' JNull)) (\<lambda>mounts.
      bindM (liftR (create_anamous_volumes mounts)) (\<lambda>_.
      ret ([(''command'', pick ''command''), (''entrypoint'', pick ''entrypoint''), (''env'', env)] @
           optional_entry ''user'' (pick ''user'') @
           optional_entry ''workingDir'' (pick ''workingDir'') @
           [(''mounts'', JList mounts), (''ports'', dget data ''ports'' (JList []))])))))"

lemmas config_defs = create_path_def handle_container_mounts_def create_container_json_def Let_def

lemma emits_image_mounts: "P Uuid4 \<Longrightarrow> emits P (image_mounts vs mounts)"
proof (induction vs arbitrary: mounts)
  case (Cons p vs)
  obtain m v where p: "p = (m, v)" by force
  show ?case
    unfolding p image_mounts.simps using Cons by (intro emits_rules) auto
qed (simp only: image_mounts.simps emits_ret)

lemma emits_create_container_json: "P Uuid4 \<Longrightarrow> emits P (create_container_json i d)"
  unfolding config_defs by (intro emits_rules emits_image_mounts)

lemma keeps_create_container_json:
  "(\<And>w t. I (w\<lparr>trace := t\<rparr>) = I w) \<Longrightarrow> keeps I (create_container_json i d)"
proof -
  assume I: "\<And>w t. I (w\<lparr>trace := t\<rparr>) = I w"
  have "keeps I (image_mounts vs mounts)" for vs mounts
  proof (induction vs arbitrary: mounts)
    case (Cons p vs)
    obtain m v where p: "p = (m, v)" by force
    show ?case
      unfolding p image_mounts.simps using Cons I by (intro keeps_rules keeps_calls) auto
  qed (simp only: image_mounts.simps keeps_ret)
  then show ?thesis
    unfolding config_defs by (intro keeps_rules)
qed

text \<open>The names of the entries of a configuration.\<close>

definition config_keys :: "string set" where
  "config_keys = {''command'', ''entrypoint'', ''env'', ''user'', ''workingDir'', ''mounts'', ''ports''}"

lemma create_container_json_keys:
  "create_container_json image_json data w = (Inr config, w') \<Longrightarrow>
   distinct (map fst config) \<and> fst ` set config \<subseteq> config_keys"
  by (auto simp: create_container_json_def Let_def bindM_apply liftR_def optional_entry_def config_keys_def
      split: prod.splits sum.splits if_splits)

section \<open>Properties\<close>

lemma set_item_lookup: "set_item j k v = Inr j' \<Longrightarrow> \<exists>d. j' = JObj (AList.update k v d)"
  by (cases j) auto

text \<open>
  The search path of a container is its image's, whatever PATH the request sets in its
  environment.
\<close>

theorem env_path_is_image_path:
  assumes "create_container_json image_json data w = (Inr config, w')"
    and "map_of data ''PATH'' = None"
  shows "\<exists>env path. map_of config ''env'' = Some (JObj env) \<and> map_of env ''PATH'' = Some (JStr path) \<and>
    join_json CHR '':'' (dget image_json ''PATH'' (JList [])) = Inr path"
proof -
  from assms(1) obtain env where env: "container_env image_json data = Inr env"
    and c: "map_of config ''env'' = Some env"
    by (auto simp: create_container_json_def Let_def bindM_apply liftR_def split: prod.splits sum.splits)
  from env assms(2) obtain e path where
    "set_item e ''PATH'' (JStr path) = Inr env" "join_json CHR '':'' (dget image_json ''PATH'' (JList [])) = Inr path"
    by (auto simp: container_env_def Let_def bindR_eq_Inr)
  with c set_item_lookup [OF this(1)] show ?thesis by auto
qed

theorem env_path_is_image_path_witness:
  "\<exists>env path. map_of [(''command'', JList []), (''entrypoint'', JNull), (''env'', JObj [(''PATH'', JStr ''/bin:/usr/bin'')]),
       (''mounts'', JList []), (''ports'', JList [])] ''env'' = Some (JObj env) \<and>
     map_of env ''PATH'' = Some (JStr path) \<and> join_json CHR '':'' (JList [JStr ''/bin'', JStr ''/usr/bin'']) = Inr path"
proof -
  let ?img = "[(''PATH'', JList [JStr ''/bin'', JStr ''/usr/bin'']), (''volumes'', JObj []), (''command'', JList [])]"
  let ?data = "[(''env'', JObj [(''PATH'', JStr ''/opt/bin'')]), (''mounts'', JObj [])]"
  let ?w = "\<lparr>kern = \<lambda>_ _. ok_ret, trace = []\<rparr>"
  let ?c = "[(''command'', JList []), (''entrypoint'', JNull), (''env'', JObj [(''PATH'', JStr ''/bin:/usr/bin'')]),
       (''mounts'', JList []), (''ports'', JList [])]"
  have "fst (create_container_json ?img ?data ?w) = Inr ?c" by code_simp
  then obtain w' where r: "create_container_json ?img ?data ?w = (Inr ?c, w')" by (metis prod.collapse)
  have "map_of ?data ''PATH'' = None" by code_simp
  from env_path_is_image_path [OF r this] show ?thesis by (simp add: dget_def)
qed

text \<open>The table of mounts under construction: one entry per target, holding a mount of that target.\<close>

definition mounts_wf :: "json dict \<Rightarrow> bool" where
  "mounts_wf mounts \<longleftrightarrow> distinct (map fst mounts) \<and>
     (\<forall>(k, j) \<in> set mounts. \<exists>t s r. j = mount_json t s k r)"

lemma mounts_wf_update: "mounts_wf mounts \<Longrightarrow> mounts_wf (AList.update k (mount_json t s k r) mounts)"
proof -
  assume wf: "mounts_wf mounts"
  have "distinct (map fst (AList.update k (mount_json t s k r) mounts))"
    using wf by (simp add: mounts_wf_def)
  moreover have "\<exists>t s r. j = mount_json t s k' r"
    if "(k', j) \<in> set (AList.update k (mount_json t s k r) mounts)" for k' j
  proof -
    have "map_of (AList.update k (mount_json t s k r) mounts) k' = Some j"
      using map_of_is_SomeI [OF calculation that] .
    then show ?thesis
      using wf by (auto simp: mounts_wf_def split: if_splits dest!: map_of_SomeD)
  qed
  ultimately show ?thesis by (auto simp: mounts_wf_def)
qed

lemma keys_update: "fst ` set (AList.update k v d) = insert k (fst ` set d)"
  by (simp add: dom_update flip: dom_map_of_conv_image_fst)

lemma image_mounts_result:
  assumes "image_mounts vs mounts w = (Inr mounts', w')" "mounts_wf mounts"
  shows "mounts_wf mounts' \<and> fst ` set mounts' = fst ` set mounts \<union> fst ` set vs"
  using assms
proof (induction vs arbitrary: mounts w)
  case (Cons p vs)
  obtain m v where p: "p = (m, v)" by force
  from Cons.prems(1) obtain w1 u ro where
    "image_mounts vs (AList.update m (mount_json (JStr ''volume'') (JStr u) m ro) mounts) w1 = (Inr mounts', w')"
    by (auto simp: p bindM_apply liftR_def split: prod.splits sum.splits)
  from Cons.IH [OF this mounts_wf_update [OF Cons.prems(2)]] show ?case
    by (auto simp: p keys_update)
qed simp

text \<open>The volumes of the image are mounted from the names the random generator returned.\<close>

lemma image_mounts_sources:
  assumes "image_mounts vs mounts w = (Inr mounts', w')" "m \<in> fst ` set vs"
    and "\<forall>t. is_uuid (rtext (kern w t Uuid4))"
  shows "\<exists>u ro. map_of mounts' m = Some (mount_json (JStr ''volume'') (JStr u) m ro) \<and> is_uuid u"
proof -
  let ?ok = "\<lambda>mounts. \<exists>u ro. map_of mounts m = Some (mount_json (JStr ''volume'') (JStr u) m ro) \<and> is_uuid u"
  have "m \<in> fst ` set vs \<or> ?ok mounts \<Longrightarrow> ?ok mounts'"
    using assms(1,3)
  proof (induction vs arbitrary: mounts w)
    case (Cons p vs)
    obtain a v where p: "p = (a, v)" by force
    let ?u = "rtext (kern w (trace w) Uuid4)"
    from Cons.prems(2) obtain w1 ro where
      step: "image_mounts vs (AList.update a (mount_json (JStr ''volume'') (JStr ?u) a ro) mounts) w1 = (Inr mounts', w')"
      and k: "kern w1 = kern w"
      by (auto simp: p bindM_apply pycall_apply liftR_def split: prod.splits sum.splits option.splits)
    have u: "is_uuid ?u" using Cons.prems(3) by blast
    show ?case
    proof (rule Cons.IH [OF _ step])
      show "m \<in> fst ` set vs \<or> ?ok (AList.update a (mount_json (JStr ''volume'') (JStr ?u) a ro) mounts)"
        using Cons.prems(1) u p by (cases "m = a") auto
      show "\<forall>t. is_uuid (rtext (kern w1 t Uuid4))" using Cons.prems(3) k by simp
    qed
  qed simp
  with assms(2) show ?thesis by blast
qed

lemma user_mounts_result:
  assumes "user_mounts us mounts = Inr mounts'" "mounts_wf mounts"
  shows "mounts_wf mounts' \<and> fst ` set mounts' = fst ` set mounts \<union> fst ` set us \<and>
    (\<forall>k. k \<notin> fst ` set us \<longrightarrow> map_of mounts' k = map_of mounts k) \<and>
    (distinct (map fst us) \<longrightarrow> (\<forall>(k, v) \<in> set us. \<exists>t s r.
       map_of mounts' k = Some (mount_json t s k r) \<and> jindex v ''type'' = Inr t \<and> jindex v ''source'' = Inr s))"
  using assms
proof (induction us arbitrary: mounts)
  case (Cons p us)
  obtain m v where p: "p = (m, v)" by force
  from Cons.prems(1) obtain t s r where
    ts: "jindex v ''type'' = Inr t" "jindex v ''source'' = Inr s"
    and step: "user_mounts us (AList.update m (mount_json t s m r) mounts) = Inr mounts'"
    by (auto simp: p bindR_eq_Inr)
  note IH = Cons.IH [OF step mounts_wf_update [OF Cons.prems(2)]]
  have "m \<notin> fst ` set us \<Longrightarrow> map_of mounts' m = Some (mount_json t s m r)" using IH by simp
  with IH ts show ?case by (auto simp: p keys_update)
qed simp

lemma mount_json_fields:
  "jindex (mount_json t s k r) ''target'' = Inr (JStr k)"
  "jindex (mount_json t s k r) ''type'' = Inr t"
  "jindex (mount_json t s k r) ''source'' = Inr s"
  by (simp_all add: mount_json_def)

lemma handle_container_mounts_result:
  assumes "handle_container_mounts (JObj vs) (JObj us) w = (Inr ms, w')"
  shows "\<exists>mounts mounts' w1. image_mounts vs [] w = (Inr mounts, w1) \<and> user_mounts us mounts = Inr mounts' \<and>
    ms = sorted_mounts mounts'"
  using assms
  by (auto simp: handle_container_mounts_def bindM_apply liftR_def split: prod.splits sum.splits)

text \<open>
  C27.  The stored mounts: one for every target named by the image or the request, each once, in
  descending order of the target; where the request names a target, its type and source count.
\<close>

theorem container_mounts:
  assumes "handle_container_mounts (JObj vs) (JObj us) w = (Inr ms, w')" and "distinct (map fst us)"
  shows "\<exists>targets. map (\<lambda>m. jindex m ''target'') ms = map (\<lambda>t. Inr (JStr t)) targets \<and>
    sorted (rev targets) \<and> distinct targets \<and> set targets = fst ` set vs \<union> fst ` set us \<and>
    (\<forall>(k, v) \<in> set us. \<exists>m \<in> set ms. jindex m ''target'' = Inr (JStr k) \<and>
       jindex m ''type'' = jindex v ''type'' \<and> jindex m ''source'' = jindex v ''source'')"
proof -
  obtain mounts mounts' w1 where
    i: "image_mounts vs [] w = (Inr mounts, w1)" and u: "user_mounts us mounts = Inr mounts'"
    and ms: "ms = sorted_mounts mounts'"
    using handle_container_mounts_result [OF assms(1)] by blast
  have wf: "mounts_wf mounts" "fst ` set mounts = fst ` set vs"
    using image_mounts_result [OF i] by (simp_all add: mounts_wf_def)
  note res = user_mounts_result [OF u wf(1)]
  let ?ts = "rev (sort (map fst mounts'))"
  have entry: "\<exists>t s r. dget mounts' k JNull = mount_json t s k r" if "k \<in> set ?ts" for k
  proof -
    from that obtain j where j: "(k, j) \<in> set mounts'" by auto
    then have "map_of mounts' k = Some j" using res by (simp add: mounts_wf_def)
    with j res show ?thesis by (auto simp: dget_def mounts_wf_def)
  qed
  have "map (\<lambda>m. jindex m ''target'') ms = map (\<lambda>t. Inr (JStr t)) ?ts"
    unfolding ms sorted_mounts_def map_map
  proof (rule map_cong [OF refl])
    fix k assume "k \<in> set ?ts"
    from entry [OF this] show "((\<lambda>m. jindex m ''target'') \<circ> (\<lambda>k. dget mounts' k JNull)) k = Inr (JStr k)"
      by (auto simp: mount_json_fields)
  qed
  moreover have "sorted (rev ?ts)" "distinct ?ts" "set ?ts = fst ` set vs \<union> fst ` set us"
    using res wf by (simp_all add: mounts_wf_def)
  moreover have "\<exists>m \<in> set ms. jindex m ''target'' = Inr (JStr k) \<and>
       jindex m ''type'' = jindex v ''type'' \<and> jindex m ''source'' = jindex v ''source''"
    if "(k, v) \<in> set us" for k v
  proof -
    from res assms(2) that obtain t s r where
      m: "map_of mounts' k = Some (mount_json t s k r)" "jindex v ''type'' = Inr t" "jindex v ''source'' = Inr s"
      by fastforce
    then have "k \<in> set ?ts" by (auto dest!: map_of_SomeD intro: rev_image_eqI)
    then have "mount_json t s k r \<in> set ms"
      using m(1) by (auto simp: ms sorted_mounts_def dget_def intro!: rev_image_eqI)
    then show ?thesis
      by (rule bexI [rotated]) (simp add: m mount_json_fields)
  qed
  ultimately show ?thesis by (intro exI [of _ ?ts]) auto
qed

theorem container_mounts_witness:
  "\<exists>ms targets. map (\<lambda>m. jindex m ''target'') ms = map (\<lambda>t. Inr (JStr t)) targets \<and>
     sorted (rev targets) \<and> distinct targets \<and> set targets = {''/data'', ''/logs''} \<and>
     (\<exists>m \<in> set ms. jindex m ''target'' = Inr (JStr ''/data'') \<and>
       jindex m ''type'' = Inr (JStr ''bind'') \<and> jindex m ''source'' = Inr (JStr ''/srv''))"
proof -
  let ?vs = "[(''/data'', JObj []), (''/logs'', JObj [])]"
  let ?us = "[(''/data'', JObj [(''type'', JStr ''bind''), (''source'', JStr ''/srv'')])]"
  let ?w = "\<lparr>kern = \<lambda>_ _. ok_ret, trace = []\<rparr>"
  have "\<exists>ms. fst (handle_container_mounts (JObj ?vs) (JObj ?us) ?w) = Inr ms"
  proof -
    have "(case fst (handle_container_mounts (JObj ?vs) (JObj ?us) ?w) of Inr _ \<Rightarrow> True | _ \<Rightarrow> False)"
      by code_simp
    then show ?thesis by (auto split: sum.splits)
  qed
  then obtain ms w' where r: "handle_container_mounts (JObj ?vs) (JObj ?us) ?w = (Inr ms, w')"
    by (metis prod.collapse)
  have "distinct (map fst ?us)" by simp
  from container_mounts [OF r this] show ?thesis
    by (intro exI [of _ ms]) (auto simp: insert_commute)
qed

lemma anonymous_volume_raises:
  "jindex a ''type'' = Inr (JStr ''volume'') \<Longrightarrow> jindex a ''source'' = Inr (JStr s) \<Longrightarrow> is_uuid s \<Longrightarrow>
   create_anamous_volumes (a # ms) = Inl NameError"
  by (simp only: create_anamous_volumes.simps bindR_simps simp_thms if_False parse_uuid.simps if_True sum.case)

lemma create_anamous_volumes_tail:
  assumes "create_anamous_volumes (a # ms) = Inr ()"
  shows "create_anamous_volumes ms = Inr ()"
proof -
  obtain tpe where t: "(if tpe \<noteq> JStr ''volume'' then create_anamous_volumes ms
     else bindR (jindex a ''source'') (\<lambda>source. case parse_uuid source of Inr _ \<Rightarrow> Inl NameError
       | Inl ValueError \<Rightarrow> create_anamous_volumes ms | Inl e \<Rightarrow> Inl e)) = Inr ()"
    using assms unfolding create_anamous_volumes.simps bindR_eq_Inr by blast
  show ?thesis
  proof (cases "tpe = JStr ''volume''")
    case True
    with t obtain source where
      "(case parse_uuid source of Inr _ \<Rightarrow> Inl NameError
       | Inl ValueError \<Rightarrow> create_anamous_volumes ms | Inl e \<Rightarrow> Inl e) = Inr ()"
      by (auto simp only: bindR_eq_Inr simp_thms if_False)
    then show ?thesis by (cases "parse_uuid source") (auto split: exn.splits)
  next
    case False
    with t show ?thesis by simp
  qed
qed

lemma create_anamous_volumes_ok:
  "create_anamous_volumes ms = Inr () \<Longrightarrow> m \<in> set ms \<Longrightarrow> jindex m ''type'' = Inr (JStr ''volume'') \<Longrightarrow>
   jindex m ''source'' = Inr (JStr s) \<Longrightarrow> \<not> is_uuid s"
proof (induction ms)
  case (Cons a ms)
  show ?case
  proof (cases "m = a")
    case True
    then show ?thesis using Cons.prems anonymous_volume_raises [of a s ms] by auto
  next
    case False
    with Cons create_anamous_volumes_tail [OF Cons.prems(1)] show ?thesis by simp
  qed
qed simp

text \<open>
  C28.  No container can be made from an image that declares a volume, unless the request mounts
  something of its own on every such target: preparing the anonymous volume raises.
\<close>

theorem image_volumes_unusable:
  assumes "map_of image_json ''volumes'' = Some (JObj vs)" and "map_of data ''mounts'' = Some (JObj us)"
    and "m \<in> fst ` set vs" and "m \<notin> fst ` set us"
    and "\<forall>t. is_uuid (rtext (kern w t Uuid4))"
  shows "\<exists>e. fst (create_container_json image_json data w) = Inl e"
proof (rule ccontr)
  assume "\<nexists>e. fst (create_container_json image_json data w) = Inl e"
  then obtain c w' where "create_container_json image_json data w = (Inr c, w')"
    by (metis obj_sumE prod.collapse)
  then obtain ms w1 where mounts: "handle_container_mounts (JObj vs) (JObj us) w = (Inr ms, w1)"
    and anon: "create_anamous_volumes ms = Inr ()"
    using assms(1,2)
    by (auto simp: create_container_json_def Let_def dget_def bindM_apply liftR_def split: prod.splits sum.splits)
  obtain ms0 ms1 w2 where i: "image_mounts vs [] w = (Inr ms0, w2)" and u: "user_mounts us ms0 = Inr ms1"
    and ms: "ms = sorted_mounts ms1"
    using handle_container_mounts_result [OF mounts] by blast
  from image_mounts_sources [OF i assms(3,5)] obtain s ro where
    s: "map_of ms0 m = Some (mount_json (JStr ''volume'') (JStr s) m ro)" "is_uuid s" by blast
  have "mounts_wf ms0" using image_mounts_result [OF i] by (simp add: mounts_wf_def)
  with user_mounts_result [OF u] assms(4) s(1)
  have m1: "map_of ms1 m = Some (mount_json (JStr ''volume'') (JStr s) m ro)" by simp
  then have "m \<in> set (rev (sort (map fst ms1)))" by (auto dest!: map_of_SomeD intro: rev_image_eqI)
  then have "mount_json (JStr ''volume'') (JStr s) m ro \<in> set ms"
    using m1 by (auto simp: ms sorted_mounts_def dget_def intro!: rev_image_eqI)
  from create_anamous_volumes_ok [OF anon this] s(2) show False by (simp add: mount_json_fields)
qed

theorem image_volumes_unusable_witness:
  "\<exists>(w :: unit world_scheme) e. fst (create_container_json [(''volumes'', JObj [(''/data'', JObj [])])]
     [(''mounts'', JObj [])] w) = Inl e"
proof -
  let ?u = "''0f8fad5b-d9cb-469f-a165-70867728950e''"
  let ?w = "\<lparr>kern = \<lambda>_ _. ok_ret\<lparr>rtext := ?u\<rparr>, trace = []\<rparr>"
  have "is_uuid ?u" by code_simp
  then have "\<forall>t. is_uuid (rtext (kern ?w t Uuid4))" by simp
  from image_volumes_unusable [of "[(''volumes'', JObj [(''/data'', JObj [])])]" "[(''/data'', JObj [])]"
      "[(''mounts'', JObj [])]" "[]" "''/data''" ?w, OF _ _ _ _ this]
  show ?thesis by (intro exI [of _ ?w]) simp
qed

end
