(* ===== verification/Containers.thy ===== *)
theory Containers
  imports Networks ContainerConfig
begin

text \<open>
  The part of \<open>JailManager\<close> (\<open>app2/JailManager_.py\<close>) that keeps containers: creating, starting,
  stopping and removing them, their volumes, the images, and what is reported of them.
\<close>

section \<open>Startup\<close>

definition LOAD_MODULES :: "string list" where
  "LOAD_MODULES = [''if_epair'', ''if_bridge'']"

definition load_modules :: "('x mgr_scheme, unit) comp" where
  "load_modules = forM LOAD_MODULES (\<lambda>m. tryM is_Exception (bindM (kldload m) (\<lambda>i. ret ())) (\<lambda>e. ret ()))"

definition set_sysctls :: "('x mgr_scheme, unit) comp" where
  "set_sysctls =
     seqM (sysctl_set_int ''net.inet.ip.forwarding'' 1)
     (bindM (sysctl_get_int ''net.pf.filter_local'') (\<lambda>v.
      whenM (v = 0) (seqM (sysctl_set_int ''net.pf.filter_local'' 1) (seqM pfctl_disable pfctl_enable))))"

definition set_worker :: "bool \<Rightarrow> ('x mgr_scheme, unit) comp" where
  "set_worker b = modify (\<lambda>w. w\<lparr>worker := b\<rparr>)"

text \<open>The states of a container and the kinds of network that \<open>JailManager\<close> numbers.\<close>

datatype STATE = CREATED | STARTED | RUNNING | STOPPED | EXITED | FAILED | STOPPING

fun state_value :: "STATE \<Rightarrow> int" where
  "state_value CREATED = 0"
| "state_value STARTED = 1"
| "state_value RUNNING = 2"
| "state_value STOPPED = 3"
| "state_value EXITED = 4"
| "state_value FAILED = 5"
| "state_value STOPPING = 6"

datatype NET_TYPE = HOST | VNET

fun net_type_value :: "NET_TYPE \<Rightarrow> int" where
  "net_type_value HOST = 0"
| "net_type_value VNET = 1"

definition status_names :: "string list" where
  "status_names = [''CREATED'', ''STARTED'', ''RUNNING'', ''STOPPED'', ''EXITED'', ''FAILED'', ''STOPPING'']"

text \<open>A negative index counts from the end.\<close>

definition get_status_alpha :: "int \<Rightarrow> string res" where
  "get_status_alpha status =
     (if 100 \<le> status then Inr ''FAILED''
      else if status < int (length status_names) then
        (if 0 \<le> status then Inr (status_names ! nat status)
         else if 0 \<le> status + int (length status_names) then Inr (status_names ! nat (status + int (length status_names)))
         else Inl IndexError)
      else Inr ''UNKNOWN'')"

text \<open>The list of names is in the order of the numbers.\<close>

lemma status_of_state:
  "get_status_alpha (state_value s) = Inr (case s of CREATED \<Rightarrow> ''CREATED'' | STARTED \<Rightarrow> ''STARTED'' |
     RUNNING \<Rightarrow> ''RUNNING'' | STOPPED \<Rightarrow> ''STOPPED'' | EXITED \<Rightarrow> ''EXITED'' | FAILED \<Rightarrow> ''FAILED'' |
     STOPPING \<Rightarrow> ''STOPPING'')"
  by (cases s) (simp_all add: get_status_alpha_def status_names_def)

section \<open>Status\<close>

definition container_named :: "string \<Rightarrow> db \<Rightarrow> container_row option" where
  "container_named name d = find_row c_name name (containers d)"

definition update_exit_code :: "string \<Rightarrow> ('x mgr_scheme, string) comp" where
  "update_exit_code name =
     seqM (sql_run (\<lambda>d. Inr (update_status (\<lambda>r. c_name r = name) ''exited'' d)))
     (seqM sql_commit (ret ''exited''))"

definition is_up :: "string \<Rightarrow> bool" where
  "is_up status = (status = ''started'' \<or> status = ''running'')"

text \<open>The socket pair is blocking, and a name is short: one send writes all of it.\<close>

definition send_worker :: "string \<Rightarrow> ('x mgr_scheme, unit) comp" where
  "send_worker msg = bindM (gets worker) (\<lambda>b. if b then do_call (SendWorker msg) else raise AttributeError)"

definition start_jail :: "string \<Rightarrow> ('x mgr_scheme, string) comp" where
  "start_jail name =
     bindM (sql_query (container_named name)) (\<lambda>res.
     case res of
       None \<Rightarrow> ret ''NOJAIL''
     | Some r \<Rightarrow>
         if is_up (c_status r) then ret (c_status r)
         else seqM (send_worker (name @ [CHR 0x0A]))
              (seqM (sql_run (\<lambda>d. Inr (update_status (\<lambda>x. c_id x = c_id r) ''running'' d)))
              (seqM sql_commit (ret ''running''))))"

definition container_exists :: "string \<Rightarrow> ('x mgr_scheme, bool) comp" where
  "container_exists name = bindM (sql_query (container_named name)) (\<lambda>res. ret (res \<noteq> None))"

definition status_jail :: "string \<Rightarrow> ('x mgr_scheme, string) comp" where
  "status_jail name = bindM (sql_query (container_named name)) (\<lambda>res.
     ret (case res of None \<Rightarrow> ''DOESNOTEXIST'' | Some r \<Rightarrow> c_status r))"

definition list_jails :: "bool \<Rightarrow> ('x mgr_scheme, json) comp" where
  "list_jails running = sql_query (\<lambda>d. JList (map (\<lambda>r.
       JObj [(''id'', jnat (c_id r)), (''name'', JStr (c_name r)), (''status'', JStr (c_status r))])
     (filter (\<lambda>r. running \<longrightarrow> c_status r = ''running'') (containers d))))"

text \<open>The older \<open>create\<close>: its insertion names a column that the table \<open>jails\<close> does not have, and the
  error is dropped.\<close>

definition create_old :: "string \<Rightarrow> ('x mgr_scheme, (int \<times> string) option) comp" where
  "create_old name = bindM (sql_query (container_named name)) (\<lambda>res.
     ret (if res \<noteq> None then Some (- 1, ''Container with name: '' @ name @ '' already exist'') else None))"

section \<open>What is reported\<close>

definition container_network_json :: "network_row \<Rightarrow> container_network_row \<Rightarrow> json" where
  "container_network_json n cn = JObj [(''name'', JStr (n_name n)), (''subnet'', JStr (n_subnet n)),
     (''prefix'', jnat (n_prefix n)), (''driver'', JStr (n_driver n)), (''ip'', JStr (cn_ip cn))]"

text \<open>The join of the container's rows with their networks.\<close>

definition joined_networks :: "nat \<Rightarrow> db \<Rightarrow> (network_row \<times> container_network_row) list" where
  "joined_networks cid d =
     concat (map (\<lambda>cn. map (\<lambda>n. (n, cn)) (filter (\<lambda>n. n_id n = cn_network cn) (networks d)))
       (filter (\<lambda>cn. cn_container cn = cid) (container_networks d)))"

text \<open>The value bound to a column of numbers: None selects nothing, and a text that is written as a
  number is compared as one.\<close>

fun bind_id :: "json \<Rightarrow> int option res" where
  "bind_id JNull = Inr None"
| "bind_id (JBool b) = Inr (Some (if b then 1 else 0))"
| "bind_id (JInt n) = Inr (Some n)"
| "bind_id (JStr s) =
     Inr (case py_int s of Inr n \<Rightarrow> if CHR ''_'' \<in> set s then None else Some n | Inl _ \<Rightarrow> None)"
| "bind_id _ = Inl InterfaceError"

definition networks_json :: "int option \<Rightarrow> db \<Rightarrow> json" where
  "networks_json key d =
     (let rows = (case key of Some n \<Rightarrow> if 0 \<le> n then joined_networks (nat n) d else [] | None \<Rightarrow> [])
      in JList (map (\<lambda>(n, cn). container_network_json n cn) rows))"

definition get_container_networks :: "json \<Rightarrow> ('x mgr_scheme, json) comp" where
  "get_container_networks cid = bindM (liftR (bind_id cid)) (\<lambda>key. sql_query (networks_json key))"

lemma get_container_networks_id [simp]:
  "get_container_networks (jnat i) w =
     (Inr (JList (map (\<lambda>(n, cn). container_network_json n cn) (joined_networks i (cur w)))), w)"
  by (simp add: get_container_networks_def networks_json_def query_simps sql_query_apply)

definition container_columns :: "container_row \<Rightarrow> json dict" where
  "container_columns r = [(''id'', jnat (c_id r)), (''name'', JStr (c_name r)), (''image_id'', jnat (c_image r)),
     (''status'', JStr (c_status r)), (''pid'', JInt (- 1)), (''created_at'', JStr (c_created r)),
     (''started_at'', JNull), (''exited_at'', JNull), (''exit_code'', JNull), (''project'', c_project r),
     (''service'', c_service r), (''gid'', JStr (c_gid r))]"

text \<open>The networks are those of the entry \<open>id\<close>, which the configuration overrides when it has one.\<close>

definition get_container :: "string \<Rightarrow> ('x mgr_scheme, json option) comp" where
  "get_container name =
     bindM (sql_query (container_named name)) (\<lambda>row.
     case row of
       None \<Rightarrow> ret None
     | Some r \<Rightarrow>
         let cont = AList.update ''path'' (JStr (path_join CONTAINER_MOUNT_ROOT (c_gid r)))
                      (dmerge (container_columns r) (c_config r)) in
         bindM (get_container_networks (dget cont ''id'' JNull)) (\<lambda>nets.
         ret (Some (JObj (AList.update ''networks'' nets cont)))))"

definition get_volumes :: "('x mgr_scheme, json) comp" where
  "get_volumes = sql_query (\<lambda>d. JList (map (\<lambda>r.
     JObj [(''id'', jnat (v_id r)), (''name'', JStr (v_name r)), (''driver'', JStr (v_driver r)),
       (''created_at'', JStr (v_created r))]) (volumes d)))"

definition list_images :: "('x mgr_scheme, json) comp" where
  "list_images = sql_query (\<lambda>d. JList (map (\<lambda>r.
     JObj [(''id'', jnat (i_id r)), (''name'', JStr (i_name r)), (''tag'', JStr (i_tag r)),
       (''created_at'', JStr (i_created r))]) (images d)))"

text \<open>\<open>name, tag = s.split(':')\<close>.\<close>

definition split_tag :: "string \<Rightarrow> (string \<times> string) res" where
  "split_tag s = (case splitc CHR '':'' s of [a, b] \<Rightarrow> Inr (a, b) | _ \<Rightarrow> Inl ValueError)"

definition image_named :: "string \<times> string \<Rightarrow> db \<Rightarrow> image_row option" where
  "image_named nt d = find_row (\<lambda>r. (i_name r, i_tag r)) nt (images d)"

definition get_image :: "string \<Rightarrow> ('x mgr_scheme, json option \<times> string option) comp" where
  "get_image img_name =
     bindM (liftR (split_tag img_name)) (\<lambda>nt.
     bindM (sql_query (image_named nt)) (\<lambda>res.
     ret (case res of
       None \<Rightarrow> (None, Some ''No such Image'')
     | Some r \<Rightarrow> (Some (JObj (dmerge [(''id'', jnat (i_id r)), (''name'', JStr (i_name r)), (''tag'', JStr (i_tag r)),
           (''created_at'', JStr (i_created r)), (''gid'', JStr (i_gid r))] (i_json r))), None))))"

section \<open>Stopping\<close>

definition remove_by_hand :: "string \<Rightarrow> ('x mgr_scheme, unit) comp" where
  "remove_by_hand name = do_call (ProcC (Spawn [''jail'', ''-r'', name]))"

text \<open>The first process of the container is signalled by the number in its pid file, which is emptied
  in any case.\<close>

definition signal_pid_file :: "string \<Rightarrow> string \<Rightarrow> ('x mgr_scheme, unit) comp" where
  "signal_pid_file name pid_path =
     seqM (do_call (FsC (OpenFile pid_path)))
       (finallyM
         (tryM (\<lambda>e. e = ValueError)
           (bindM (pycall (FsC (ReadLine pid_path))) (\<lambda>r.
            bindM (liftR (py_int (rtext r))) (\<lambda>pid. do_call (ProcC (Kill pid)))))
           (\<lambda>e. remove_by_hand name))
         (do_call (FsC (TruncateFile pid_path))))"

definition signal_jail :: "string \<Rightarrow> string \<Rightarrow> ('x mgr_scheme, unit) comp" where
  "signal_jail name gid =
     (let jail_root = path_join CONTAINER_MOUNT_ROOT gid in
      if jail_root = [] then remove_by_hand name
      else let pid_path = path_join jail_root ''jail.pid'' in
        bindM (pycall (FsC (PathExists pid_path))) (\<lambda>r.
        seqM (whenM (rv r = 0) (remove_by_hand name)) (signal_pid_file name pid_path)))"

text \<open>At most \<open>n\<close> looks, one second apart: is the jail gone?\<close>

fun wait_removed :: "string \<Rightarrow> nat \<Rightarrow> ('x mgr_scheme, bool) comp" where
  "wait_removed name 0 = ret False"
| "wait_removed name (Suc n) = bindM (jail_get_id name) (\<lambda>i.
     if i \<noteq> CENOJAIL then seqM (do_call (ProcC (Sleep 1))) (wait_removed name n) else ret True)"

definition remove_port_rules :: "string list \<Rightarrow> json \<Rightarrow> ('x mgr_scheme, unit) comp" where
  "remove_port_rules nets port =
     bindM (liftR (jget port ''proto'' JNull)) (\<lambda>p.
     let proto = (if p = JStr ''udp'' then 17 else 6) in
     forM nets (\<lambda>net.
       bindM (liftR (jindex port ''host'')) (\<lambda>host.
       seqM (pfctl_remove_rdr_port_rule (''cni-rdr/'' @ net) host proto)
       (bindM (liftR (jindex port ''container'')) (\<lambda>c.
        pfctl_remove_nat_port_rule (''cni-rdr/'' @ net) c proto)))))"

definition stop_running :: "string \<Rightarrow> container_row \<Rightarrow> ('x mgr_scheme, string) comp" where
  "stop_running name r =
     seqM (signal_jail name (c_gid r))
     (bindM (wait_removed name 10) (\<lambda>removed.
      seqM (tryM (\<lambda>e. e = JailDoesNotExist name)
             (whenM (\<not> removed) (bindM (remove_jail_from_name name) (\<lambda>_. ret ()))) (\<lambda>e. ret ()))
      (bindM (sql_query (\<lambda>d. map (\<lambda>(n, cn). n_name n)
          (sort_key (\<lambda>(n, cn). cn_network cn) (joined_networks (c_id r) d)))) (\<lambda>nets.
       seqM (tryM is_Exception
              (bindM (liftR (json_iter (dget (c_config r) ''ports'' (JList [])))) (\<lambda>ports.
               forM ports (remove_port_rules nets))) (\<lambda>e. ret ()))
       (ret ''exited'')))))"

definition mgr_stop_jail :: "string \<Rightarrow> ('x mgr_scheme, string) comp" where
  "mgr_stop_jail name =
     bindM (sql_query (container_named name)) (\<lambda>res.
     case res of
       None \<Rightarrow> ret ''DOESNOTEXIST''
     | Some r \<Rightarrow> if \<not> is_up (c_status r) then ret (c_status r) else stop_running name r)"

text \<open>After the guards, \<open>res\<close> is read before it is bound, whatever the driver: the statements that
  follow (deleting the dataset and the rows) are never reached.\<close>

definition remove_container :: "string \<Rightarrow> ('x mgr_scheme, string) comp" where
  "remove_container name =
     bindM (sql_query (container_named name)) (\<lambda>cont.
     case cont of
       None \<Rightarrow> ret (''Container '' @ name @ '' not found'')
     | Some c \<Rightarrow>
         bindM (if c_status c = ''running'' then bindM (jail_get_id name) (\<lambda>i. ret (i \<noteq> - 1)) else ret False) (\<lambda>up.
         if up then ret ''Container is running. Stop and retry'' else raise UnboundLocalError))"

section \<open>Creation\<close>

text \<open>The names a query asks for, and the sequence of values bound to its placeholders.\<close>

fun bound_sequence :: "json \<Rightarrow> json list res" where
  "bound_sequence (JList xs) = Inr xs"
| "bound_sequence (JStr s) = Inr (map (\<lambda>c. JStr [c]) s)"
| "bound_sequence (JObj d) = Inl (GenericException ''ProgrammingError'')"
| "bound_sequence _ = Inl TypeError"

definition join_names :: "string \<Rightarrow> json list \<Rightarrow> string res" where
  "join_names msg xs = bindR (mapR (as_str TypeError) xs) (\<lambda>ss. Inr (msg @ commas ss))"

text \<open>The message for those of the values that name no row, in some order.\<close>

definition missing_error :: "string \<Rightarrow> json list \<Rightarrow> string list \<Rightarrow> string list res" where
  "missing_error msg wanted found =
     (let missing = remdups (filter (\<lambda>j. j \<notin> set (map JStr found)) wanted) in
      if missing = [] then Inr [] else bindR (join_names msg missing) (\<lambda>m. Inr [m]))"

text \<open>The rows whose key is one of the values, in the order of the index of the key.\<close>

definition rows_in :: "('r \<Rightarrow> string) \<Rightarrow> json list \<Rightarrow> 'r list \<Rightarrow> 'r list res" where
  "rows_in key wanted rows =
     bindR (mapR bind_text wanted) (\<lambda>ks. Inr (sort_key key (filter (\<lambda>r. Some (key r) \<in> set ks) rows)))"

fun volume_targets :: "json dict \<Rightarrow> string list res" where
  "volume_targets [] = Inr []"
| "volume_targets ((m, v) # rest) =
     bindR (jindex v ''type'') (\<lambda>t.
     bindR (volume_targets rest) (\<lambda>ms. Inr (if t = JStr ''volume'' then m # ms else ms)))"

definition validate_container_options ::
  "json \<Rightarrow> json \<Rightarrow> ('x mgr_scheme, string list \<times> nat list) comp" where
  "validate_container_options nets mounts =
     bindM (if truthy nets then
              bindM (liftR (bound_sequence nets)) (\<lambda>names.
              bindM (sql_query (\<lambda>d. rows_in n_name names (networks d))) (\<lambda>found.
              bindM (liftR found) (\<lambda>rows.
              bindM (liftR (missing_error ''Missing networks: '' names (map n_name rows))) (\<lambda>errs.
              ret (errs, map n_id rows)))))
            else ret ([], [])) (\<lambda>(errors, ids).
     bindM (liftR (bindR (jitems mounts) volume_targets)) (\<lambda>volume_mounts.
     if volume_mounts = [] then ret (errors, ids)
     else bindM (sql_query (\<lambda>d. rows_in v_name (map JStr volume_mounts) (volumes d))) (\<lambda>found.
          bindM (liftR found) (\<lambda>rows.
          bindM (liftR (missing_error ''Missing volumes: '' (map JStr volume_mounts) (map v_name rows))) (\<lambda>errs.
          ret (errors @ errs, ids))))))"

text \<open>\<open>uuid4().hex.lower()[:16]\<close>.\<close>

definition new_gid :: "string \<Rightarrow> string" where
  "new_gid u = take 16 (map lower_char (filter (\<lambda>c. c \<noteq> CHR ''-'') u))"

definition insert_container ::
  "json \<Rightarrow> nat \<Rightarrow> json dict \<Rightarrow> json \<Rightarrow> json \<Rightarrow> ('x mgr_scheme, nat \<times> string) comp" where
  "insert_container name imag_id config_json project service =
     bindM (pycall Uuid4) (\<lambda>u.
     bindM (libc Now) (\<lambda>now.
     bindM (liftR (bind_text name)) (\<lambda>n.
     bindM (liftR (bind_text project)) (\<lambda>p.
     bindM (liftR (bind_text service)) (\<lambda>s.
     let text = (\<lambda>v. case v of None \<Rightarrow> JNull | Some t \<Rightarrow> JStr t) in
     bindM (sql_exec (insert_container_row n imag_id config_json (rtext now) (text p) (text s) (new_gid (rtext u)))) (\<lambda>cid.
     ret (cid, new_gid (rtext u))))))))"

text \<open>One address per network, all chosen before any is stored; None is stored as its text.\<close>

fun choose_addresses :: "nat list \<Rightarrow> ('x mgr_scheme, (nat \<times> string) list) comp" where
  "choose_addresses [] = ret []"
| "choose_addresses (i # is) =
     bindM (get_free_ip_for_network i) (\<lambda>addr.
     bindM (choose_addresses is) (\<lambda>rest.
     ret ((i, case addr of Some ip \<Rightarrow> ip_str ip | None \<Rightarrow> ''None'') # rest)))"

definition add_addresses :: "nat list \<Rightarrow> nat \<Rightarrow> ('x mgr_scheme, unit) comp" where
  "add_addresses ids cid =
     bindM (choose_addresses ids) (\<lambda>rows.
     forM rows (\<lambda>(i, ip). sql_run (insert_container_network i cid ip)))"

definition link_volume :: "nat \<Rightarrow> json \<Rightarrow> ('x mgr_scheme, unit) comp" where
  "link_volume cid mount =
     bindM (liftR (jindex mount ''type'')) (\<lambda>t.
     if t \<noteq> JStr ''volume'' then ret ()
     else bindM (liftR (jindex mount ''source'')) (\<lambda>src.
          bindM (liftR (as_str TypeError src)) (\<lambda>source.
          seqM (do_call (FsC (Makedirs (path_join VOLUME_MOUNT_ROOT source))))
          (bindM (libc Now) (\<lambda>now.
           seqM (sql_run (\<lambda>d. Inr (or_ignore (insert_volume_row (Some source) ''local'' source (rtext now) d) d)))
           (bindM (sql_query (\<lambda>d. find_row v_name source (volumes d))) (\<lambda>row.
            case row of
              None \<Rightarrow> raise TypeError
            | Some v \<Rightarrow> sql_run (insert_volume_container (v_id v) cid))))))))"

definition link_container_volumes :: "json list \<Rightarrow> nat \<Rightarrow> ('x mgr_scheme, unit) comp" where
  "link_container_volumes mounts cid = forM mounts (link_volume cid)"

definition create_dataset :: "string \<Rightarrow> string \<Rightarrow> ('x mgr_scheme, int) comp" where
  "create_dataset imgGID contGID =
     bindM (gets storage) (\<lambda>drv.
     let image_path = path_join (IMAGE_ROOT drv) imgGID in
     bindM (get_dataset drv image_path) (\<lambda>image_dataset.
     case image_dataset of
       None \<Rightarrow> raise NameError
     | Some r \<Rightarrow>
         bindM (clone_dataset drv image_path ''base'' (path_join (CONTAINER_ROOT drv) contGID)
                 (path_join CONTAINER_MOUNT_ROOT (path_join contGID ''root''))) (\<lambda>res.
         ret (if res \<noteq> 0 then - 1 else 0))))"

definition config_request :: "json dict \<Rightarrow> json dict" where
  "config_request data =
     [(''env'', dget data ''env'' (JObj [])), (''command'', dget data ''command'' (JList [])),
      (''entrypoint'', dget data ''entrypoint'' (JList [])), (''user'', dget data ''user'' JNull),
      (''workingDir'', dget data ''workingDir'' JNull), (''networks'', dget data ''networks'' (JList [])),
      (''mounts'', dget data ''mounts'' (JList [])), (''ports'', dget data ''ports'' (JList []))]"

text \<open>From the insertion of the container to the end of the transaction.\<close>

definition store_container ::
  "json dict \<Rightarrow> image_row \<Rightarrow> json dict \<Rightarrow> nat list \<Rightarrow> ('x mgr_scheme, int \<times> json) comp" where
  "store_container data img cont_json ids =
     bindM (insert_container (dget data ''name'' JNull) (i_id img) cont_json
             (dget data ''project'' (JStr ''default'')) (dget data ''service'' (JStr ''default''))) (\<lambda>(cid, contGID).
     seqM (whenM (ids \<noteq> []) (add_addresses ids cid))
     (seqM (bindM (liftR (json_iter (dget cont_json ''mounts'' JNull))) (\<lambda>ms. link_container_volumes ms cid))
     (bindM (create_dataset (i_gid img) contGID) (\<lambda>result.
      if result \<noteq> 0 then seqM sql_rollback (ret (- 1, JStr ''Failed to create container''))
      else seqM sql_commit (ret (0, JObj [(''id'', jnat cid)]))))))"

definition create_container :: "json dict \<Rightarrow> ('x mgr_scheme, int \<times> json) comp" where
  "create_container data =
     (let name = dget data ''name'' JNull; nets = dget data ''networks'' (JList []) in
      if \<not> truthy name then ret (- 1, JStr ''Name cannot be empty'')
      else bindM (liftR (as_str AttributeError (dget data ''image'' JNull))) (\<lambda>image_text.
        bindM (liftR (split_tag image_text)) (\<lambda>nt.
        bindM (if truthy nets then validate_container_options nets (dget data ''mounts'' (JList []))
               else ret ([], [])) (\<lambda>(errors, ids).
        if errors \<noteq> [] then ret (- 1, JStr (joinc CHR 0x0A errors))
        else bindM (sql_query (image_named nt)) (\<lambda>row.
          case row of
            None \<Rightarrow> ret (- 1, JStr (''Invalid image: '' @ image_text))
          | Some img \<Rightarrow>
              bindM (create_container_json (i_json img) (config_request data)) (\<lambda>config.
              store_container data img
                (AList.update ''rm'' (dget data ''rm'' (JBool False))
                  (AList.update ''restart'' (dget data ''restart'' (JStr ''no'')) config)) ids))))))"

section \<open>Volumes\<close>

definition create_volume :: "json \<Rightarrow> ('x mgr_scheme, json \<times> string) comp" where
  "create_volume name =
     bindM (liftR (bind_text name)) (\<lambda>key.
     bindM (sql_query (\<lambda>d. find_text v_name key (volumes d))) (\<lambda>row.
     if row \<noteq> None then ret (JNull, ''Volume already exist'')
     else tryM is_Exception
       (bindM (liftR (as_str TypeError name)) (\<lambda>n.
        let path = path_join VOLUME_MOUNT_ROOT n in
        bindM (libc Now) (\<lambda>now.
        seqM (sql_run (insert_volume_row (Some n) ''nullfs'' path (rtext now)))
        (seqM (do_call (FsC (Makedirs path)))
        (seqM sql_commit
        (bindM (sql_query (\<lambda>d. find_row v_name n (volumes d))) (\<lambda>row.
         case row of
           None \<Rightarrow> raise TypeError
         | Some v \<Rightarrow> ret (JObj [(''ID'', jnat (v_id v)), (''name'', JStr (v_name v))], []))))))))
       (\<lambda>e. ret (JNull, ''Failed to create volumes: '' @ exn_text e))))"

section \<open>Closing\<close>

text \<open>Closing the connection drops what is pending.\<close>

definition close :: "('x mgr_scheme, unit) comp" where
  "close = seqM clear_ruleset_before_close sql_rollback"

section \<open>The operations keep the invariant\<close>

lemma keeps_status [mgr_keeps]:
  "st \<in> set lifecycle \<Longrightarrow> keeps (both good) (sql_run (\<lambda>d. Inr (update_status sel st d)))"
  by (rule keeps_sql_run) (auto intro: good_update_status)

lemma known_statuses [mgr_keeps]: "''exited'' \<in> set lifecycle" "''running'' \<in> set lifecycle"
  by (simp_all add: lifecycle_def)

lemma keeps_insert_or_ignore [mgr_keeps]:
  "keeps (both good) (sql_run (\<lambda>d. Inr (or_ignore (insert_volume_row nm dr pa now d) d)))"
  by (rule keeps_sql_run) (auto simp: or_ignore_def intro: good_inserts split: sum.splits)

text \<open>Choosing addresses changes nothing, and what it chooses is free.\<close>

lemma choose_addresses_free:
  "choose_addresses is w = (Inr rows, w') \<Longrightarrow>
   w' = w \<and> map fst rows = is \<and> (\<forall>(i, ip) \<in> set rows. free_ip (cur w) i ip)"
proof (induction "is" arbitrary: rows w')
  case (Cons i "is")
  obtain r w1 where a: "get_free_ip_for_network i w = (r, w1)" by force
  then have [simp]: "w1 = w" by (rule get_free_ip_pure)
  from Cons.prems a obtain addr rest where addr: "r = Inr addr"
    and rest: "choose_addresses is w = (Inr rest, w')"
    and rows: "rows = (i, case addr of Some ip \<Rightarrow> ip_str ip | None \<Rightarrow> ''None'') # rest"
    by (auto simp: bindM_apply split: prod.splits sum.splits)
  have "free_ip (cur w) i (case addr of Some ip \<Rightarrow> ip_str ip | None \<Rightarrow> ''None'')"
    using a addr get_free_ip_free [of i w] by (cases addr) (auto simp: free_ip_def)
  with Cons.IH [OF rest] rows show ?case by simp
qed (simp add: free_ip_def)

lemma choose_addresses_pure: "choose_addresses is w = (r, w') \<Longrightarrow> w' = w"
proof (induction "is" arbitrary: r w')
  case (Cons i "is")
  obtain r1 w1 where a: "get_free_ip_for_network i w = (r1, w1)" by force
  obtain r2 w2 where b: "choose_addresses is w = (r2, w2)" by force
  have "w1 = w" "w2 = w" using get_free_ip_pure [OF a] Cons.IH [OF b] by auto
  with Cons.prems a b show ?case by (auto simp: bindM_apply split: sum.splits)
qed simp

text \<open>Storing rows that are free one by one: another network's row stays free, and a second row of the
  same network is refused.\<close>

lemma store_addresses_good:
  "both good w \<Longrightarrow>
   \<forall>(i, ip) \<in> set rows. free_ip (cur w) i ip \<or>
     (\<exists>r \<in> set (container_networks (cur w)). cn_network r = i \<and> cn_container r = cid) \<Longrightarrow>
   both good (snd (forM rows (\<lambda>(i, ip). sql_run (insert_container_network i cid ip)) w))"
proof (induction rows arbitrary: w)
  case (Cons p rows)
  obtain i ip where p: "p = (i, ip)" by force
  show ?case
  proof (cases "insert_container_network i cid ip (cur w)")
    case (Inl e)
    with Cons.prems(1) p show ?thesis by (simp add: seqM_apply sql_run_apply)
  next
    case (Inr d)
    then have ins: "networks d = networks (cur w)" "(i, cid) \<notin> (\<lambda>r. (cn_network r, cn_container r)) ` set (container_networks (cur w))"
      "container_networks d = container_networks (cur w) @
        [\<lparr>cn_id = next_cn (cur w), cn_network = i, cn_container = cid, cn_ip = ip\<rparr>]"
      by (auto simp: insert_container_network_def bindR_eq_Inr insert_row_Inr)
    then have "free_ip (cur w) i ip" using Cons.prems(2) p by force
    with Inr Cons.prems(1) have good: "both good (w\<lparr>cur := d\<rparr>)"
      by (auto simp: both_def dest: good_insert_address)
    have "\<forall>(j, jp) \<in> set rows. free_ip d j jp \<or>
        (\<exists>r \<in> set (container_networks d). cn_network r = j \<and> cn_container r = cid)"
    proof (safe)
      fix j jp
      assume j: "(j, jp) \<in> set rows"
        and none: "\<not> (\<exists>r \<in> set (container_networks d). cn_network r = j \<and> cn_container r = cid)"
      then have "j \<noteq> i" using ins(3) by auto
      moreover have "free_ip (cur w) j jp" using Cons.prems(2) j none ins(3) by fastforce
      ultimately show "free_ip d j jp" unfolding free_ip_def host_of_def ins(1,3) by auto
    qed
    with Cons.IH [of "w\<lparr>cur := d\<rparr>"] good have
      "both good (snd (forM rows (\<lambda>(i, ip). sql_run (insert_container_network i cid ip)) (w\<lparr>cur := d\<rparr>)))"
      by simp
    then show ?thesis using Inr p by (simp add: seqM_apply sql_run_apply [of _ w])
  qed
qed simp

lemma keeps_add_addresses [mgr_keeps]: "keeps (both good) (add_addresses ids cid)"
proof (rule keepsI)
  fix w :: "'a mgr_scheme"
  assume w: "both good w"
  obtain r w' where c: "choose_addresses ids w = (r, w')" by force
  then have [simp]: "w' = w" by (rule choose_addresses_pure)
  show "both good (snd (add_addresses ids cid w))"
  proof (cases r)
    case (Inr rows)
    with c have "\<forall>(i, ip) \<in> set rows. free_ip (cur w) i ip"
      using choose_addresses_free [of ids w rows w'] by simp
    then have "both good (snd (forM rows (\<lambda>(i, ip). sql_run (insert_container_network i cid ip)) w))"
      by (intro store_addresses_good [OF w]) blast
    with c Inr show ?thesis by (simp add: add_addresses_def bindM_apply)
  qed (use c w in \<open>simp add: add_addresses_def bindM_apply\<close>)
qed

lemma keeps_wait_removed [mgr_keeps]: "keeps (both good) (wait_removed s n)"
  by (induction n) (auto intro!: keeps_rules mgr_keeps keeps_calls)

lemma keeps_containers [mgr_keeps]:
  "keeps (both good) (update_exit_code s)" "keeps (both good) (start_jail s)"
  "keeps (both good) (container_exists s)" "keeps (both good) (status_jail s)"
  "keeps (both good) (list_jails b)" "keeps (both good) (create_old s)" "keeps (both good) (get_container s)"
  "keeps (both good) get_volumes" "keeps (both good) list_images" "keeps (both good) (get_image s)"
  "keeps (both good) (mgr_stop_jail s)" "keeps (both good) (remove_container s)"
  "keeps (both good) load_modules" "keeps (both good) set_sysctls" "keeps (both good) close"
  "keeps (both good) (create_volume j)"
  unfolding update_exit_code_def start_jail_def send_worker_def container_exists_def status_jail_def list_jails_def
    create_old_def get_container_def get_container_networks_def get_volumes_def list_images_def get_image_def
    mgr_stop_jail_def stop_running_def signal_jail_def signal_pid_file_def remove_by_hand_def remove_port_rules_def
    remove_container_def load_modules_def set_sysctls_def close_def create_volume_def Let_def
  by (intro keeps_rules mgr_keeps keeps_calls both_trace)+

lemma keeps_create_container [mgr_keeps]: "keeps (both good) (create_container data)"
  unfolding create_container_def store_container_def insert_container_def link_container_volumes_def
    link_volume_def create_dataset_def validate_container_options_def Let_def
  by (intro keeps_rules mgr_keeps keeps_calls keeps_dataset keeps_create_container_json both_trace)

section \<open>Properties\<close>

text \<open>
  Starting a container that has been started does nothing: the worker is told once.
\<close>

theorem start_once:
  assumes "start_jail name w = (Inr ''running'', w1)"
  shows "start_jail name w1 = (Inr ''running'', w1) \<and>
    (trace w1 = trace w \<or> trace w1 = trace w @ [SendWorker (name @ [CHR 0x0A])])"
proof -
  obtain r where r: "find_row c_name name (containers (cur w)) = Some r"
    using assms by (auto simp: start_jail_def query_simps container_named_def split: option.splits)
  show ?thesis
  proof (cases "is_up (c_status r)")
    case True
    with assms r show ?thesis by (simp add: start_jail_def query_simps container_named_def)
  next
    case False
    with assms r have w1: "w1 = w\<lparr>trace := trace w @ [SendWorker (name @ [CHR 0x0A])],
        cur := update_status (\<lambda>x. c_id x = c_id r) ''running'' (cur w),
        saved := update_status (\<lambda>x. c_id x = c_id r) ''running'' (cur w)\<rparr>"
      by (auto simp: start_jail_def query_simps container_named_def send_worker_def comp_simps
          split: if_splits option.splits)
    have "find_row c_name name (containers (cur w1)) = Some (r\<lparr>c_status := ''running''\<rparr>)"
    proof -
      have "find (\<lambda>x. c_name x = name) (map (\<lambda>x. if c_id x = i then x\<lparr>c_status := ''running''\<rparr> else x) xs) =
          map_option (\<lambda>x. if c_id x = i then x\<lparr>c_status := ''running''\<rparr> else x) (find (\<lambda>x. c_name x = name) xs)"
        for xs :: "container_row list" and i
        by (induction xs) auto
      with r show ?thesis by (simp add: w1 update_status_def find_row_def)
    qed
    then show ?thesis
      using w1 by (simp add: start_jail_def query_simps container_named_def is_up_def)
  qed
qed

definition example_container :: container_row where
  "example_container = \<lparr>c_id = 1, c_name = ''web'', c_image = 1, c_status = ''created'',
     c_config = [(''command'', JList [JStr ''id'']), (''ports'', JList [])], c_created = ''now'',
     c_project = JStr ''default'', c_service = JStr ''default'', c_gid = ''ab''\<rparr>"

definition container_db :: "string \<Rightarrow> db" where
  "container_db st = (empty_db [])\<lparr>containers := [example_container\<lparr>c_status := st\<rparr>], next_c := 2\<rparr>"

theorem start_once_witness:
  "\<exists>w1 :: mgr. start_jail ''web'' (example_mgr (container_db ''created'')) = (Inr ''running'', w1) \<and>
     start_jail ''web'' w1 = (Inr ''running'', w1) \<and> length (trace w1) \<le> 1"
proof -
  let ?w = "example_mgr (container_db ''created'')"
  have "fst (start_jail ''web'' ?w) = Inr ''running''" by code_simp
  then obtain w1 where r: "start_jail ''web'' ?w = (Inr ''running'', w1)" by (metis prod.collapse)
  have "trace ?w = []" by (simp add: example_mgr_def)
  with start_once [OF r] r show ?thesis by auto
qed

text \<open>Neither stopping nor removing a container touches the tables.\<close>

lemma env_same:
  assumes "\<And>I :: 'x mgr_scheme \<Rightarrow> bool. (\<And>w t. I (w\<lparr>trace := t\<rparr>) = I w) \<Longrightarrow> keeps I m" and "m w = (r, w')"
  shows "cur w' = cur w \<and> saved w' = saved (w :: 'x mgr_scheme)"
  using keepsD [OF assms(1) [of "\<lambda>v. cur v = cur w \<and> saved v = saved w"], of w] assms(2) by simp

lemma keeps_stop:
  "(\<And>w t. I (w\<lparr>trace := t\<rparr>) = I w) \<Longrightarrow> keeps I (mgr_stop_jail s)"
  "(\<And>w t. I (w\<lparr>trace := t\<rparr>) = I w) \<Longrightarrow> keeps I (remove_container s)"
proof -
  assume I: "\<And>w t. I (w\<lparr>trace := t\<rparr>) = I w"
  have "keeps I (wait_removed s n)" for s n
    by (induction n) (auto intro!: keeps_rules keeps_calls simp: I)
  then show "keeps I (mgr_stop_jail s)"
    unfolding mgr_stop_jail_def stop_running_def signal_jail_def signal_pid_file_def remove_by_hand_def
      remove_port_rules_def Let_def
    by (intro keeps_rules mgr_keeps keeps_calls I)
next
  assume I: "\<And>w t. I (w\<lparr>trace := t\<rparr>) = I w"
  show "keeps I (remove_container s)"
    unfolding remove_container_def by (intro keeps_rules mgr_keeps keeps_calls I)
qed

text \<open>
  Stopping a container changes no table: when it reports \<open>exited\<close>, the status stays as it was
  until the worker reports the exit.
\<close>

theorem stop_keeps_tables:
  assumes "mgr_stop_jail name w = (r, w')"
  shows "cur w' = cur w \<and> saved w' = saved w \<and>
    (\<forall>c. container_named name (cur w) = Some c \<and> c_status c = ''running'' \<longrightarrow>
       status_jail name w' = (Inr ''running'', w'))"
  using env_same [OF keeps_stop(1) assms] by (simp add: status_jail_def query_simps)

theorem stop_keeps_tables_witness:
  "\<exists>w' :: mgr. mgr_stop_jail ''web'' (example_mgr (container_db ''running'')) = (Inr ''exited'', w') \<and>
     status_jail ''web'' w' = (Inr ''running'', w')"
proof -
  let ?w = "example_mgr (container_db ''running'')"
  have "fst (mgr_stop_jail ''web'' ?w) = Inr ''exited''" by code_simp
  then obtain w' where r: "mgr_stop_jail ''web'' ?w = (Inr ''exited'', w')" by (metis prod.collapse)
  have c: "container_named ''web'' (cur ?w) = Some (example_container\<lparr>c_status := ''running''\<rparr>)"
    by (simp add: example_mgr_def container_db_def container_named_def find_row_def example_container_def)
  have "status_jail ''web'' w' = (Inr ''running'', w')"
    using stop_keeps_tables [OF r] c by simp
  with r show ?thesis by blast
qed

text \<open>
  No container is ever removed: the operation leaves every table as it is, never reports
  success, and raises UnboundLocalError for a container that is not running.
\<close>

theorem remove_never_removes:
  assumes "remove_container name w = (r, w')"
  shows "cur w' = cur w \<and> saved w' = saved w \<and> r \<noteq> Inr [] \<and>
    (\<forall>c. container_named name (cur w) = Some c \<and> c_status c \<noteq> ''running'' \<longrightarrow> r = Inl UnboundLocalError)"
  using env_same [OF keeps_stop(2) assms] assms
  by (auto simp: remove_container_def query_simps bindM_apply sql_query_apply split: option.splits prod.splits sum.splits if_splits)

theorem remove_never_removes_witness:
  "\<exists>w' :: mgr. remove_container ''web'' (example_mgr (container_db ''exited'')) = (Inl UnboundLocalError, w') \<and>
     cur w' = container_db ''exited''"
proof -
  let ?w = "example_mgr (container_db ''exited'')"
  obtain r w' where r: "remove_container ''web'' ?w = (r, w')" by force
  have "container_named ''web'' (cur ?w) = Some (example_container\<lparr>c_status := ''exited''\<rparr>)"
    by (simp add: example_mgr_def container_db_def container_named_def find_row_def example_container_def)
  with remove_never_removes [OF r] r show ?thesis by (auto simp: example_mgr_def)
qed

text \<open>What keeps the committed tables and the containers of the open transaction.\<close>

definition holding :: "db \<Rightarrow> container_row list \<Rightarrow> 'x mgr_scheme \<Rightarrow> bool" where
  "holding S C w \<longleftrightarrow> saved w = S \<and> containers (cur w) = C"

lemma keeps_holding_run:
  "(\<And>d d'. f d = Inr d' \<Longrightarrow> containers d' = containers d) \<Longrightarrow> keeps (holding S C) (sql_run f)"
  by (rule keepsI) (auto simp: sql_run_apply holding_def split: sum.splits)

lemma holding_trace: "holding S C (w\<lparr>trace := t\<rparr>) = holding S C w"
  by (simp add: holding_def)

lemma keeps_choose_addresses: "keeps (I :: 'x mgr_scheme \<Rightarrow> bool) (choose_addresses is)"
  using choose_addresses_pure by (metis keepsI prod.collapse)

lemma keeps_holding:
  "keeps (holding S C) (add_addresses ids cid)" "keeps (holding S C) (link_container_volumes ms cid)"
  "keeps (holding S C) (create_dataset g g')"
proof -
  have "keeps (holding S C) (sql_run (insert_container_network i cid ip))"
    "keeps (holding S C) (sql_run (insert_volume_container v cid))"
    "keeps (holding S C) (sql_run (\<lambda>d. Inr (or_ignore (insert_volume_row nm dr pa now d) d)))" for i ip v nm dr pa now
    by (rule keeps_holding_run; auto simp: insert_defs bindR_eq_Inr or_ignore_def split: sum.splits)+
  note steps = this keeps_choose_addresses
  show "keeps (holding S C) (add_addresses ids cid)" "keeps (holding S C) (link_container_volumes ms cid)"
    unfolding add_addresses_def link_container_volumes_def link_volume_def
    by (intro keeps_rules steps keeps_calls holding_trace keeps_sql_query)+
  show "keeps (holding S C) (create_dataset g g')"
    unfolding create_dataset_def Let_def
    by (intro keeps_rules keeps_dataset holding_trace)
qed

text \<open>The row a creation inserts.\<close>

definition new_row :: "json dict \<Rightarrow> image_row \<Rightarrow> json dict \<Rightarrow> nat \<Rightarrow> container_row list \<Rightarrow> container_row \<Rightarrow> bool" where
  "new_row data img config cid old row \<longleftrightarrow>
     bind_text (dget data ''name'' JNull) = Inr (Some (c_name row)) \<and> c_name row \<notin> c_name ` set old \<and>
     c_id row = cid \<and> c_status row = ''created'' \<and> c_image row = i_id img \<and> c_config row = config"

lemma insert_container_result:
  "triple (holding S C)
     (insert_container (dget data ''name'' JNull) (i_id img) config p s)
     (\<lambda>(cid, gid) v. \<exists>row. holding S (C @ [row]) v \<and> new_row data img config cid C row)"
  by (rule tripleI)
    (auto simp: insert_container_def comp_simps liftR_def Let_def holding_def new_row_def
      insert_container_row_def bindR_eq_Inr insert_row_Inr not_null_Inr
      split: sum.splits prod.splits option.splits)

lemma keeps_ex: "(\<And>x. keeps (P x) m) \<Longrightarrow> keeps (\<lambda>w. \<exists>x. P x w \<and> Q x) m"
  unfolding keeps_def by blast

lemma store_container_result:
  "triple (holding S C) (store_container data img config ids)
     (\<lambda>(n, j) v. if n = 0
        then cur v = saved v \<and> (\<exists>cid row. j = JObj [(''id'', jnat cid)] \<and> containers (saved v) = C @ [row] \<and>
          new_row data img config cid C row)
        else cur v = S \<and> saved v = S)"
  unfolding store_container_def
proof (rule triple_bindM [OF insert_container_result])
  fix x :: "nat \<times> string"
  obtain cid gid where x: "x = (cid, gid)" by force
  let ?I = "\<lambda>v. \<exists>row. holding S (C @ [row]) v \<and> new_row data img config cid C row"
  show "triple (case x of (cid, gid) \<Rightarrow> \<lambda>v. \<exists>row. holding S (C @ [row]) v \<and> new_row data img config cid C row)
     (case x of (cid, contGID) \<Rightarrow>
        seqM (whenM (ids \<noteq> []) (add_addresses ids cid))
        (seqM (bindM (liftR (json_iter (dget config ''mounts'' JNull))) (\<lambda>ms. link_container_volumes ms cid))
        (bindM (create_dataset (i_gid img) contGID) (\<lambda>result.
         if result \<noteq> 0 then seqM sql_rollback (ret (- 1 :: int, JStr ''Failed to create container''))
         else seqM sql_commit (ret (0, JObj [(''id'', jnat cid)]))))))
     (\<lambda>(n, j) v. if n = 0
        then cur v = saved v \<and> (\<exists>cid row. j = JObj [(''id'', jnat cid)] \<and> containers (saved v) = C @ [row] \<and>
          new_row data img config cid C row)
        else cur v = S \<and> saved v = S)"
    unfolding x prod.case
  proof (intro triple_next triple_then)
    show "keeps ?I (whenM (ids \<noteq> []) (add_addresses ids cid))"
      "keeps ?I (bindM (liftR (json_iter (dget config ''mounts'' JNull))) (\<lambda>ms. link_container_volumes ms cid))"
      "keeps ?I (create_dataset (i_gid img) gid)"
      by (rule keeps_ex, intro keeps_rules keeps_holding)+
  qed (auto simp: triple_def comp_simps holding_def)
qed

text \<open>What a creation that returns has stored, and what one that raises leaves: at most the row of the
  container, pending.\<close>

definition stored_config :: "json dict \<Rightarrow> json dict \<Rightarrow> json dict" where
  "stored_config data config =
     AList.update ''rm'' (dget data ''rm'' (JBool False))
       (AList.update ''restart'' (dget data ''restart'' (JStr ''no'')) config)"

definition created :: "json dict \<Rightarrow> 'x mgr_scheme \<Rightarrow> nat \<Rightarrow> container_row \<Rightarrow> image_row \<Rightarrow> json dict \<Rightarrow> bool" where
  "created data w cid row img config \<longleftrightarrow>
     (\<exists>nt. bindR (as_str AttributeError (dget data ''image'' JNull)) split_tag = Inr nt \<and> image_named nt (cur w) = Some img) \<and>
     new_row data img (stored_config data config) cid (containers (cur w)) row \<and>
     (\<exists>(w1 :: 'x mgr_scheme) w2. create_container_json (i_json img) (config_request data) w1 = (Inr config, w2))"

definition at_most_pending :: "db \<Rightarrow> container_row list \<Rightarrow> 'x mgr_scheme \<Rightarrow> bool" where
  "at_most_pending S C w \<longleftrightarrow> saved w = S \<and> (\<exists>added. length added \<le> 1 \<and> containers (cur w) = C @ added)"

lemma at_most_pending_start: "saved w = S \<Longrightarrow> containers (cur w) = C \<Longrightarrow> at_most_pending S C w"
  by (auto simp: at_most_pending_def intro: exI [of _ "[]"])

lemma at_most_pending_row: "\<exists>row. holding S (C @ [row]) w \<and> Q row \<Longrightarrow> at_most_pending S C w"
  by (auto simp: at_most_pending_def holding_def)

lemma keeps_valid:
  "keeps (\<lambda>v. cur v = D \<and> saved v = S) (if b then validate_container_options nets ms else ret ([], []))"
  unfolding validate_container_options_def by (intro keeps_rules keeps_sql_query)

lemma create_container_result:
  "triple (\<lambda>v :: 'x mgr_scheme. cur v = cur w \<and> saved v = saved w) (create_container data)
     (\<lambda>(n, j) v. if n = 0
        then cur v = saved v \<and> (\<exists>cid row img config. j = JObj [(''id'', jnat cid)] \<and>
          containers (saved v) = containers (cur w) @ [row] \<and> created data w cid row img config)
        else saved v = saved w \<and> (cur v = cur w \<or> cur v = saved (w :: 'x mgr_scheme)))"
  (is "triple ?P _ ?Q")
proof -
  have fail: "(\<And>v. R v \<Longrightarrow> ?P v) \<Longrightarrow> triple R (ret (- 1, m)) ?Q" for m R by (simp add: triple_def)
  have store: "triple (\<lambda>v. ?P v \<and> image_named nt (cur v) = y)
      (bindM (create_container_json (i_json img) (config_request data))
        (\<lambda>config. store_container data img (stored_config data config) ids)) ?Q"
    if nt: "as_str AttributeError (dget data ''image'' JNull) = Inr s" "split_tag s = Inr nt" "y = Some img" for img ids s nt y
  proof (rule tripleI)
    fix v :: "'x mgr_scheme" and x v'
    assume "?P v \<and> image_named nt (cur v) = y"
      and run: "bindM (create_container_json (i_json img) (config_request data))
        (\<lambda>config. store_container data img (stored_config data config) ids) v = (Inr x, v')"
    then have v: "?P v \<and> image_named nt (cur v) = Some img" using nt(3) by metis
    obtain r v1 where c: "create_container_json (i_json img) (config_request data) v = (r, v1)" by force
    with run obtain config where r: "r = Inr config" by (cases r) (auto simp: bindM_apply)
    have "?P v1" using env_same [OF keeps_create_container_json c] v by simp
    then have "holding (saved w) (containers (cur w)) v1" by (simp add: holding_def)
    moreover have "store_container data img (stored_config data config) ids v1 = (Inr x, v')" using run c r by (simp add: bindM_apply)
    ultimately have "case x of (n, j) \<Rightarrow> if n = 0
        then cur v' = saved v' \<and> (\<exists>cid row. j = JObj [(''id'', jnat cid)] \<and>
          containers (saved v') = containers (cur w) @ [row] \<and>
          new_row data img (stored_config data config) cid (containers (cur w)) row)
        else cur v' = saved w \<and> saved v' = saved w"
      using tripleD [OF store_container_result] by fastforce
    moreover have "bindR (as_str AttributeError (dget data ''image'' JNull)) split_tag = Inr nt" using nt by simp
    ultimately show "?Q x v'" using v c r unfolding created_def by (cases x) (auto split: if_splits, blast)
  qed
  show ?thesis
    unfolding create_container_def Let_def stored_config_def [symmetric]
    by (intro triple_if fail triple_liftR triple_query triple_then [OF keeps_valid] triple_case_prod
        triple_case_option store) auto
qed

lemma insert_container_fails: "fails (holding S C) (insert_container name i config p s) (holding S C)"
  by (rule failsI)
    (auto simp: insert_container_def comp_simps liftR_def Let_def holding_def split: sum.splits prod.splits)

lemma store_container_fails:
  "fails (holding S C) (store_container data img config ids) (at_most_pending S C)"
  unfolding store_container_def
proof (rule fails_bindM [OF _ insert_container_result])
  show "fails (holding S C) (insert_container (dget data ''name'' JNull) (i_id img) config
      (dget data ''project'' (JStr ''default'')) (dget data ''service'' (JStr ''default''))) (at_most_pending S C)"
    using insert_container_fails at_most_pending_start unfolding fails_def holding_def by metis
next
  fix x :: "nat \<times> string"
  obtain cid gid where x: "x = (cid, gid)" by force
  let ?I = "\<lambda>v. \<exists>row. holding S (C @ [row]) v \<and> new_row data img config cid C row"
  have keeps: "keeps ?I (whenM (ids \<noteq> []) (add_addresses ids cid))"
    "keeps ?I (bindM (liftR (json_iter (dget config ''mounts'' JNull))) (\<lambda>ms. link_container_volumes ms cid))"
    "keeps ?I (create_dataset (i_gid img) gid)"
    by (rule keeps_ex, intro keeps_rules keeps_holding)+
  have ends: "fails ?I (if result \<noteq> 0 then seqM sql_rollback (ret (- 1 :: int, JStr ''Failed to create container''))
      else seqM sql_commit (ret (0, JObj [(''id'', jnat cid)]))) (at_most_pending S C)" for result :: int
    by (simp add: fails_def comp_simps)
  show "fails (case x of (cid, gid) \<Rightarrow> \<lambda>v. \<exists>row. holding S (C @ [row]) v \<and> new_row data img config cid C row)
     (case x of (cid, contGID) \<Rightarrow>
        seqM (whenM (ids \<noteq> []) (add_addresses ids cid))
        (seqM (bindM (liftR (json_iter (dget config ''mounts'' JNull))) (\<lambda>ms. link_container_volumes ms cid))
        (bindM (create_dataset (i_gid img) contGID) (\<lambda>result.
         if result \<noteq> 0 then seqM sql_rollback (ret (- 1 :: int, JStr ''Failed to create container''))
         else seqM sql_commit (ret (0, JObj [(''id'', jnat cid)]))))))
     (at_most_pending S C)"
    unfolding x prod.case
    by (intro fails_next [OF keeps(1)] fails_next [OF keeps(2)] fails_then [OF keeps(3)] ends at_most_pending_row)
qed

lemma create_container_fails:
  "fails (\<lambda>v :: 'x mgr_scheme. cur v = cur w \<and> saved v = saved w) (create_container data)
     (at_most_pending (saved w) (containers (cur (w :: 'x mgr_scheme))))"
  (is "fails ?P _ ?E")
proof -
  have start: "?P v \<Longrightarrow> ?E v" for v by (rule at_most_pending_start) simp_all
  have store: "fails ?P (bindM (create_container_json (i_json img) (config_request data))
        (\<lambda>config. store_container data img (stored_config data config) ids)) ?E" for img ids
  proof (intro fails_then keeps_create_container_json start)
    show "fails ?P (store_container data img (stored_config data config) ids) ?E" for config
      using store_container_fails [of "saved w" "containers (cur w)"] unfolding fails_def holding_def by metis
  qed simp_all
  show ?thesis
    unfolding create_container_def Let_def stored_config_def [symmetric]
    by (intro fails_if fails_ret fails_liftR fails_then [OF keeps_valid] fails_then [OF keeps_sql_query]
        fails_case_prod fails_case_option store start)
qed


definition example_image :: image_row where
  "example_image = \<lparr>i_id = 1, i_name = ''base'', i_tag = ''14'', i_created = ''now'',
     i_json = [(''command'', JList [JStr ''id'']), (''entrypoint'', JList []), (''PATH'', JList [JStr ''/bin'']),
       (''env'', JObj []), (''volumes'', JObj [])], i_gid = ''ff''\<rparr>"

definition image_mgr :: mgr where
  "image_mgr = (example_mgr (empty_db [example_image]))\<lparr>kern := \<lambda>_ _. ok_ret\<lparr>rnames := [''base'']\<rparr>\<rparr>"

definition create_data :: "json dict" where
  "create_data = [(''name'', JStr ''web''), (''image'', JStr ''base:14''), (''mounts'', JObj [])]"

lemma create_data_made: "\<exists>j (w' :: mgr). create_container create_data image_mgr = (Inr (0, j), w')"
proof -
  have "(case fst (create_container create_data image_mgr) of Inr (n, j) \<Rightarrow> n = 0 | _ \<Rightarrow> False)" by code_simp
  then show ?thesis by (cases "create_container create_data image_mgr") (auto split: sum.splits)
qed


lemma appends_wait_removed: "appends (wait_removed name n)"
  by (induction n) (auto intro!: emits_rules)

text \<open>
  C22.  A container that does not go away is waited for a bounded time: at most \<open>n\<close> looks, each
  followed by one second of sleep unless it found the jail gone, which is what the result says.
\<close>

theorem wait_removed_bounded:
  assumes "\<forall>t c. raises (kern w t c) = None" and "name \<noteq> []"
  shows "\<exists>k b. k \<le> n \<and> fst (wait_removed name n w) = Inr b \<and> (b \<longrightarrow> k < n) \<and> (\<not> b \<longrightarrow> k = n) \<and>
    (let look = JailC (Jail_get (str_iovec ''name'' name) 0);
         looks = concat (replicate k [look, ProcC (Sleep 1)]) in
     calls (wait_removed name n) w = looks @ (if b then [look] else []) \<and>
     (b \<longrightarrow> rv (kern w (trace w @ looks) look) = - 1))"
  using assms
proof (induction n arbitrary: w)
  case (Suc n)
  let ?look = "JailC (Jail_get (str_iovec ''name'' name) 0)"
  let ?w1 = "w\<lparr>trace := trace w @ [?look]\<rparr>"
  have look: "jail_get_id name w = (Inr (rv (kern w (trace w) ?look)), ?w1)"
    using Suc.prems(2) by (simp add: jail_get_id_def get_jail_id_by_name_def comp_simps)
  show ?case
  proof (cases "rv (kern w (trace w) ?look) = - 1")
    case True
    with look have "wait_removed name (Suc n) w = (Inr True, ?w1)"
      by (simp add: bindM_apply error_codes)
    with True show ?thesis by (intro exI [of _ 0] exI [of _ True]) (simp add: calls_def)
  next
    case False
    let ?w2 = "w\<lparr>trace := trace w @ [?look, ProcC (Sleep 1)]\<rparr>"
    have step: "wait_removed name (Suc n) w = wait_removed name n ?w2"
      using False look Suc.prems by (simp add: bindM_apply seqM_apply do_call_apply error_codes)
    from Suc.IH [of ?w2] Suc.prems obtain k b where
      k: "k \<le> n" "fst (wait_removed name n ?w2) = Inr b" "b \<longrightarrow> k < n" "\<not> b \<longrightarrow> k = n"
      "calls (wait_removed name n) ?w2 = concat (replicate k [?look, ProcC (Sleep 1)]) @ (if b then [?look] else [])"
      "b \<longrightarrow> rv (kern w (trace w @ [?look, ProcC (Sleep 1)] @ concat (replicate k [?look, ProcC (Sleep 1)])) ?look) = - 1"
      by (auto simp: Let_def)
    have "calls (wait_removed name (Suc n)) w = [?look, ProcC (Sleep 1)] @ calls (wait_removed name n) ?w2"
      using calls_after [where m' = "wait_removed name (Suc n)" and m = "wait_removed name n" and w = w and ?w1.0 = ?w2
          and cs = "[?look, ProcC (Sleep 1)]"] step appends_wait_removed [of name n] by simp
    with k step show ?thesis
      by (intro exI [of _ "Suc k"] exI [of _ b]) (auto simp: Let_def)
  qed
qed (auto simp: calls_def)

theorem wait_removed_bounded_witness:
  "\<exists>(k :: nat) b. k \<le> 10 \<and> fst (wait_removed ''web'' 10 (example_mgr (empty_db []))) = Inr b \<and> \<not> b \<and> k = 10"
proof -
  let ?w = "example_mgr (empty_db [])"
  have q: "\<forall>t c. raises (kern ?w t c) = None" by (simp add: example_mgr_def ok_ret_def)
  have "fst (wait_removed ''web'' 10 ?w) = Inr False" by code_simp
  moreover have "''web'' \<noteq> []" by simp
  ultimately show ?thesis using wait_removed_bounded [OF q, of "''web''" 10] by auto
qed

lemma get_container_answer:
  assumes "container_named name (cur w) = Some r" and "distinct (map fst (c_config r))" and "map_of (c_config r) ''id'' = None"
  shows "\<exists>c. get_container name w = (Inr (Some (JObj c)), w) \<and>
    (\<forall>k. k \<noteq> ''path'' \<longrightarrow> k \<noteq> ''networks'' \<longrightarrow> map_of c k =
       (case map_of (c_config r) k of Some v \<Rightarrow> Some v | None \<Rightarrow> map_of (container_columns r) k)) \<and>
    map_of c ''path'' = Some (JStr (path_join CONTAINER_MOUNT_ROOT (c_gid r))) \<and>
    map_of c ''networks'' = Some (JList (map (\<lambda>(n, cn). container_network_json n cn) (joined_networks (c_id r) (cur w))))"
  using assms(1,3) map_of_dmerge [OF assms(2), of "container_columns r"]
  by (simp add: get_container_def query_simps sql_query_apply bindM_apply Let_def dget_def container_columns_def)



end
