(* ===== verification/SubnetTrie.thy ===== *)
theory SubnetTrie
  imports IPv4
begin

text \<open>
  \<open>app2/dns/SubnetTrie.py\<close>: the binary trie that maps a client address to the name of the network
  it belongs to.  The loops over bit positions are recursions over the list of the bits they read.
  The locale \<open>prefix_table\<close> is what the resolver relies on; the trie is its interpretation, and
  lookup is proved to be longest-prefix match over everything inserted, the network /0 excepted.
\<close>

section \<open>The trie\<close>

text \<open>A node: the two children and the name of the network that ends there.\<close>

datatype trie_node = TrieNode (child0: "trie_node option") (child1: "trie_node option")
  (network_name: "string option")

record subnet_trie =
  root :: trie_node
  node_count :: nat

definition new_node :: trie_node where
  "new_node = TrieNode None None None"

definition empty_trie :: subnet_trie where
  "empty_trie = \<lparr>root = new_node, node_count = 1\<rparr>"

definition get_bit :: "ipv4 \<Rightarrow> nat \<Rightarrow> bool" where
  "get_bit ip_int bit_index = (drop_bit (31 - bit_index) ip_int AND 1 = 1)"

fun child :: "bool \<Rightarrow> trie_node \<Rightarrow> trie_node option" where
  "child False (TrieNode l r x) = l"
| "child True (TrieNode l r x) = r"

fun set_child :: "bool \<Rightarrow> trie_node \<Rightarrow> trie_node \<Rightarrow> trie_node" where
  "set_child False t (TrieNode l r x) = TrieNode (Some t) r x"
| "set_child True t (TrieNode l r x) = TrieNode l (Some t) x"

text \<open>The loop of \<open>insert\<close> below a node: the node as it is left, and how many nodes were made.\<close>

fun insert_bits :: "string \<Rightarrow> bool list \<Rightarrow> trie_node \<Rightarrow> trie_node \<times> nat" where
  "insert_bits name [] (TrieNode l r x) = (TrieNode l r (Some name), 0)"
| "insert_bits name (b # bs) t =
     (case child b t of
        None \<Rightarrow> (let (c, k) = insert_bits name bs new_node in (set_child b c t, Suc k))
      | Some c0 \<Rightarrow> (let (c, k) = insert_bits name bs c0 in (set_child b c t, k)))"

definition trie_insert_net :: "string \<Rightarrow> ipv4_network \<Rightarrow> subnet_trie \<Rightarrow> subnet_trie" where
  "trie_insert_net name subnet t =
     (let bits = map (get_bit (net_addr subnet)) [0 ..< net_prefix subnet];
          (r, k) = insert_bits name bits (root t)
      in t\<lparr>root := r, node_count := node_count t + k\<rparr>)"

definition trie_insert :: "string \<Rightarrow> string \<Rightarrow> subnet_trie \<Rightarrow> subnet_trie res" where
  "trie_insert name subnet_str t =
     bindR (ip_network subnet_str) (\<lambda>subnet. Inr (trie_insert_net name subnet t))"

text \<open>The loop of \<open>find\<close> with its \<open>last_found\<close>.  The root's own name is never looked at.\<close>

fun find_bits :: "string option \<Rightarrow> bool list \<Rightarrow> trie_node \<Rightarrow> string option" where
  "find_bits last_found [] t = last_found"
| "find_bits last_found (b # bs) t =
     (case child b t of
        None \<Rightarrow> last_found
      | Some c \<Rightarrow> find_bits (case network_name c of Some x \<Rightarrow> Some x | None \<Rightarrow> last_found) bs c)"

definition trie_find_ip :: "subnet_trie \<Rightarrow> ipv4 \<Rightarrow> string option" where
  "trie_find_ip t ip_int = find_bits None (map (get_bit ip_int) [0 ..< 32]) (root t)"

definition trie_find :: "subnet_trie \<Rightarrow> string \<Rightarrow> string option res" where
  "trie_find t ip = bindR (ip_of_str ip) (\<lambda>ip_int. Inr (trie_find_ip t ip_int))"

section \<open>The trie as a table of bit strings\<close>

text \<open>\<open>entry_at bs t\<close>: the name stored at the end of the path \<open>bs\<close>.\<close>

fun entry_at :: "bool list \<Rightarrow> trie_node \<Rightarrow> string option" where
  "entry_at [] t = network_name t"
| "entry_at (b # bs) t = (case child b t of None \<Rightarrow> None | Some c \<Rightarrow> entry_at bs c)"

lemma child_set_child [simp]:
  "child b' (set_child b c t) = (if b' = b then Some c else child b' t)"
  by (cases t; cases b; cases b') auto

lemma network_name_set_child [simp]: "network_name (set_child b c t) = network_name t"
  by (cases t; cases b) auto

lemma entry_at_new_node [simp]: "entry_at bs new_node = None"
proof (cases bs)
  case (Cons b cs)
  then show ?thesis by (cases b) (simp_all add: new_node_def)
qed (simp add: new_node_def)

lemma insert_bits_None:
  "child b t = None \<Longrightarrow>
   insert_bits name (b # bs) t =
     (set_child b (fst (insert_bits name bs new_node)) t, Suc (snd (insert_bits name bs new_node)))"
  by (simp split: prod.splits)

lemma insert_bits_Some:
  "child b t = Some c \<Longrightarrow>
   insert_bits name (b # bs) t =
     (set_child b (fst (insert_bits name bs c)) t, snd (insert_bits name bs c))"
  by (simp split: prod.splits)

lemma entry_at_insert_bits:
  "entry_at cs (fst (insert_bits name bs t)) = (if cs = bs then Some name else entry_at cs t)"
proof (induction bs arbitrary: cs t)
  case Nil
  then show ?case by (cases t; cases cs) (auto split: option.splits intro: child.elims)
next
  case (Cons b bs)
  then show ?case
    by (cases "child b t"; cases cs)
      (auto simp: insert_bits_None insert_bits_Some simp del: insert_bits.simps)
qed

text \<open>The number of nodes: each insertion counts exactly the nodes it makes.\<close>

primrec count_nodes :: "trie_node \<Rightarrow> nat" where
  "count_nodes (TrieNode l r x) =
     1 + (case map_option count_nodes l of None \<Rightarrow> 0 | Some k \<Rightarrow> k)
       + (case map_option count_nodes r of None \<Rightarrow> 0 | Some k \<Rightarrow> k)"

lemma count_set_child:
  "count_nodes (set_child b c t) =
     count_nodes t + count_nodes c - (case child b t of None \<Rightarrow> 0 | Some c0 \<Rightarrow> count_nodes c0)"
  by (cases t; cases b) (auto split: option.splits)

lemma count_child_le: "child b t = Some c \<Longrightarrow> count_nodes c \<le> count_nodes t"
  by (cases t; cases b) auto

lemma count_insert_bits:
  "count_nodes (fst (insert_bits name bs t)) = count_nodes t + snd (insert_bits name bs t)"
proof (induction bs arbitrary: t)
  case Nil
  then show ?case by (cases t) auto
next
  case (Cons b bs)
  have "count_nodes new_node = 1" by (simp add: new_node_def)
  with Cons.IH show ?case
    by (cases "child b t")
      (auto simp: insert_bits_None insert_bits_Some count_set_child dest: count_child_le
        simp del: insert_bits.simps)
qed

text \<open>\<open>estimate_memory\<close>, given what \<open>sys.getsizeof\<close> says of a node, of its list of children and of its
  name.  No node is met twice, so the set of nodes seen leaves none out.\<close>

primrec sizeof_node ::
  "(trie_node \<Rightarrow> nat) \<Rightarrow> (trie_node option list \<Rightarrow> nat) \<Rightarrow> (string option \<Rightarrow> nat) \<Rightarrow> trie_node \<Rightarrow> nat" where
  "sizeof_node sn sc sx (TrieNode l r x) =
     sn (TrieNode l r x) + sc [l, r] + sx x
       + (case map_option (sizeof_node sn sc sx) l of None \<Rightarrow> 0 | Some k \<Rightarrow> k)
       + (case map_option (sizeof_node sn sc sx) r of None \<Rightarrow> 0 | Some k \<Rightarrow> k)"

definition estimate_memory ::
  "(trie_node \<Rightarrow> nat) \<Rightarrow> (trie_node option list \<Rightarrow> nat) \<Rightarrow> (string option \<Rightarrow> nat) \<Rightarrow> subnet_trie \<Rightarrow> nat" where
  "estimate_memory sn sc sx t = sizeof_node sn sc sx (root t)"

text \<open>A node and its list have a size that does not depend on what they hold: the estimate then grows
  with the number of nodes.\<close>

lemma sizeof_count:
  assumes "\<forall>x. sx x \<le> m"
  shows "count_nodes t * (a + b) \<le> sizeof_node (\<lambda>_. a) (\<lambda>_. b) sx t \<and>
    sizeof_node (\<lambda>_. a) (\<lambda>_. b) sx t \<le> count_nodes t * (a + b + m)"
proof (induction t)
  case (TrieNode l r x)
  let ?f = "sizeof_node (\<lambda>_. a) (\<lambda>_. b) sx"
  have below: "(case map_option count_nodes c of None \<Rightarrow> 0 | Some k \<Rightarrow> k) * (a + b)
        \<le> (case map_option ?f c of None \<Rightarrow> 0 | Some k \<Rightarrow> k) \<and>
      (case map_option ?f c of None \<Rightarrow> 0 | Some k \<Rightarrow> k)
        \<le> (case map_option count_nodes c of None \<Rightarrow> 0 | Some k \<Rightarrow> k) * (a + b + m)" if "c = l \<or> c = r" for c
    using TrieNode that by (cases c) auto
  have "sx x \<le> m" using assms by blast
  with below [of l] below [of r] show ?case by (auto simp: algebra_simps)
qed

text \<open>The loop of \<open>find\<close> returns the entry of the longest prefix of the bits that has one.\<close>

lemma find_bits_eq:
  "find_bits acc bs t = x \<Longrightarrow>
     (\<exists>k. 0 < k \<and> k \<le> length bs \<and> entry_at (take k bs) t \<noteq> None \<and> x = entry_at (take k bs) t \<and>
          (\<forall>j. k < j \<and> j \<le> length bs \<longrightarrow> entry_at (take j bs) t = None))
     \<or> x = acc \<and> (\<forall>j. 0 < j \<and> j \<le> length bs \<longrightarrow> entry_at (take j bs) t = None)"
proof (induction bs arbitrary: acc t)
  case Nil
  then show ?case by simp
next
  case (Cons b bs)
  show ?case
  proof (cases "child b t")
    case None
    then have "entry_at (take j (b # bs)) t = None" if "0 < j" for j
      using that by (cases j) auto
    with None Cons.prems show ?thesis by auto
  next
    case (Some c)
    have step: "entry_at (take (Suc j) (b # bs)) t = entry_at (take j bs) c" for j
      using Some by simp
    let ?acc = "case network_name c of Some x \<Rightarrow> Some x | None \<Rightarrow> acc"
    have "find_bits ?acc bs c = x" using Cons.prems Some by simp
    from Cons.IH [OF this] consider
      (deeper) k where "0 < k" "k \<le> length bs" "entry_at (take k bs) c \<noteq> None"
        "x = entry_at (take k bs) c" "\<forall>j. k < j \<and> j \<le> length bs \<longrightarrow> entry_at (take j bs) c = None"
    | (here) "x = ?acc" "\<forall>j. 0 < j \<and> j \<le> length bs \<longrightarrow> entry_at (take j bs) c = None"
      by blast
    then show ?thesis
    proof cases
      case deeper
      then have "\<forall>j. Suc k < j \<and> j \<le> length (b # bs) \<longrightarrow> entry_at (take j (b # bs)) t = None"
        using step by (metis Suc_le_mono Suc_less_eq2 length_Cons)
      with deeper step show ?thesis
        by (intro disjI1 exI [of _ "Suc k"]) auto
    next
      case here
      then have rest: "\<forall>j. 1 < j \<and> j \<le> length (b # bs) \<longrightarrow> entry_at (take j (b # bs)) t = None"
        using step by (metis One_nat_def Suc_le_mono Suc_less_eq2 length_Cons)
      have one: "entry_at (take 1 (b # bs)) t = network_name c" using Some by simp
      show ?thesis
      proof (cases "network_name c")
        case None
        with here(1) one rest have "x = acc \<and>
            (\<forall>j. 0 < j \<and> j \<le> length (b # bs) \<longrightarrow> entry_at (take j (b # bs)) t = None)"
          by (metis One_nat_def Suc_lessI option.simps(4))
        then show ?thesis ..
      next
        case (Some y)
        with here(1) one rest show ?thesis by (intro disjI1 exI [of _ 1]) auto
      qed
    qed
  qed
qed

section \<open>Networks as bit strings\<close>

definition net_bits :: "ipv4_network \<Rightarrow> bool list" where
  "net_bits n = map (get_bit (net_addr n)) [0 ..< net_prefix n]"

lemma get_bit_iff: "get_bit x i \<longleftrightarrow> bit x (31 - i)"
  by (simp add: get_bit_def and_one_eq bit_iff_odd_drop_bit odd_iff_mod_2_eq_one)

lemma in_net_iff_prefix:
  assumes "valid_net n"
  shows "in_net x n \<longleftrightarrow> net_bits n = take (net_prefix n) (map (get_bit x) [0 ..< 32])"
proof -
  have le: "net_prefix n \<le> 32" using assms by (rule valid_net_prefix)
  have "net_bits n = take (net_prefix n) (map (get_bit x) [0 ..< 32]) \<longleftrightarrow>
      (\<forall>i<net_prefix n. bit (net_addr n) (31 - i) = bit x (31 - i))"
    using le by (simp add: net_bits_def list_eq_iff_nth_eq get_bit_iff)
  also have "\<dots> \<longleftrightarrow> (\<forall>i<32. 32 - net_prefix n \<le> i \<longrightarrow> bit x i = bit (net_addr n) i)"
    (is "?A \<longleftrightarrow> ?B")
  proof
    assume a: ?A
    show ?B
    proof (intro allI impI)
      fix i :: nat assume "i < 32" "32 - net_prefix n \<le> i"
      then have "31 - i < net_prefix n" "31 - (31 - i) = i" using le by auto
      with a show "bit x i = bit (net_addr n) i" by metis
    qed
  next
    assume ?B
    then show ?A using le by auto
  qed
  finally show ?thesis using in_net_bits [OF assms] by blast
qed

lemma length_net_bits [simp]: "length (net_bits n) = net_prefix n"
  by (simp add: net_bits_def)

lemma net_bits_inject:
  "valid_net n \<Longrightarrow> valid_net m \<Longrightarrow> net_bits n = net_bits m \<longleftrightarrow> n = m"
  by (metis in_net_iff_prefix length_net_bits same_prefix_eq valid_net_self)

section \<open>Longest-prefix match\<close>

text \<open>
  The specification: scan the registrations in order and keep the best network so far that holds
  the address; a later one of the same length replaces it.
\<close>

definition better :: "ipv4 \<Rightarrow> (nat \<times> string) option \<Rightarrow> string \<times> ipv4_network \<Rightarrow>
    (nat \<times> string) option" where
  "better ip best r = (case r of (x, n) \<Rightarrow>
     if in_net ip n \<and>
        (case best of None \<Rightarrow> True | Some (p, _) \<Rightarrow> p \<le> net_prefix n)
     then Some (net_prefix n, x) else best)"

lemma better_simps:
  "better ip None (x, n) = (if in_net ip n then Some (net_prefix n, x) else None)"
  "better ip (Some (p, y)) (x, n) =
     (if in_net ip n \<and> p \<le> net_prefix n then Some (net_prefix n, x)
      else Some (p, y))"
  by (simp_all add: better_def)

definition best_match :: "(string \<times> ipv4_network) list \<Rightarrow> ipv4 \<Rightarrow> string option" where
  "best_match rs ip = map_option snd (foldl (better ip) None rs)"

text \<open>The registrations of networks other than /0.\<close>

definition proper_nets :: "(string \<times> ipv4_network) list \<Rightarrow> (string \<times> ipv4_network) list" where
  "proper_nets rs = filter (\<lambda>(x, n). 0 < net_prefix n) rs"

section \<open>The interface of a prefix table\<close>

text \<open>
  What a client of the trie may rely on: \<open>entry t n\<close> is the name last inserted for the network
  \<open>n\<close>; a lookup answers with the entry of the longest network, shorter than no bit, that holds
  the address, and fails only if there is none.
\<close>

locale prefix_table =
  fixes empty :: 't
    and insert :: "string \<Rightarrow> ipv4_network \<Rightarrow> 't \<Rightarrow> 't"
    and find :: "'t \<Rightarrow> ipv4 \<Rightarrow> string option"
    and entry :: "'t \<Rightarrow> ipv4_network \<Rightarrow> string option"
  assumes entry_empty: "valid_net n \<Longrightarrow> entry empty n = None"
    and entry_insert: "valid_net n \<Longrightarrow> valid_net m \<Longrightarrow>
      entry (insert x n t) m = (if m = n then Some x else entry t m)"
    and find_Some: "find t ip = Some x \<Longrightarrow>
      \<exists>n. valid_net n \<and> 0 < net_prefix n \<and> in_net ip n \<and> entry t n = Some x \<and>
          (\<forall>m. valid_net m \<longrightarrow> in_net ip m \<longrightarrow> entry t m \<noteq> None \<longrightarrow> net_prefix m \<le> net_prefix n)"
    and find_None: "find t ip = None \<Longrightarrow> valid_net n \<Longrightarrow> 0 < net_prefix n \<Longrightarrow> in_net ip n \<Longrightarrow>
      entry t n = None"
begin

lemma find_longest:
  assumes "valid_net n" "0 < net_prefix n" "in_net ip n" "entry t n = Some x"
    and "\<And>m. valid_net m \<Longrightarrow> in_net ip m \<Longrightarrow> entry t m \<noteq> None \<Longrightarrow> net_prefix m \<le> net_prefix n"
  shows "find t ip = Some x"
proof (cases "find t ip")
  case None
  from find_None [OF None assms(1-3)] assms(4) show ?thesis by simp
next
  case (Some y)
  from find_Some [OF this] obtain m where m: "valid_net m" "in_net ip m" "entry t m = Some y"
      "net_prefix n \<le> net_prefix m"
    using assms(1,3,4) by (metis option.distinct(1))
  moreover have "net_prefix m \<le> net_prefix n" using assms(5) m by simp
  ultimately have "m = n" using same_prefix_eq [of m n ip] assms(1,3) by simp
  with m(3) assms(4) Some show ?thesis by simp
qed

text \<open>If no other network that holds the address has an entry, its own one is found.\<close>

lemma find_disjoint:
  assumes "valid_net n" "0 < net_prefix n" "in_net ip n" "entry t n = Some x"
    and "\<And>m. valid_net m \<Longrightarrow> entry t m \<noteq> None \<Longrightarrow> m \<noteq> n \<Longrightarrow> \<not> in_net ip m"
  shows "find t ip = Some x"
proof (rule find_longest [OF assms(1-4)])
  fix m assume "valid_net m" "in_net ip m" "entry t m \<noteq> None"
  then show "net_prefix m \<le> net_prefix n" using assms(5) by (cases "m = n") auto
qed

text \<open>Every history of insertions makes the lookup a longest-prefix match over the networks but /0.\<close>

lemma best_match_inv:
  assumes "\<forall>(x, n) \<in> set rs. valid_net n" and "t = foldl (\<lambda>t (x, n). insert x n t) empty rs"
  shows "case foldl (better ip) None (proper_nets rs) of
      None \<Rightarrow> \<forall>m. valid_net m \<longrightarrow> 0 < net_prefix m \<longrightarrow> in_net ip m \<longrightarrow> entry t m = None
    | Some (p, x) \<Rightarrow> \<exists>n. valid_net n \<and> net_prefix n = p \<and> 0 < p \<and> in_net ip n \<and> entry t n = Some x \<and>
        (\<forall>m. valid_net m \<longrightarrow> in_net ip m \<longrightarrow> entry t m \<noteq> None \<longrightarrow> net_prefix m \<le> p)"
  using assms
proof (induction rs arbitrary: t rule: rev_induct)
  case Nil
  then show ?case by (simp add: entry_empty proper_nets_def)
next
  case (snoc r rs)
  obtain x n where r: "r = (x, n)" by force
  have last: "proper_nets (rs @ [r]) = (if 0 < net_prefix n then proper_nets rs @ [(x, n)] else proper_nets rs)"
    by (simp add: proper_nets_def r)
  let ?t = "foldl (\<lambda>t (x, n). insert x n t) empty rs"
  from snoc.prems r have v: "\<forall>(x, n) \<in> set rs. valid_net n" "valid_net n" and t: "t = insert x n ?t"
    by auto
  have e: "entry t m = (if m = n then Some x else entry ?t m)" if "valid_net m" for m
    unfolding t by (rule entry_insert [OF v(2) that])
  show ?case
  proof (cases "foldl (better ip) None (proper_nets rs)")
    case None
    with snoc.IH [OF v(1) refl] have none: "\<And>m. valid_net m \<Longrightarrow> 0 < net_prefix m \<Longrightarrow> in_net ip m \<Longrightarrow>
        entry ?t m = None" by simp
    show ?thesis
    proof (cases "0 < net_prefix n \<and> in_net ip n")
      case True
      then have "net_prefix m \<le> net_prefix n"
        if "valid_net m" "in_net ip m" "entry t m \<noteq> None" for m
        using none [OF that(1) _ that(2)] e [OF that(1)] that(3)
        by (cases "m = n"; cases "net_prefix m = 0") auto
      with True e v(2) None show ?thesis by (auto simp: last better_simps)
    next
      case False
      with none e None show ?thesis by (auto simp: last better_simps)
    qed
  next
    case (Some b)
    obtain p y where b: "b = (p, y)" by force
    from snoc.IH [OF v(1) refl] Some b obtain k where k: "valid_net k" "net_prefix k = p" "0 < p"
      "in_net ip k" "entry ?t k = Some y"
      "\<forall>m. valid_net m \<longrightarrow> in_net ip m \<longrightarrow> entry ?t m \<noteq> None \<longrightarrow> net_prefix m \<le> p"
      by auto
    show ?thesis
    proof (cases "in_net ip n \<and> p \<le> net_prefix n")
      case True
      then have "net_prefix m \<le> net_prefix n"
        if "valid_net m" "in_net ip m" "entry t m \<noteq> None" for m
        using k(6) that e [OF that(1)] by (cases "m = n") (auto intro: order_trans)
      with True k(3) e v(2) Some b show ?thesis by (auto simp: last better_simps)
    next
      case False
      then have "k \<noteq> n" using k(2,4) by auto
      moreover have "net_prefix m \<le> p"
        if "valid_net m" "in_net ip m" "entry t m \<noteq> None" for m
        using k(6) that e [OF that(1)] False by (cases "m = n") auto
      ultimately show ?thesis
        using False k e [OF k(1)] Some b by (auto simp: last better_simps)
    qed
  qed
qed

lemma find_best_match:
  assumes "\<forall>(x, n) \<in> set rs. valid_net n"
  shows "find (foldl (\<lambda>t (x, n). insert x n t) empty rs) ip = best_match (proper_nets rs) ip"
proof (cases "foldl (better ip) None (proper_nets rs)")
  case None
  with best_match_inv [OF assms refl, of ip]
  have none: "\<And>m. valid_net m \<Longrightarrow> 0 < net_prefix m \<Longrightarrow> in_net ip m \<Longrightarrow>
      entry (foldl (\<lambda>t (x, n). insert x n t) empty rs) m = None" by simp
  show ?thesis
  proof (cases "find (foldl (\<lambda>t (x, n). insert x n t) empty rs) ip")
    case (Some x)
    from find_Some [OF this] none show ?thesis by fastforce
  qed (simp add: best_match_def \<open>foldl (better ip) None (proper_nets rs) = None\<close>)
next
  case (Some b)
  with best_match_inv [OF assms refl, of ip] show ?thesis
    by (auto simp: best_match_def intro!: find_longest)
qed

end

definition trie_entry :: "subnet_trie \<Rightarrow> ipv4_network \<Rightarrow> string option" where
  "trie_entry t n = entry_at (net_bits n) (root t)"

lemma trie_entry_insert:
  "valid_net n \<Longrightarrow> valid_net m \<Longrightarrow>
   trie_entry (trie_insert_net x n t) m = (if m = n then Some x else trie_entry t m)"
proof -
  assume v: "valid_net n" "valid_net m"
  have "root (trie_insert_net x n t) = fst (insert_bits x (net_bits n) (root t))"
    by (simp add: trie_insert_net_def net_bits_def Let_def split: prod.splits)
  then show ?thesis
    by (simp add: trie_entry_def entry_at_insert_bits net_bits_inject [OF v(2,1)])
qed

text \<open>The prefixes of an address are the bit strings of the networks that hold it.\<close>

definition supernet_of :: "ipv4 \<Rightarrow> nat \<Rightarrow> ipv4_network" where
  "supernet_of x k = \<lparr>net_addr = x AND netmask k, net_prefix = k\<rparr>"

lemma supernet_of:
  assumes "k \<le> 32"
  shows "valid_net (supernet_of x k)" and "in_net x (supernet_of x k)"
    and "net_bits (supernet_of x k) = take k (map (get_bit x) [0 ..< 32])"
proof -
  show *: "valid_net (supernet_of x k)" and "in_net x (supernet_of x k)"
    using assms by (simp_all add: supernet_of_def valid_net_def in_net_def and.assoc)
  then show "net_bits (supernet_of x k) = take k (map (get_bit x) [0 ..< 32])"
    using in_net_iff_prefix [OF *, of x] by (simp add: supernet_of_def)
qed

lemma trie_find_Some:
  assumes "trie_find_ip t ip = Some x"
  shows "\<exists>n. valid_net n \<and> 0 < net_prefix n \<and> in_net ip n \<and> trie_entry t n = Some x \<and>
    (\<forall>m. valid_net m \<longrightarrow> in_net ip m \<longrightarrow> trie_entry t m \<noteq> None \<longrightarrow> net_prefix m \<le> net_prefix n)"
proof -
  let ?bs = "map (get_bit ip) [0 ..< 32]"
  from find_bits_eq [OF assms [unfolded trie_find_ip_def]] obtain k where
    k: "0 < k" "k \<le> 32" "entry_at (take k ?bs) (root t) = Some x"
      "\<forall>j. k < j \<and> j \<le> 32 \<longrightarrow> entry_at (take j ?bs) (root t) = None"
    by (auto simp del: upt_rec_numeral)
  let ?n = "supernet_of ip k"
  have "net_prefix m \<le> k" if m: "valid_net m" "in_net ip m" "trie_entry t m \<noteq> None" for m
    using m k(4) in_net_iff_prefix [OF m(1)] valid_net_prefix [OF m(1)]
    by (metis linorder_not_less trie_entry_def)
  moreover have "net_prefix ?n = k" by (simp add: supernet_of_def)
  ultimately show ?thesis
    using k supernet_of [OF k(2), of ip] by (intro exI [of _ ?n]) (auto simp: trie_entry_def)
qed

lemma trie_find_None:
  assumes "trie_find_ip t ip = None" "valid_net n" "0 < net_prefix n" "in_net ip n"
  shows "trie_entry t n = None"
proof -
  let ?bs = "map (get_bit ip) [0 ..< 32]"
  from find_bits_eq [OF assms(1) [unfolded trie_find_ip_def]]
  have "\<forall>j. 0 < j \<and> j \<le> 32 \<longrightarrow> entry_at (take j ?bs) (root t) = None"
    by (auto simp del: upt_rec_numeral)
  moreover have "net_prefix n \<le> 32" using assms(2) by (rule valid_net_prefix)
  ultimately show ?thesis
    using in_net_iff_prefix [OF assms(2)] assms(3,4) by (auto simp: trie_entry_def)
qed

interpretation trie: prefix_table empty_trie trie_insert_net trie_find_ip trie_entry
proof
  show "trie_entry empty_trie n = None" for n
    by (simp add: trie_entry_def empty_trie_def)
qed (fact trie_entry_insert trie_find_Some trie_find_None)+

section \<open>Properties\<close>

text \<open>A sequence of registrations, as the server makes them; the first that fails to parse raises.\<close>

fun trie_insert_all :: "(string \<times> string) list \<Rightarrow> subnet_trie \<Rightarrow> subnet_trie res" where
  "trie_insert_all [] t = Inr t"
| "trie_insert_all ((x, s) # rs) t = bindR (trie_insert x s t) (trie_insert_all rs)"

definition parse_regs :: "(string \<times> string) list \<Rightarrow> (string \<times> ipv4_network) list res" where
  "parse_regs = mapR (\<lambda>(x, s). bindR (ip_network s) (\<lambda>n. Inr (x, n)))"

lemma trie_insert_all_parsed:
  "parse_regs rs = Inr ns \<Longrightarrow>
   trie_insert_all rs t = Inr (foldl (\<lambda>t (x, n). trie_insert_net x n t) t ns) \<and>
   (\<forall>(x, n) \<in> set ns. valid_net n)"
proof (induction rs arbitrary: t ns)
  case Nil
  then show ?case by (simp add: parse_regs_def)
next
  case (Cons r rs)
  obtain x s where r: "r = (x, s)" by force
  from Cons.prems r obtain n ms where "ip_network s = Inr n" "parse_regs rs = Inr ms"
    "ns = (x, n) # ms"
    by (auto simp: parse_regs_def bindR_eq_Inr)
  with Cons.IH [of ms] r show ?case
    by (auto simp: trie_insert_def dest: ip_network_valid)
qed

text \<open>
  C9.  The trie answers every client address with the name of the most specific network that holds it,
  the last registration winning among equal networks, in whatever order they were registered: lookup is
  longest-prefix match over the registered networks other than /0.  A registration of /0 is accepted and
  never found (\<open>trie_default_network_ignored\<close>).
\<close>

theorem trie_longest_prefix_match:
  assumes "parse_regs regs = Inr nets" and "trie_insert_all regs empty_trie = Inr t"
  shows "trie_find t (ip_str ip) = Inr (best_match (proper_nets nets) ip)"
  using assms trie_insert_all_parsed [OF assms(1), of empty_trie] trie.find_best_match [of nets ip]
  by (simp add: trie_find_def)

theorem trie_longest_prefix_match_witness:
  "\<exists>t. trie_insert_all [(''a'', ''10.0.0.0/8''), (''b'', ''10.1.0.0/16''), (''all'', ''0.0.0.0/0'')] empty_trie = Inr t \<and>
       trie_find t (ip_str 167837697) = Inr (Some ''b'') \<and> trie_find t (ip_str 167772161) = Inr (Some ''a'') \<and>
       trie_find t (ip_str 1) = Inr None"
proof -
  let ?regs = "[(''a'', ''10.0.0.0/8''), (''b'', ''10.1.0.0/16''), (''all'', ''0.0.0.0/0'')]"
  let ?nets = "[(''a'', \<lparr>net_addr = 167772160, net_prefix = 8\<rparr>), (''b'', \<lparr>net_addr = 167837696, net_prefix = 16\<rparr>),
    (''all'', \<lparr>net_addr = 0, net_prefix = 0\<rparr>)]"
  have p: "parse_regs ?regs = Inr ?nets" by code_simp
  then obtain t where t: "trie_insert_all ?regs empty_trie = Inr t"
    using trie_insert_all_parsed by blast
  have "best_match (proper_nets ?nets) 167837697 = Some ''b''" "best_match (proper_nets ?nets) 167772161 = Some ''a''"
    "best_match (proper_nets ?nets) 1 = None"
    by code_simp+
  with t trie_longest_prefix_match [OF p t] show ?thesis by simp
qed

text \<open> A registration of the network /0 is accepted but no lookup ever sees it: \<open>find\<close> tests the
  name of a node only after it has taken a bit.
\<close>

theorem trie_default_network_ignored:
  assumes "ip_network s = Inr n" and "net_prefix n = 0" and "trie_insert x s t = Inr t'"
  shows "trie_find t' ip = trie_find t ip"
proof -
  have "find_bits acc bs (fst (insert_bits x [] r)) = find_bits acc bs r" for acc bs r
  proof (cases bs)
    case (Cons b cs)
    have "child b (fst (insert_bits x [] r)) = child b r" by (cases r; cases b) auto
    with Cons show ?thesis by simp
  qed simp
  then show ?thesis
    using assms by (auto simp: trie_insert_def trie_insert_net_def trie_find_def trie_find_ip_def
        split: prod.splits) (metis fst_conv)
qed

theorem trie_default_network_ignored_witness:
  "\<exists>t'. trie_insert ''all'' ''0.0.0.0/0'' empty_trie = Inr t' \<and> trie_find t' ''10.0.0.1'' = Inr None"
proof -
  have n: "ip_network ''0.0.0.0/0'' = Inr \<lparr>net_addr = 0, net_prefix = 0\<rparr>" by code_simp
  then obtain t' where t: "trie_insert ''all'' ''0.0.0.0/0'' empty_trie = Inr t'"
    by (auto simp: trie_insert_def)
  have "trie_find empty_trie ''10.0.0.1'' = Inr None" by code_simp
  with t trie_default_network_ignored [OF n _ t, of "''10.0.0.1''"] show ?thesis by simp
qed

text \<open> \<open>node_count\<close> is the number of nodes of the trie, after any registrations.\<close>

theorem trie_node_count:
  assumes "trie_insert_all regs empty_trie = Inr t"
  shows "node_count t = count_nodes (root t)"
proof -
  have net: "node_count t = count_nodes (root t) \<Longrightarrow>
      node_count (trie_insert_net x n t) = count_nodes (root (trie_insert_net x n t))" for x n t
    using count_insert_bits [of x "map (get_bit (net_addr n)) [0 ..< net_prefix n]" "root t"]
    by (auto simp: trie_insert_net_def Let_def split: prod.splits)
  have "node_count t' = count_nodes (root t') \<Longrightarrow> trie_insert_all regs t' = Inr t \<Longrightarrow>
      node_count t = count_nodes (root t)" for t'
  proof (induction regs t' rule: trie_insert_all.induct)
    case (2 x s rs t')
    then show ?case
      using net by (auto simp: bindR_eq_Inr trie_insert_def)
  qed simp
  note all = this
  have "node_count empty_trie = count_nodes (root empty_trie)"
    by (simp add: empty_trie_def new_node_def)
  from all [OF this assms] show ?thesis .
qed

theorem trie_node_count_witness:
  "\<exists>t. trie_insert_all [(''a'', ''128.0.0.0/2'')] empty_trie = Inr t \<and> node_count t = count_nodes (root t) \<and>
       node_count t = 3"
proof -
  let ?t = "trie_insert_net ''a'' \<lparr>net_addr = 2147483648, net_prefix = 2\<rparr> empty_trie"
  have "ip_network ''128.0.0.0/2'' = Inr \<lparr>net_addr = 2147483648, net_prefix = 2\<rparr>" by code_simp
  then have t: "trie_insert_all [(''a'', ''128.0.0.0/2'')] empty_trie = Inr ?t"
    by (simp add: trie_insert_def)
  have "node_count ?t = 3" by code_simp
  with t trie_node_count [OF t] show ?thesis by blast
qed

text \<open>The estimate of memory of a trie that registrations made: between the number of its nodes times
  the size of a bare node, and that with the largest name in every node.\<close>

theorem estimate_memory_bounds:
  assumes "trie_insert_all regs empty_trie = Inr t" and "\<forall>x. sx x \<le> m"
  shows "node_count t * (a + b) \<le> estimate_memory (\<lambda>_. a) (\<lambda>_. b) sx t"
    and "estimate_memory (\<lambda>_. a) (\<lambda>_. b) sx t \<le> node_count t * (a + b + m)"
  using sizeof_count [OF assms(2), of "root t" a b] trie_node_count [OF assms(1)]
  by (simp_all add: estimate_memory_def)

end
