(* ===== verification/DnsTree.thy ===== *)
theory DnsTree
  imports PyValues
begin

text \<open>
  \<open>app2/dns/DnsTree.py\<close>: the tree of domain labels, read from the right, that holds the addresses
  of the containers.  A node's children are a dictionary in insertion order, which is the order in
  which \<open>collect_all\<close> returns them.  The locale \<open>name_table\<close> states what the resolver relies on.
\<close>

section \<open>Labels\<close>

text \<open>\<open>rsplit_generator\<close>: the labels from the last to the first.  The loop stops at position 0, so
  the empty label before a leading dot is never produced.\<close>

function rsplit_from :: "string \<Rightarrow> nat \<Rightarrow> string list" where
  "rsplit_from domain start =
     (if start = 0 then []
      else (case rfind CHR ''.'' domain start of
              None \<Rightarrow> [slice 0 start domain]
            | Some e \<Rightarrow> slice (e + 1) start domain # rsplit_from domain e))"
  by pat_completeness auto
termination
  by (relation "measure snd") (auto dest: rfind_less)

declare rsplit_from.simps [simp del]

definition rsplit_generator :: "string \<Rightarrow> string list" where
  "rsplit_generator domain = rsplit_from domain (length domain)"

text \<open>The same labels by splitting at the dots.\<close>

definition labels :: "string \<Rightarrow> string list" where
  "labels domain =
     (let parts = splitc CHR ''.'' domain in rev (if hd parts = [] then tl parts else parts))"

lemma take_split_at:
  assumes "e < n" "n \<le> length d"
  shows "take n d = take e d @ d ! e # slice (e + 1) n d"
proof -
  have "take n d = take e d @ take (n - e) (drop e d)"
    using assms take_add [of e "n - e" d] by simp
  also have "take (n - e) (drop e d) = d ! e # slice (e + 1) n d"
    using assms Cons_nth_drop_Suc [of e d, symmetric] Suc_diff_Suc [of e n, symmetric]
    by (simp add: slice_def)
  finally show ?thesis .
qed

lemma rsplit_from_labels:
  "n \<le> length d \<Longrightarrow> rsplit_from d n = labels (take n d)"
proof (induction d n rule: rsplit_from.induct)
  case (1 d n)
  show ?case
  proof (cases "n = 0")
    case True
    then show ?thesis by (simp add: rsplit_from.simps labels_def)
  next
    case n: False
    show ?thesis
    proof (cases "rfind CHR ''.'' d n")
      case None
      then have "CHR ''.'' \<notin> set (take n d)"
        using rfind_None [OF None] by (auto simp: in_set_conv_nth)
      with n None "1.prems" show ?thesis
        by (auto simp: rsplit_from.simps [of d n] labels_def slice_def Let_def)
    next
      case (Some e)
      have e: "e < n" "d ! e = CHR ''.''" using rfind_less [OF Some] rfind_SomeD [OF Some] by auto
      let ?last = "slice (e + 1) n d"
      have nodot: "CHR ''.'' \<notin> set ?last"
        using rfind_after [OF Some] "1.prems" by (auto simp: slice_def in_set_conv_nth)
      have "take n d = take e d @ CHR ''.'' # ?last"
        using take_split_at [OF e(1) "1.prems"] e(2) by simp
      then have parts: "splitc CHR ''.'' (take n d) = splitc CHR ''.'' (take e d) @ [?last]"
        by (simp only: splitc_append splitc_notin [OF nodot])
      have "rsplit_from d e = labels (take e d)"
        using "1.IH" [OF n Some] e "1.prems" by simp
      then show ?thesis
        using n Some by (simp add: rsplit_from.simps [of d n] labels_def Let_def hd_append parts)
    qed
  qed
qed

lemma rsplit_generator_labels: "rsplit_generator d = labels d"
  by (simp add: rsplit_generator_def rsplit_from_labels)

text \<open>A name under a domain of one label: the domain's label comes first.\<close>

lemma labels_under:
  "CHR ''.'' \<notin> set y \<Longrightarrow> labels (x @ CHR ''.'' # y) = y # labels x"
  by (simp add: labels_def splitc_append hd_append Let_def)

section \<open>The tree\<close>

datatype dns_node = DnsNode (children: "(string \<times> dns_node) list") (node_ip: "string option")

definition new_dns_node :: dns_node where
  "new_dns_node = DnsNode [] None"

fun insert_parts :: "string list \<Rightarrow> string \<Rightarrow> dns_node \<Rightarrow> dns_node" where
  "insert_parts [] ip (DnsNode cs x) = DnsNode cs (Some ip)"
| "insert_parts (part # ps) ip (DnsNode cs x) =
     DnsNode (AList.update part (insert_parts ps ip (dget cs part new_dns_node)) cs) x"

definition dns_insert :: "string \<Rightarrow> string \<Rightarrow> dns_node \<Rightarrow> dns_node" where
  "dns_insert domain ip t = insert_parts (rsplit_generator domain) ip t"

text \<open>\<open>clear_ip\<close> formats its message with a name \<open>ip\<close> that is not bound anywhere.\<close>

definition dns_clear_ip :: "string \<Rightarrow> dns_node \<Rightarrow> unit res \<times> dns_node" where
  "dns_clear_ip domain t = (Inl NameError, t)"

fun collect_all :: "dns_node \<Rightarrow> string list" where
  "collect_all (DnsNode cs x) =
     (case x of None \<Rightarrow> [] | Some ip \<Rightarrow> [ip]) @ concat (map (\<lambda>(part, c). collect_all c) cs)"

text \<open>The walk of \<open>collect_from\<close> to the node of a domain.\<close>

fun find_node :: "string list \<Rightarrow> dns_node \<Rightarrow> dns_node option" where
  "find_node [] t = Some t"
| "find_node (part # ps) t =
     (case map_of (children t) part of None \<Rightarrow> None | Some c \<Rightarrow> find_node ps c)"

definition collect_from :: "dns_node \<Rightarrow> string \<Rightarrow> string list" where
  "collect_from t domain =
     (case find_node (rsplit_generator domain) t of None \<Rightarrow> [] | Some n \<Rightarrow> collect_all n)"

fun longest_prefix_from :: "dns_node option \<Rightarrow> string list \<Rightarrow> dns_node \<Rightarrow> dns_node option" where
  "longest_prefix_from last_node [] t = last_node"
| "longest_prefix_from last_node (part # ps) t =
     (case map_of (children t) part of
        None \<Rightarrow> last_node
      | Some c \<Rightarrow> longest_prefix_from (if node_ip c \<noteq> None then Some c else last_node) ps c)"

definition longest_prefix_node :: "dns_node \<Rightarrow> string list \<Rightarrow> dns_node option" where
  "longest_prefix_node t key_parts = longest_prefix_from None key_parts t"

section \<open>The tree as a table of names\<close>

definition dns_entry :: "dns_node \<Rightarrow> string list \<Rightarrow> string option" where
  "dns_entry t ps = (case find_node ps t of None \<Rightarrow> None | Some n \<Rightarrow> node_ip n)"

lemma dns_entry_path:
  "dns_entry t [] = node_ip t"
  "dns_entry t (p # ps) = (case map_of (children t) p of None \<Rightarrow> None | Some c \<Rightarrow> dns_entry c ps)"
  by (simp_all add: dns_entry_def split: option.splits)

text \<open>Every dictionary of the tree has distinct keys.\<close>

inductive dns_wf :: "dns_node \<Rightarrow> bool" where
  "distinct (map fst cs) \<Longrightarrow> (\<And>p c. (p, c) \<in> set cs \<Longrightarrow> dns_wf c) \<Longrightarrow> dns_wf (DnsNode cs x)"

inductive_simps dns_wf_simps [simp]: "dns_wf (DnsNode cs x)"

lemma dns_wf_new [simp]: "dns_wf new_dns_node"
  by (simp add: new_dns_node_def)

lemma dns_wf_insert_parts: "dns_wf t \<Longrightarrow> dns_wf (insert_parts ps ip t)"
proof (induction ps ip t rule: insert_parts.induct)
  case (2 part ps ip cs x)
  have "dns_wf (dget cs part new_dns_node)"
    using "2.prems" by (auto simp: dget_def dest: map_of_SomeD split: option.splits)
  then have new: "dns_wf (insert_parts ps ip (dget cs part new_dns_node))" by (rule "2.IH")
  have "dns_wf c" if "(p, c) \<in> set (AList.update part (insert_parts ps ip (dget cs part new_dns_node)) cs)"
    for p c
  proof -
    have "distinct (map fst (AList.update part (insert_parts ps ip (dget cs part new_dns_node)) cs))"
      using "2.prems" by simp
    from map_of_is_SomeI [OF this that] new "2.prems" show ?thesis
      by (auto dest: map_of_SomeD split: if_splits)
  qed
  with "2.prems" show ?case by simp
qed simp

lemma dns_entry_new [simp]: "dns_entry new_dns_node ps = None"
  by (cases ps) (simp_all add: dns_entry_def new_dns_node_def)

lemma dns_entry_insert_parts:
  "dns_entry (insert_parts ps ip t) qs = (if qs = ps then Some ip else dns_entry t qs)"
proof (induction ps ip t arbitrary: qs rule: insert_parts.induct)
  case (1 ip cs x)
  then show ?case by (cases qs) (auto simp: dns_entry_def)
next
  case (2 part ps ip cs x)
  show ?case
  proof (cases qs)
    case (Cons q qs')
    with "2.IH" [of qs'] dns_entry_new [of qs'] show ?thesis
      by (auto simp: dns_entry_def dget_def split: option.splits)
  qed (simp add: dns_entry_def)
qed

text \<open>\<open>collect_all\<close> returns the entries at and below a node.\<close>

lemma set_collect_all:
  "dns_wf t \<Longrightarrow> set (collect_all t) = {ip. \<exists>ext. dns_entry t ext = Some ip}"
proof (induction t rule: collect_all.induct)
  case (1 cs x)
  have cs: "distinct (map fst cs)" and wf: "\<And>p c. (p, c) \<in> set cs \<Longrightarrow> dns_wf c"
    using "1.prems" by auto
  have "(\<exists>ext. dns_entry (DnsNode cs x) ext = Some ip) \<longleftrightarrow>
      x = Some ip \<or> (\<exists>p c. (p, c) \<in> set cs \<and> (\<exists>ext. dns_entry c ext = Some ip))" (is "?l \<longleftrightarrow> ?r") for ip
  proof
    assume ?l
    then obtain ext where "dns_entry (DnsNode cs x) ext = Some ip" ..
    then show ?r
      by (cases ext) (auto simp: dns_entry_path dest!: map_of_SomeD split: option.splits)
  next
    assume ?r
    then consider "x = Some ip"
      | p c ext where "(p, c) \<in> set cs" "dns_entry c ext = Some ip" by blast
    then show ?l
    proof cases
      case 1
      then show ?thesis by (intro exI [of _ "[]"]) (simp add: dns_entry_def)
    next
      case 2
      then have "dns_entry (DnsNode cs x) (p # ext) = Some ip"
        using map_of_is_SomeI [OF cs, of p c] by (simp add: dns_entry_def)
      then show ?thesis ..
    qed
  qed
  moreover have "set (collect_all c) = {ip. \<exists>ext. dns_entry c ext = Some ip}"
    if "(p, c) \<in> set cs" for p c
    using "1.IH" [OF that refl] wf [OF that] by simp
  ultimately show ?case by (auto split: option.splits) blast+
qed

lemma find_node_append:
  "find_node (ps @ qs) t = (case find_node ps t of None \<Rightarrow> None | Some n \<Rightarrow> find_node qs n)"
  by (induction ps t rule: find_node.induct) (auto split: option.splits)

lemma dns_wf_find_node: "dns_wf t \<Longrightarrow> find_node ps t = Some n \<Longrightarrow> dns_wf n"
proof (induction ps t rule: find_node.induct)
  case (2 part ps t)
  then show ?case by (cases t) (auto dest: map_of_SomeD split: option.splits)
qed simp

lemma set_collect_from:
  assumes "dns_wf t"
  shows "set (collect_from t d) = {ip. \<exists>ext. dns_entry t (labels d @ ext) = Some ip}"
proof (cases "find_node (labels d) t")
  case None
  then show ?thesis
    by (simp add: collect_from_def rsplit_generator_labels dns_entry_def find_node_append)
next
  case (Some n)
  have "dns_entry t (labels d @ ext) = dns_entry n ext" for ext
    using Some by (simp add: dns_entry_def find_node_append)
  with Some set_collect_all [OF dns_wf_find_node [OF assms Some]] show ?thesis
    by (simp add: collect_from_def rsplit_generator_labels)
qed

section \<open>The interface of a name table\<close>

text \<open>
  What the resolver relies on: a name inserted is found with the address last given to it, and a
  query returns the addresses of the name and of everything below it.
\<close>

locale name_table =
  fixes empty :: 't
    and insert :: "string \<Rightarrow> string \<Rightarrow> 't \<Rightarrow> 't"
    and collect :: "'t \<Rightarrow> string \<Rightarrow> string list"
    and entry :: "'t \<Rightarrow> string list \<Rightarrow> string option"
    and valid :: "'t \<Rightarrow> bool"
  assumes valid_empty: "valid empty"
    and valid_insert: "valid t \<Longrightarrow> valid (insert d ip t)"
    and entry_empty: "entry empty ps = None"
    and entry_insert: "entry (insert d ip t) ps = (if ps = labels d then Some ip else entry t ps)"
    and collect: "valid t \<Longrightarrow> set (collect t d) = {ip. \<exists>ext. entry t (labels d @ ext) = Some ip}"
begin

lemma valid_history: "valid t \<Longrightarrow> valid (foldl (\<lambda>t (d, ip). insert d ip t) t regs)"
  by (induction regs arbitrary: t) (auto intro: valid_insert)

lemma entry_history:
  "entry (foldl (\<lambda>t (d, ip). insert d ip t) empty regs) ps =
     map_of (rev (map (\<lambda>(d, ip). (labels d, ip)) regs)) ps"
proof (induction regs rule: rev_induct)
  case Nil
  then show ?case by (simp add: entry_empty)
next
  case (snoc r regs)
  obtain d ip where "r = (d, ip)" by force
  with snoc show ?case by (simp add: entry_insert)
qed

lemma collect_history:
  "set (collect (foldl (\<lambda>t (d, ip). insert d ip t) empty regs) q) =
     {ip. \<exists>ext. map_of (rev (map (\<lambda>(d, ip). (labels d, ip)) regs)) (labels q @ ext) = Some ip}"
  by (simp add: collect [OF valid_history [OF valid_empty]] entry_history)

end

interpretation dns: name_table new_dns_node dns_insert collect_from dns_entry dns_wf
proof
  show "dns_entry (dns_insert d ip t) ps = (if ps = labels d then Some ip else dns_entry t ps)"
    for d ip t ps
    by (simp add: dns_insert_def dns_entry_insert_parts rsplit_generator_labels)
qed (simp_all add: dns_insert_def dns_wf_insert_parts set_collect_from)

section \<open>Properties\<close>

definition dns_insert_all :: "(string \<times> string) list \<Rightarrow> dns_node" where
  "dns_insert_all regs = foldl (\<lambda>t (d, ip). dns_insert d ip t) new_dns_node regs"

text \<open>The address last registered for a name, read as its labels.\<close>

definition registered :: "(string \<times> string) list \<Rightarrow> string list \<Rightarrow> string option" where
  "registered regs ps = map_of (rev (map (\<lambda>(d, ip). (labels d, ip)) regs)) ps"

text \<open>
  C26.  Whatever was registered, a query returns exactly the addresses last registered for the
  queried name and for the names below it.
\<close>

theorem dns_collect_registered:
  "set (collect_from (dns_insert_all regs) q) = {ip. \<exists>ext. registered regs (labels q @ ext) = Some ip}"
  unfolding dns_insert_all_def registered_def by (rule dns.collect_history)

text \<open>The last node with an address on the way is the longest registered prefix of the query.\<close>

lemma longest_prefix_from:
  "longest_prefix_from acc ps t = r \<Longrightarrow>
     (\<exists>k. 0 < k \<and> k \<le> length ps \<and> dns_entry t (take k ps) \<noteq> None \<and> r = find_node (take k ps) t \<and>
          (\<forall>j. k < j \<and> j \<le> length ps \<longrightarrow> dns_entry t (take j ps) = None))
     \<or> r = acc \<and> (\<forall>j. 0 < j \<and> j \<le> length ps \<longrightarrow> dns_entry t (take j ps) = None)"
proof (induction ps arbitrary: acc t)
  case Nil
  then show ?case by simp
next
  case (Cons p ps)
  show ?case
  proof (cases "map_of (children t) p")
    case None
    then have "dns_entry t (take j (p # ps)) = None" if "0 < j" for j
      using that by (cases j) (auto simp: dns_entry_def)
    with None Cons.prems show ?thesis by auto
  next
    case (Some c)
    have step: "dns_entry t (take (Suc j) (p # ps)) = dns_entry c (take j ps)"
      "find_node (take (Suc j) (p # ps)) t = find_node (take j ps) c" for j
      using Some by (simp_all add: dns_entry_def)
    let ?acc = "if node_ip c \<noteq> None then Some c else acc"
    have "longest_prefix_from ?acc ps c = r" using Cons.prems Some by simp
    from Cons.IH [OF this] consider
      (deeper) k where "0 < k" "k \<le> length ps" "dns_entry c (take k ps) \<noteq> None"
        "r = find_node (take k ps) c" "\<forall>j. k < j \<and> j \<le> length ps \<longrightarrow> dns_entry c (take j ps) = None"
    | (here) "r = ?acc" "\<forall>j. 0 < j \<and> j \<le> length ps \<longrightarrow> dns_entry c (take j ps) = None"
      by blast
    then show ?thesis
    proof cases
      case deeper
      then have "\<forall>j. Suc k < j \<and> j \<le> length (p # ps) \<longrightarrow> dns_entry t (take j (p # ps)) = None"
        using step by (metis Suc_le_mono Suc_less_eq2 length_Cons)
      with deeper step show ?thesis
        by (intro disjI1 exI [of _ "Suc k"]) auto
    next
      case here
      then have rest: "\<forall>j. 1 < j \<and> j \<le> length (p # ps) \<longrightarrow> dns_entry t (take j (p # ps)) = None"
        using step by (metis One_nat_def Suc_le_mono Suc_less_eq2 length_Cons)
      have one: "dns_entry t (take 1 (p # ps)) = node_ip c" "find_node (take 1 (p # ps)) t = Some c"
        using Some by (simp_all add: dns_entry_def)
      show ?thesis
      proof (cases "node_ip c")
        case None
        with here(1) one rest have "r = acc \<and>
            (\<forall>j. 0 < j \<and> j \<le> length (p # ps) \<longrightarrow> dns_entry t (take j (p # ps)) = None)"
          by (metis One_nat_def Suc_lessI)
        then show ?thesis ..
      next
        case (Some y)
        with here(1) one rest show ?thesis by (intro disjI1 exI [of _ 1]) auto
      qed
    qed
  qed
qed

end
