(* ===== verification/DnsServer.thy ===== *)
theory DnsServer
  imports SubnetTrie DnsTree
begin

text \<open>
  \<open>app2/dns/DnsServer.py\<close>: the resolver.  A query of type A is answered from the tree of names
  under the network of the client; every other query, and a name without an address, is passed to
  the system resolvers in turn.  The packet library and the forwarders are parameters: \<open>rdata\<close>
  makes the record of an address, \<open>ask\<close> sends the request to one forwarder.
\<close>

section \<open>The resolver\<close>

record dns_state =
  trie :: subnet_trie
  dnstree :: dns_node

record 'a answer_rr =
  rr_name :: string
  rr_data :: 'a
  rr_ttl :: nat

datatype ('a, 'r) dns_reply =
    LocalAnswer "'a answer_rr list"
  | Forwarded 'r
  | EmptyReply

definition dns_add_network :: "string \<Rightarrow> string \<Rightarrow> dns_state \<Rightarrow> dns_state res" where
  "dns_add_network name subnet st =
     bindR (ip_network subnet) (\<lambda>n.
     bindR (trie_insert name (net_str n) (trie st)) (\<lambda>t. Inr (st\<lparr>trie := t\<rparr>)))"

fun forward_query :: "(string \<Rightarrow> 'r res) \<Rightarrow> string list \<Rightarrow> ('a, 'r) dns_reply res" where
  "forward_query ask [] = Inr EmptyReply"
| "forward_query ask (forwarder # fs) =
     (case ask forwarder of
        Inr data \<Rightarrow> Inr (Forwarded data)
      | Inl e \<Rightarrow> if is_Exception e then forward_query ask fs else Inl e)"

definition lower :: "string \<Rightarrow> string" where
  "lower s = map lower_char s"

definition resolve ::
  "(string \<Rightarrow> 'a res) \<Rightarrow> (string \<Rightarrow> 'r res) \<Rightarrow> string list \<Rightarrow> dns_state \<Rightarrow>
   string \<Rightarrow> string \<Rightarrow> string \<Rightarrow> ('a, 'r) dns_reply res" where
  "resolve rdata ask system_resolvers st request_name qtype client_ip =
     (let qname = lower request_name in
      if qtype = ''A'' then
        bindR (trie_find (trie st) client_ip) (\<lambda>network.
          case network of
            None \<Rightarrow> forward_query ask system_resolvers
          | Some netname \<Rightarrow>
              (let host_ip = collect_from (dnstree st) (qname @ netname) in
               if netname \<noteq> [] \<and> host_ip \<noteq> [] then
                 bindR (mapR rdata host_ip) (\<lambda>rs.
                   Inr (LocalAnswer (map (\<lambda>r. \<lparr>rr_name = qname, rr_data = r, rr_ttl = 300\<rparr>) rs)))
               else forward_query ask system_resolvers))
      else forward_query ask system_resolvers)"

section \<open>Lemmas\<close>

lemma forward_query_not_local [simp]: "forward_query ask fs \<noteq> Inr (LocalAnswer rrs)"
  by (induction fs) (auto split: sum.splits)

lemma mapR_set: "mapR f xs = Inr ys \<Longrightarrow> y \<in> set ys \<Longrightarrow> \<exists>x \<in> set xs. f x = Inr y"
  by (induction xs arbitrary: ys) (auto simp: bindR_eq_Inr)

lemma mapR_set': "mapR f xs = Inr ys \<Longrightarrow> x \<in> set xs \<Longrightarrow> \<exists>y \<in> set ys. f x = Inr y"
  by (induction xs arbitrary: ys) (auto simp: bindR_eq_Inr)

lemma registered_SomeD:
  "registered regs ps = Some ip \<Longrightarrow> \<exists>d. (d, ip) \<in> set regs \<and> labels d = ps"
  by (auto simp: registered_def dest!: map_of_SomeD)

lemma lower_dot: "lower (x @ ''.'') = lower x @ ''.''"
proof -
  have "lower_char CHR ''.'' = CHR ''.''" by code_simp
  then show ?thesis by (simp add: lower_def)
qed

text \<open>What a local answer consists of.\<close>

lemma resolve_LocalAnswer:
  "resolve rdata ask fs st q qtype client = Inr (LocalAnswer rrs) \<longleftrightarrow>
     qtype = ''A'' \<and> (\<exists>net rs. trie_find (trie st) client = Inr (Some net) \<and> net \<noteq> [] \<and>
       collect_from (dnstree st) (lower q @ net) \<noteq> [] \<and>
       mapR rdata (collect_from (dnstree st) (lower q @ net)) = Inr rs \<and>
       rrs = map (\<lambda>r. \<lparr>rr_name = lower q, rr_data = r, rr_ttl = 300\<rparr>) rs)"
  by (auto simp: resolve_def Let_def bindR_eq_Inr split: option.splits if_splits)

text \<open>A name with an address is answered locally when records can be made of the addresses found.\<close>

lemma resolve_known:
  assumes "trie_find (trie st) client = Inr (Some net)" and "net \<noteq> []" and "lower q = name"
    and "ip \<in> set (collect_from (dnstree st) (name @ CHR ''.'' # net))"
    and "\<forall>a \<in> set (collect_from (dnstree st) (name @ CHR ''.'' # net)). \<exists>r. rdata a = Inr r"
  shows "\<exists>rrs. resolve rdata ask fs st (q @ ''.'') ''A'' client = Inr (LocalAnswer rrs) \<and>
    (\<exists>r \<in> set rrs. rdata ip = Inr (rr_data r) \<and> rr_name r = name @ ''.'')"
proof -
  let ?ips = "collect_from (dnstree st) (name @ CHR ''.'' # net)"
  obtain g where g: "\<And>a. a \<in> set ?ips \<Longrightarrow> rdata a = Inr (g a)" using assms(5) by metis
  then have rs: "mapR rdata ?ips = Inr (map g ?ips)" by (rule mapR_total)
  with assms(1,2,4) have "resolve rdata ask fs st (q @ ''.'') ''A'' client = Inr (LocalAnswer
      (map (\<lambda>r. \<lparr>rr_name = name @ ''.'', rr_data = r, rr_ttl = 300\<rparr>) (map g ?ips)))"
    by (subst resolve_LocalAnswer) (auto simp: lower_dot assms(3))
  moreover have "rdata ip = Inr (g ip)" using g assms(4) .
  ultimately show ?thesis using assms(4) by (intro exI conjI) (assumption, auto)
qed

section \<open>Properties\<close>

text \<open>
  C10.  Isolation: every address in a local answer belongs to a name registered under the client's
  own network and ending in the queried labels; a name registered under another network is never
  disclosed.  Request names end in a dot, and the network's name has none.  A network whose name has
  dots lies under the one its last label names: what is registered in a network a.blue is also found
  in blue, as the names below a label are.
\<close>

theorem dns_isolation:
  assumes "resolve rdata ask fs st (x @ ''.'') qtype client = Inr (LocalAnswer rrs)"
    and "trie_find (trie st) client = Inr (Some net)" and "CHR ''.'' \<notin> set net"
    and "dnstree st = dns_insert_all regs" and "r \<in> set rrs"
  shows "\<exists>d ip ext. (d, ip) \<in> set regs \<and> rdata ip = Inr (rr_data r) \<and>
    labels d = net # labels (lower x) @ ext"
proof -
  from assms(1,2) obtain rs where rs: "mapR rdata (collect_from (dnstree st) (lower x @ ''.'' @ net)) = Inr rs"
    and rrs: "rrs = map (\<lambda>r. \<lparr>rr_name = lower (x @ ''.''), rr_data = r, rr_ttl = 300\<rparr>) rs"
    by (auto simp: resolve_LocalAnswer lower_dot)
  from rrs assms(5) have "rr_data r \<in> set rs" by auto
  from mapR_set [OF rs this] obtain ip where
    "ip \<in> set (collect_from (dns_insert_all regs) (lower x @ CHR ''.'' # net))" "rdata ip = Inr (rr_data r)"
    using assms(4) by auto
  then show ?thesis
    using registered_SomeD
    by (fastforce simp: dns.collect_history dns_insert_all_def registered_def labels_under [OF assms(3)])
qed

theorem dns_isolation_witness:
  "\<exists>t. resolve (Inr :: string \<Rightarrow> string res) (\<lambda>_. Inl KeyError :: unit res) []
      \<lparr>trie = t, dnstree = dns_insert_all [(''web.blue'', ''10.1.0.2'')]\<rparr> (''web'' @ ''.'') ''A'' ''10.1.0.9''
    = Inr (LocalAnswer [\<lparr>rr_name = ''web.'', rr_data = ''10.1.0.2'', rr_ttl = 300\<rparr>]) \<and>
    (\<exists>d ip ext. (d, ip) \<in> set [(''web.blue'', ''10.1.0.2'')] \<and> (Inr ip :: string res) = Inr ''10.1.0.2'' \<and>
      labels d = ''blue'' # labels (lower ''web'') @ ext)"
proof -
  let ?t = "trie_insert_net ''blue'' \<lparr>net_addr = 167837696, net_prefix = 24\<rparr> empty_trie"
  let ?st = "\<lparr>trie = ?t, dnstree = dns_insert_all [(''web.blue'', ''10.1.0.2'')]\<rparr>"
  have r: "resolve (Inr :: string \<Rightarrow> string res) (\<lambda>_. Inl KeyError :: unit res) [] ?st
      (''web'' @ ''.'') ''A'' ''10.1.0.9''
    = Inr (LocalAnswer [\<lparr>rr_name = ''web.'', rr_data = ''10.1.0.2'', rr_ttl = 300\<rparr>])" by code_simp
  have f: "trie_find (trie ?st) ''10.1.0.9'' = Inr (Some ''blue'')" by code_simp
  from dns_isolation [OF r f _ _, of "[(''web.blue'', ''10.1.0.2'')]"] r show ?thesis by fastforce
qed

text \<open>
  A container registered under the client's network by a lower-case name is answered with its
  address, locally, whatever the forwarders would say.
\<close>

theorem dns_resolves_registered:
  assumes "trie_find (trie st) client = Inr (Some net)" and "net \<noteq> []"
    and "dnstree st = dns_insert_all regs"
    and "registered regs (labels (name @ ''.'' @ net)) = Some ip" and "lower name = name"
    and "\<forall>(d, a) \<in> set regs. \<exists>r. rdata a = Inr r"
  shows "\<exists>rrs. resolve rdata ask fs st (name @ ''.'') ''A'' client = Inr (LocalAnswer rrs) \<and>
    (\<exists>r \<in> set rrs. rdata ip = Inr (rr_data r) \<and> rr_name r = name @ ''.'')"
proof -
  let ?ips = "collect_from (dnstree st) (name @ CHR ''.'' # net)"
  have ips: "set ?ips = {ip. \<exists>ext. registered regs (labels (name @ CHR ''.'' # net) @ ext) = Some ip}"
    using assms(3) by (simp add: dns.collect_history dns_insert_all_def registered_def)
  have ip: "ip \<in> set ?ips"
    unfolding ips using assms(4) by (auto intro: exI [of _ "[]"])
  have "\<exists>r. rdata a = Inr r" if "a \<in> set ?ips" for a
    using that assms(6) unfolding ips by (auto dest!: registered_SomeD)
  then have "\<forall>a \<in> set ?ips. \<exists>r. rdata a = Inr r" by blast
  with ip assms(1,2,5) show ?thesis by (intro resolve_known) simp_all
qed

theorem dns_resolves_registered_witness:
  "\<exists>rrs t. resolve (Inr :: string \<Rightarrow> string res) (\<lambda>_. Inl KeyError :: unit res) []
      \<lparr>trie = t, dnstree = dns_insert_all [(''db.blue'', ''10.1.0.3''), (''web.blue'', ''10.1.0.2'')]\<rparr>
      (''web'' @ ''.'') ''A'' ''10.1.0.9'' = Inr (LocalAnswer rrs) \<and>
    (\<exists>r \<in> set rrs. (Inr ''10.1.0.2'' :: string res) = Inr (rr_data r) \<and> rr_name r = ''web'' @ ''.'')"
proof -
  let ?regs = "[(''db.blue'', ''10.1.0.3''), (''web.blue'', ''10.1.0.2'')]"
  let ?t = "trie_insert_net ''blue'' \<lparr>net_addr = 167837696, net_prefix = 24\<rparr> empty_trie"
  let ?st = "\<lparr>trie = ?t, dnstree = dns_insert_all ?regs\<rparr>"
  have "trie_find (trie ?st) ''10.1.0.9'' = Inr (Some ''blue'')" by code_simp
  moreover have "registered ?regs (labels (''web'' @ ''.'' @ ''blue'')) = Some ''10.1.0.2''" by code_simp
  moreover have "lower ''web'' = ''web''" by code_simp
  ultimately show ?thesis
    using dns_resolves_registered [of ?st "''10.1.0.9''" "''blue''" ?regs "''web''" "''10.1.0.2''"
        "Inr :: string \<Rightarrow> string res" "\<lambda>_. Inl KeyError :: unit res" "[]"]
    by auto
qed

text \<open> A container whose name has an upper-case letter cannot be resolved by its name: queries are
  lower-cased and registrations are not.
\<close>

theorem dns_uppercase_unreachable:
  assumes "lower name \<noteq> name" and "CHR ''.'' \<notin> set net" and "CHR ''.'' \<notin> set name"
    and "trie_find (trie st) client = Inr (Some net)"
    and "dnstree st = dns_insert_all [(name @ ''.'' @ net, ip)]"
  shows "resolve rdata ask fs st (name @ ''.'') qtype client = forward_query ask fs"
proof -
  have l: "labels s = (if s = [] then [] else [s])" if "CHR ''.'' \<notin> set s" for s
    using that by (simp add: labels_def)
  have dot: "CHR ''.'' \<noteq> lower_char c" if "c \<noteq> CHR ''.''" for c
  proof
    assume eq: "CHR ''.'' = lower_char c"
    have "code CHR ''.'' = 46" by code_simp
    with eq have "code (lower_char c) = 46" by simp
    then have "lower_char c = c"
      using code_less [of c] by (auto simp: lower_char_def split: if_splits)
    with eq that show False by simp
  qed
  have low: "CHR ''.'' \<notin> set (lower name)"
  proof
    assume "CHR ''.'' \<in> set (lower name)"
    then obtain c where "c \<in> set name" "CHR ''.'' = lower_char c"
      unfolding lower_def by (auto simp only: set_map)
    with dot [of c] assms(3) show False by metis
  qed
  have "name \<noteq> []" "lower name \<noteq> []" using assms(1) by (auto simp: lower_def)
  then have "collect_from (dnstree st) (lower (name @ ''.'') @ net) = []"
    using dns.collect_history [of "[(name @ ''.'' @ net, ip)]" "lower name @ CHR ''.'' # net"] assms(1,5)
    by (simp add: dns_insert_all_def lower_dot labels_under [OF assms(2)] l [OF low] l [OF assms(3)])
  then show ?thesis
    using assms(4) by (simp add: resolve_def Let_def)
qed

theorem dns_uppercase_unreachable_witness:
  "\<exists>t. resolve (Inr :: string \<Rightarrow> string res) (\<lambda>_. Inl KeyError :: unit res) []
      \<lparr>trie = t, dnstree = dns_insert_all [(''Web'' @ ''.'' @ ''blue'', ''10.1.0.2'')]\<rparr>
      (''Web'' @ ''.'') ''A'' ''10.1.0.9'' = Inr EmptyReply"
proof -
  let ?t = "trie_insert_net ''blue'' \<lparr>net_addr = 167837696, net_prefix = 24\<rparr> empty_trie"
  let ?st = "\<lparr>trie = ?t, dnstree = dns_insert_all [(''Web'' @ ''.'' @ ''blue'', ''10.1.0.2'')]\<rparr>"
  let ?r = "resolve (Inr :: string \<Rightarrow> string res) (\<lambda>_. Inl KeyError :: unit res) [] ?st
      (''Web'' @ ''.'') ''A'' ''10.1.0.9''"
  have low: "lower ''Web'' \<noteq> ''Web''" by code_simp
  have net: "trie_find (trie ?st) ''10.1.0.9'' = Inr (Some ''blue'')" by code_simp
  have dots: "CHR ''.'' \<notin> set ''blue''" "CHR ''.'' \<notin> set ''Web''" by simp_all
  have tree: "dnstree ?st = dns_insert_all [(''Web'' @ ''.'' @ ''blue'', ''10.1.0.2'')]"
    by (simp only: dns_state.simps)
  have "?r = forward_query (\<lambda>_. Inl KeyError :: unit res) []"
    by (rule dns_uppercase_unreachable [OF low dots net tree])
  then have "?r = Inr EmptyReply" by (simp only: forward_query.simps)
  then show ?thesis by (rule exI [where x = ?t])
qed

end
