(* ===== verification/Server.thy ===== *)
theory Server
  imports Containers DnsServer
begin

text \<open>
  \<open>server.py\<close>: the HTTP interface.  A request is a route with its arguments and the decoded body;
  the answer is a status with a body.  Flask's routing and the decoding of JSON are outside: what a
  handler does is modelled from there on, and an exception it lets through is the status 500.  The
  handlers run one at a time here.  In the program they hold a lock, but for \<open>add_network\<close>, which takes
  none (\<open>server.py:174-183\<close>): what that costs is the subject of \<open>Interleaving\<close>.  The two DNS structures
  are part of the state, shared with the resolver.
\<close>

section \<open>State, requests, answers\<close>

record server = mgr +
  subnetTrie :: subnet_trie
  dnsTree :: dns_node

type_synonym response = "nat \<times> json"

datatype request =
    ListContainers "string option"
  | GetContainerJson string
  | GetContainerStatus string
  | StartContainer string
  | StopContainer string
  | RecordContainer string json
  | AddDns json
  | AddSubnet json
  | AddNetwork json
  | GetNetworks
  | GetImages
  | GetImage string
  | DeleteNetwork string
  | StartNetwork string
  | CreateContainer json
  | AddPorts json
  | ListVolumes
  | CreateVolume json
  | RemoveContainer string
  | AttachNetwork string json

definition error_body :: "json \<Rightarrow> json" where
  "error_body msg = JObj [(''error'', msg)]"

text \<open>\<open>key in data\<close>.\<close>

fun json_has :: "string \<Rightarrow> json \<Rightarrow> bool res" where
  "json_has key (JObj d) = Inr (map_of d key \<noteq> None)"
| "json_has key (JList xs) = Inr (JStr key \<in> set xs)"
| "json_has key (JStr s) = Inr (sublist key s)"
| "json_has key _ = Inl TypeError"

section \<open>Containers\<close>

text \<open>Any text for \<open>running\<close> but the empty one counts as true.\<close>

definition list_containers :: "string option \<Rightarrow> ('x server_scheme, response) comp" where
  "list_containers running =
     bindM (list_jails (case running of None \<Rightarrow> False | Some s \<Rightarrow> s \<noteq> [])) (\<lambda>containers. ret (200, containers))"

definition get_container_json :: "string \<Rightarrow> ('x server_scheme, response) comp" where
  "get_container_json name = bindM (get_container name) (\<lambda>container.
     ret (case container of
       None \<Rightarrow> (404, error_body (JStr ''Container not found''))
     | Some c \<Rightarrow> (200, c)))"

definition status_answer :: "string \<Rightarrow> string \<Rightarrow> response" where
  "status_answer name status = (200, JObj [(''container'', JStr name), (''status'', JStr status)])"

text \<open>The status is never None: the branch for it is dead.\<close>

definition get_container_status :: "string \<Rightarrow> ('x server_scheme, response) comp" where
  "get_container_status name = bindM (status_jail name) (\<lambda>status. ret (status_answer name status))"

definition start_container :: "string \<Rightarrow> ('x server_scheme, response) comp" where
  "start_container name = bindM (start_jail name) (\<lambda>status. ret (status_answer name status))"

definition stop_container :: "string \<Rightarrow> ('x server_scheme, response) comp" where
  "stop_container name = bindM (mgr_stop_jail name) (\<lambda>status. ret (status_answer name status))"

definition record_container :: "string \<Rightarrow> json \<Rightarrow> ('x server_scheme, response) comp" where
  "record_container name data =
     bindM (liftR (jindex data ''exit_code'')) (\<lambda>exit_code.
     bindM (update_exit_code name) (\<lambda>status. ret (status_answer name status)))"

text \<open>\<open>create_container(**data)\<close>: the data must be a dictionary, and none of its keys the name of the
  parameter that is already bound.\<close>

fun keyword_args :: "json \<Rightarrow> json dict res" where
  "keyword_args (JObj d) = (if map_of d ''self'' = None then Inr d else Inl TypeError)"
| "keyword_args _ = Inl TypeError"

definition post_container :: "json \<Rightarrow> ('x server_scheme, response) comp" where
  "post_container data =
     bindM (liftR (keyword_args data)) (\<lambda>kwargs.
     bindM (create_container kwargs) (\<lambda>(res, container).
     ret (if res \<noteq> 0 then (400, error_body container) else (201, container))))"

definition delete_container :: "string \<Rightarrow> ('x server_scheme, response) comp" where
  "delete_container name = bindM (remove_container name) (\<lambda>err.
     ret (if err \<noteq> [] then (400, error_body (JStr err)) else (204, JStr [])))"

section \<open>Names and subnets\<close>

text \<open>What is stored in the DNS structures is text: a name or an address of another type, which the
  worker never sends, is stored as its \<open>str\<close>.\<close>

definition add_dns :: "json \<Rightarrow> ('x server_scheme, response) comp" where
  "add_dns data =
     bindM (liftR (jget data ''domain'' JNull)) (\<lambda>domain.
     bindM (liftR (jget data ''ip'' JNull)) (\<lambda>ip.
     bindM (liftR (jget data ''network'' JNull)) (\<lambda>network.
     if \<not> truthy domain \<or> \<not> truthy ip \<or> \<not> truthy network
     then ret (400, error_body (JStr ''Missing domain or ip or network''))
     else bindM (liftR (as_str TypeError domain)) (\<lambda>d.
          bindM (liftR (as_str TypeError network)) (\<lambda>n.
          seqM (modify (\<lambda>w. w\<lparr>dnsTree := dns_insert (d @ ''.'' @ n) (py_str ip) (dnsTree w)\<rparr>))
            (ret (201, JObj [(''message'', JStr (''Added '' @ d @ ''.'' @ n @ '' -> '' @ py_str ip))])))))))"

definition add_subnet :: "json \<Rightarrow> ('x server_scheme, response) comp" where
  "add_subnet data =
     bindM (liftR (jget data ''network'' JNull)) (\<lambda>network.
     bindM (liftR (jget data ''subnet'' JNull)) (\<lambda>subnet.
     if \<not> truthy network \<or> \<not> truthy subnet
     then ret (400, error_body (JStr ''Missing domain or ip or network''))
     else bindM (liftR (network_arg subnet)) (\<lambda>net.
          seqM (modify (\<lambda>w. w\<lparr>subnetTrie := trie_insert_net (py_str network) net (subnetTrie w)\<rparr>))
            (ret (201, JObj [(''message'', JStr (''Added '' @ py_str network @ '' -> '' @ py_str subnet))])))))"

section \<open>Networks, images, ports and volumes\<close>

text \<open>The length asked for goes to \<open>create_network\<close>, which does not use it.\<close>

definition add_network :: "json \<Rightarrow> ('x server_scheme, response) comp" where
  "add_network data =
     bindM (liftR (jget data ''name'' JNull)) (\<lambda>name.
     bindM (liftR (jget data ''prefix'' JNull)) (\<lambda>p.
     bindM (liftR (jget data ''subnet'' JNull)) (\<lambda>subnet.
     bindM (create_network name [(''prefix'', py_or p (JInt 24)), (''subnet'', subnet)]) (\<lambda>(network_name, msg).
     ret (if \<not> truthy network_name then (400, error_body (JStr msg))
          else (201, JObj [(''name'', network_name), (''subnet'', JStr msg)]))))))"

definition list_networks :: "('x server_scheme, response) comp" where
  "list_networks = bindM get_networks (\<lambda>networks. ret (200, networks))"

definition get_images :: "('x server_scheme, response) comp" where
  "get_images = bindM list_images (\<lambda>images. ret (200, images))"

definition image_answer :: "string \<Rightarrow> ('x server_scheme, response) comp" where
  "image_answer name = bindM (get_image name) (\<lambda>(img, err).
     ret (case err of
       Some e \<Rightarrow> (400, error_body (JStr e))
     | None \<Rightarrow> (200, case img of Some i \<Rightarrow> i | None \<Rightarrow> JNull)))"

text \<open>The handler returns None, which is no answer.\<close>

definition delete_network :: "string \<Rightarrow> ('x server_scheme, response) comp" where
  "delete_network network = raise TypeError"

definition post_start_network :: "string \<Rightarrow> ('x server_scheme, response) comp" where
  "post_start_network name = bindM (start_network name) (\<lambda>(ip, error).
     case error of
       Some e \<Rightarrow> ret (400, error_body (JStr e))
     | None \<Rightarrow>
         seqM (modify (\<lambda>w. w\<lparr>dnsTree := dns_insert (''host.jail.internal'' @ ''.'' @ name)
                  (case ip of Some i \<Rightarrow> i | None \<Rightarrow> []) (dnsTree w)\<rparr>))
           (ret (201, JObj [(''name'', JStr name)])))"

text \<open>\<open>res, error = manager.add_rdr_ports(data)\<close>: a bare 0 cannot be unpacked.\<close>

definition add_ports :: "json \<Rightarrow> ('x server_scheme, response) comp" where
  "add_ports data = bindM (add_rdr_ports data) (\<lambda>r.
     case r of
       None \<Rightarrow> raise TypeError
     | Some (res, error) \<Rightarrow> ret (if res \<noteq> 0 then (400, error_body (JStr error)) else (201, JObj [])))"

definition list_volumes :: "('x server_scheme, response) comp" where
  "list_volumes = bindM get_volumes (\<lambda>res. ret (200, res))"

definition post_volume :: "json \<Rightarrow> ('x server_scheme, response) comp" where
  "post_volume data =
     bindM (liftR (json_has ''name'' data)) (\<lambda>named.
     if \<not> named then ret (400, error_body (JStr ''Volume Name is required''))
     else bindM (liftR (jindex data ''name'')) (\<lambda>name.
          bindM (create_volume name) (\<lambda>(res, err).
          ret (if \<not> truthy res then (400, error_body (JStr err)) else (201, res)))))"

definition post_attach :: "string \<Rightarrow> json \<Rightarrow> ('x server_scheme, response) comp" where
  "post_attach network data =
     bindM (liftR (json_has ''name'' data)) (\<lambda>named.
     if \<not> named then ret (400, error_body (JStr ''name cannot be null''))
     else bindM (liftR (jindex data ''name'')) (\<lambda>name.
          bindM (attach_network name network) (\<lambda>err.
          ret (case err of Some e \<Rightarrow> (400, error_body (JStr e)) | None \<Rightarrow> (201, JStr [])))))"

section \<open>Serving\<close>

fun handle :: "request \<Rightarrow> ('x server_scheme, response) comp" where
  "handle (ListContainers running) = list_containers running"
| "handle (GetContainerJson name) = get_container_json name"
| "handle (GetContainerStatus name) = get_container_status name"
| "handle (StartContainer name) = start_container name"
| "handle (StopContainer name) = stop_container name"
| "handle (RecordContainer name data) = record_container name data"
| "handle (AddDns data) = add_dns data"
| "handle (AddSubnet data) = add_subnet data"
| "handle (AddNetwork data) = add_network data"
| "handle GetNetworks = list_networks"
| "handle GetImages = get_images"
| "handle (GetImage name) = image_answer name"
| "handle (DeleteNetwork network) = delete_network network"
| "handle (StartNetwork name) = post_start_network name"
| "handle (CreateContainer data) = post_container data"
| "handle (AddPorts data) = add_ports data"
| "handle ListVolumes = list_volumes"
| "handle (CreateVolume data) = post_volume data"
| "handle (RemoveContainer name) = delete_container name"
| "handle (AttachNetwork network data) = post_attach network data"

definition serve :: "request \<Rightarrow> ('x server_scheme, response) comp" where
  "serve rq = tryM is_Exception (handle rq) (\<lambda>e. ret (500, JNull))"

text \<open>The resolver's view of the state.\<close>

definition dns_view :: "'x server_scheme \<Rightarrow> dns_state" where
  "dns_view w = \<lparr>trie = subnetTrie w, dnstree = dnsTree w\<rparr>"

section \<open>Routing\<close>

text \<open>The routes as the decorators give them: a path is its segments; a variable segment is one that
  is not empty.\<close>

datatype http_method = GET | POST | DELETE

definition between :: "string list \<Rightarrow> string list \<Rightarrow> string list \<Rightarrow> string option" where
  "between front back segs =
     (let name = segs ! length front in
      if length segs = length front + Suc (length back) \<and> segs = front @ name # back \<and> name \<noteq> []
      then Some name else None)"

definition first_some :: "'a option list \<Rightarrow> 'a option" where
  "first_some xs = (case find (\<lambda>x. x \<noteq> None) xs of Some x \<Rightarrow> x | None \<Rightarrow> None)"

definition api_path :: "string \<Rightarrow> string list" where
  "api_path s = [''api'', s]"

text \<open>The request a path stands for; None is Flask's own 404 or 405.\<close>

definition route :: "http_method \<Rightarrow> string \<Rightarrow> string option \<Rightarrow> json \<Rightarrow> request option" where
  "route meth path running body =
     (let segs = tl (splitc CHR ''/'' path);
          at = (\<lambda>m p rq. if meth = m \<and> segs = p then Some rq else None);
          under = (\<lambda>m p q f. if meth = m then map_option f (between p q segs) else None)
      in first_some
       [at GET (api_path ''container'') (ListContainers running),
        under GET (api_path ''container'') [] GetContainerJson,
        under GET (api_path ''container'') [''status''] GetContainerStatus,
        under POST (api_path ''container'') [''start''] StartContainer,
        under POST (api_path ''container'') [''stop''] StopContainer,
        under POST (api_path ''container'') [''exit_code''] (\<lambda>n. RecordContainer n body),
        at POST [''dns''] (AddDns body),
        at POST [''subnet''] (AddSubnet body),
        at POST (api_path ''networks'') (AddNetwork body),
        at GET (api_path ''networks'') GetNetworks,
        at GET (api_path ''images'') GetImages,
        under GET (api_path ''images'') [] GetImage,
        under DELETE (api_path ''networks'') [] DeleteNetwork,
        under POST (api_path ''networks'') [''start''] StartNetwork,
        at POST (api_path ''containers'') (CreateContainer body),
        at POST (api_path ''ports'') (AddPorts body),
        at GET (api_path ''volumes'') ListVolumes,
        at POST (api_path ''volumes'') (CreateVolume body),
        under DELETE (api_path ''container'') [''delete''] RemoveContainer,
        under POST (api_path ''networks'') [''attach''] (\<lambda>n. AttachNetwork n body)])"

section \<open>Startup and shutdown\<close>

definition create_lo0_addr :: "('x world_scheme, unit) comp" where
  "create_lo0_addr = set_ip_address ''lo0'' ''127.0.0.11'' ''255.255.255.255'' None True"

definition mark_all_exited :: "('x mgr_scheme, unit) comp" where
  "mark_all_exited = tryM is_Exception
     (seqM (sql_run (\<lambda>d. Inr (update_status (\<lambda>r. c_status r = ''running'') ''exited'' d))) sql_commit)
     (\<lambda>e. ret ())"

text \<open>\<open>DNSServer\<close> is a library: \<open>start_server\<close> makes it and starts its thread.\<close>

definition run_dns :: "('x world_scheme, unit) comp \<Rightarrow> ('x world_scheme, unit) comp" where
  "run_dns start_server =
     seqM (do_call (ProcC Getpid))
     (seqM (do_call (ProcC (Spawn [''sockstat'', ''-4'', ''-p'', ''53'']))) start_server)"

text \<open>The main program until it serves requests; the result is the worker's process.  The child runs the
  worker's loop, \<open>Worker.worker_run\<close>, on the state of its own process (here the argument
  \<open>kqueue_run\<close>); \<open>os._exit\<close> then ends the process at once.\<close>

definition startup ::
  "('x server_scheme, unit) comp \<Rightarrow> ('x server_scheme, unit) comp \<Rightarrow> ('x server_scheme, int) comp" where
  "startup start_server kqueue_run =
     seqM create_lo0_addr (seqM load_modules (seqM set_sysctls (seqM (run_dns start_server)
     (bindM (pycall (ProcC Fork)) (\<lambda>child_pid.
      if rv child_pid = 0 then seqM (do_call (NetC CloseSocket)) (seqM kqueue_run (raise ProcessReplaced))
      else seqM (do_call (NetC CloseSocket)) (seqM (set_worker True) (ret (rv child_pid))))))))"

text \<open>\<open>child_pid\<close> is None (here 0) until the worker is forked.\<close>

definition shutdown :: "int \<Rightarrow> ('x mgr_scheme, unit) comp" where
  "shutdown child_pid =
     seqM (do_call (NetC CloseSocket))
     (seqM mark_all_exited
     (whenM (child_pid \<noteq> 0)
       (tryM is_Exception (do_call (ProcC (Waitpid child_pid))) (\<lambda>e. ret ()))))"

definition handle_close :: "int \<Rightarrow> ('x mgr_scheme, unit) comp" where
  "handle_close child_pid = seqM (shutdown child_pid) close"

section \<open>What a request leaves alone\<close>

lemma both_dns [simp]:
  "both P (w\<lparr>dnsTree := t\<rparr>) = both P w" "both P (w\<lparr>subnetTrie := s\<rparr>) = both P w"
  by (simp_all add: both_def)

lemmas handler_defs = list_containers_def get_container_json_def get_container_status_def start_container_def
  stop_container_def record_container_def post_container_def delete_container_def add_dns_def add_subnet_def
  add_network_def list_networks_def get_images_def image_answer_def delete_network_def post_start_network_def
  add_ports_def list_volumes_def post_volume_def post_attach_def

lemma keeps_dns [mgr_keeps]:
  "keeps (both good) (modify (\<lambda>w. w\<lparr>dnsTree := t w\<rparr>))"
  "keeps (both good) (modify (\<lambda>w. w\<lparr>subnetTrie := s w\<rparr>))"
  by (rule keeps_modify; simp)+

lemma keeps_serve: "keeps (both good) (serve rq)"
  unfolding serve_def
  by (cases rq; simp only: handle.simps handler_defs; intro keeps_rules mgr_keeps keeps_calls both_trace)

lemma keeps_shutdown: "keeps (both good) (handle_close pid)"
  unfolding handle_close_def shutdown_def mark_all_exited_def
  by (intro keeps_rules mgr_keeps keeps_calls both_trace)

section \<open>Histories of the server\<close>

text \<open>One step: a request is served, or the server closes.  Every answer of the environment is
  covered, since the environment is arbitrary.\<close>

inductive step :: "'x server_scheme \<Rightarrow> 'x server_scheme \<Rightarrow> bool" where
  request: "serve rq w = (r, w') \<Longrightarrow> step w w'"
| closing: "handle_close pid w = (r, w') \<Longrightarrow> step w w'"

inductive_cases stepE: "step w w'"

lemma step_good: "step w w' \<Longrightarrow> both good w \<Longrightarrow> both good w'"
  by (elim stepE) (metis keepsD keeps_serve snd_conv, metis keepsD keeps_shutdown snd_conv)

lemma history_good: "step\<^sup>*\<^sup>* w w' \<Longrightarrow> both good w \<Longrightarrow> both good w'"
  by (induction rule: rtranclp_induct) (auto intro: step_good)

text \<open>What \<open>good\<close> says of the committed tables.\<close>

lemma good_facts:
  assumes "good d"
  shows "distinct (map c_name (containers d))"
    "\<forall>r \<in> set (containers d). c_status r \<in> {''created'', ''running'', ''exited''}"
    "\<forall>r \<in> set (container_networks d). \<forall>s \<in> set (container_networks d).
       cn_network r = cn_network s \<and> cn_ip r = cn_ip s \<and> cn_ip r \<noteq> ''None'' \<longrightarrow> r = s"
proof -
  show "distinct (map c_name (containers d))" using assms by (simp add: good_def db_ok_def)
  show "\<forall>r \<in> set (containers d). c_status r \<in> {''created'', ''running'', ''exited''}"
    using assms by (simp add: good_def life_ok_def lifecycle_def)
  show "\<forall>r \<in> set (container_networks d). \<forall>s \<in> set (container_networks d).
       cn_network r = cn_network s \<and> cn_ip r = cn_ip s \<and> cn_ip r \<noteq> ''None'' \<longrightarrow> r = s"
    using assms unfolding good_def addr_ok_def addressed_def distinct_map inj_on_def by auto
qed

section \<open>What the server tells the worker\<close>

text \<open>The bytes sent to the worker among some calls.\<close>

definition message :: "syscall \<Rightarrow> string" where
  "message c = (case c of SendWorker m \<Rightarrow> m | _ \<Rightarrow> [])"

definition sent :: "syscall list \<Rightarrow> string" where
  "sent cs = concat (map message cs)"

definition silent :: "syscall \<Rightarrow> bool" where
  "silent c \<longleftrightarrow> message c = []"

lemma silent_calls [simp]:
  "silent (JailC a)" "silent (NetC b)" "silent (FsC c)" "silent (ProcC d)" "silent (ZfsC e)" "silent Uuid4" "silent Now"
  by (simp_all add: silent_def message_def)

lemma sent_silent: "list_all silent cs \<Longrightarrow> sent cs = []"
  by (simp add: sent_def silent_def list_all_iff)

lemma silent_wait [emits_rules]: "emits silent (wait_removed name n)"
  by (induction n) (auto simp: helper_defs wrapper_defs intro!: emits_rules)

lemma silent_choose [emits_rules]: "emits silent (choose_addresses ids)"
  by (induction ids) (auto simp: get_free_ip_for_network_def intro!: emits_rules)

lemmas manager_defs = update_exit_code_def container_exists_def status_jail_def list_jails_def
    get_container_def get_container_networks_def get_volumes_def list_images_def get_image_def
    mgr_stop_jail_def stop_running_def signal_jail_def signal_pid_file_def remove_by_hand_def remove_port_rules_def
    remove_container_def create_volume_def create_container_def store_container_def insert_container_def
    add_addresses_def link_container_volumes_def link_volume_def create_dataset_def validate_container_options_def
    create_network_def choose_subnet_def get_allocated_networks_def start_network_def attach_network_def
    get_free_ip_for_network_def setup_network_if_def dns_rdr_rule_def add_rdr_ports_def add_rdr_port_def get_networks_def

lemma silent_dataset [emits_rules]:
  "emits silent (get_dataset drv name)" "emits silent (clone_dataset drv ds s target m)"
  by (cases drv; simp only: get_dataset_def clone_dataset_def driver.case dataset_defs Let_def; intro emits_rules; simp)+

lemma silent_handlers:
  "emits silent (list_containers r)" "emits silent (get_container_json n)" "emits silent (get_container_status n)"
  "emits silent (stop_container n)" "emits silent (record_container n j)" "emits silent (post_container j)"
  "emits silent (delete_container n)" "emits silent (add_dns j)" "emits silent (add_subnet j)"
  "emits silent (add_network j)" "emits silent list_networks" "emits silent get_images" "emits silent (image_answer n)"
  "emits silent (delete_network n)" "emits silent (post_start_network n)" "emits silent (add_ports j)"
  "emits silent list_volumes" "emits silent (post_volume j)" "emits silent (post_attach n j)"
  unfolding handler_defs manager_defs pf_rule_defs with_pf_def pf_call_def helper_defs netif_defs wrapper_defs Let_def
  by (intro emits_rules emits_create_container_json; simp)+

lemma emits_serve:
  "emits P (handle rq :: ('x server_scheme, response) comp) \<Longrightarrow> emits P (serve rq :: ('x server_scheme, response) comp)"
  unfolding serve_def by (intro emits_rules)

text \<open>The names that are asked to be started.\<close>

fun start_name :: "request \<Rightarrow> string option" where
  "start_name (StartContainer n) = Some n"
| "start_name _ = None"

lemma start_name_Some: "start_name rq = Some n \<longleftrightarrow> rq = StartContainer n"
  by (cases rq) auto

lemma sent_append: "sent (cs @ ds) = sent cs @ sent ds"
  by (simp add: sent_def)

lemma start_silent: "start_name rq = None \<Longrightarrow> emits silent (serve rq)"
  by (rule emits_serve) (cases rq; simp add: silent_handlers)

lemma start_sent:
  "\<exists>cs. trace (snd (serve (StartContainer n) w)) = trace w @ cs \<and> sent cs \<in> {[], n @ [CHR 0x0A]}"
  by (auto simp: serve_def start_container_def start_jail_def send_worker_def comp_simps sent_def message_def
      container_named_def split: option.splits if_splits)

lemma serve_sent:
  "\<exists>cs. trace (snd (serve rq w)) = trace w @ cs \<and>
     (sent cs = [] \<or> (\<exists>n. start_name rq = Some n \<and> sent cs = n @ [CHR 0x0A]))"
proof (cases "start_name rq")
  case None
  obtain r w' where s: "serve rq w = (r, w')" by force
  from emits_at [OF start_silent [OF None] s] s show ?thesis by (auto dest: sent_silent)
next
  case (Some n)
  with start_sent [of n w] show ?thesis by (auto simp: start_name_Some)
qed

definition serve_all :: "request list \<Rightarrow> ('x server_scheme, unit) comp" where
  "serve_all rqs = forM rqs (\<lambda>rq. bindM (serve rq) (\<lambda>_. ret ()))"

lemma serve_all_sent:
  "\<exists>cs names. trace (snd (serve_all rqs w)) = trace w @ cs \<and> subseq names (List.map_filter start_name rqs) \<and>
     sent cs = concat (map (\<lambda>n. n @ [CHR 0x0A]) names)"
proof (induction rqs arbitrary: w)
  case Nil
  then show ?case by (auto simp: serve_all_def sent_def intro: exI [of _ "[]"])
next
  case (Cons rq rqs)
  obtain r w1 where s: "serve rq w = (r, w1)" by force
  from serve_sent [of rq w] s obtain cs where cs: "trace w1 = trace w @ cs"
    "sent cs = [] \<or> (\<exists>n. start_name rq = Some n \<and> sent cs = n @ [CHR 0x0A])" by auto
  show ?case
  proof (cases r)
    case (Inl e)
    have "serve_all (rq # rqs) w = (Inl e, w1)" by (simp add: serve_all_def seqM_apply bindM_apply s Inl)
    then have t: "trace (snd (serve_all (rq # rqs) w)) = trace w @ cs" using cs(1) by simp
    from cs(2) show ?thesis
    proof
      assume "sent cs = []"
      with t show ?thesis by (intro exI [of _ cs] exI [of _ "[]"]) simp
    next
      assume "\<exists>n. start_name rq = Some n \<and> sent cs = n @ [CHR 0x0A]"
      then obtain n where "start_name rq = Some n" "sent cs = n @ [CHR 0x0A]" by blast
      with t show ?thesis by (intro exI [of _ cs] exI [of _ "[n]"]) (simp add: List.map_filter_simps)
    qed
  next
    case (Inr x)
    have step: "serve_all (rq # rqs) w = serve_all rqs w1" by (simp add: serve_all_def seqM_apply bindM_apply s Inr)
    from Cons.IH [of w1] obtain ds names where ds: "trace (snd (serve_all rqs w1)) = trace w1 @ ds"
      "subseq names (List.map_filter start_name rqs)" "sent ds = concat (map (\<lambda>n. n @ [CHR 0x0A]) names)" by blast
    from cs(2) show ?thesis
    proof
      assume "sent cs = []"
      with step cs(1) ds show ?thesis
        by (intro exI [of _ "cs @ ds"] exI [of _ names])
          (auto simp: sent_append List.map_filter_simps split: option.splits)
    next
      assume "\<exists>n. start_name rq = Some n \<and> sent cs = n @ [CHR 0x0A]"
      then obtain n where "start_name rq = Some n" "sent cs = n @ [CHR 0x0A]" by blast
      with step cs(1) ds show ?thesis
        by (intro exI [of _ "cs @ ds"] exI [of _ "n # names"])
          (auto simp: sent_append List.map_filter_simps)
    qed
  qed
qed

section \<open>Properties\<close>

text \<open>
  C1.  However many requests are served, in whatever order and whatever the system answers: the
  committed tables have no two containers of one name, no status outside the life of a container,
  and no two containers with the same address in one network, an address lying in its network and
  not being that of the bridge.
\<close>

theorem server_invariant:
  assumes "step\<^sup>*\<^sup>* w w'" and "good (cur w)" and "good (saved w)"
  shows "distinct (map c_name (containers (saved w'))) \<and>
    (\<forall>r \<in> set (containers (saved w')). c_status r \<in> {''created'', ''running'', ''exited''}) \<and>
    (\<forall>r \<in> set (container_networks (saved w')). \<forall>s \<in> set (container_networks (saved w')).
       cn_network r = cn_network s \<and> cn_ip r = cn_ip s \<and> cn_ip r \<noteq> ''None'' \<longrightarrow> r = s) \<and>
    (\<forall>r \<in> set (container_networks (saved w')). cn_ip r \<noteq> ''None'' \<longrightarrow>
       (\<exists>n \<in> set (networks (saved w')). \<exists>net a. n_id n = cn_network r \<and>
          ip_network (n_subnet n @ ''/'' @ dec (n_prefix n)) = Inr net \<and>
          in_net a net \<and> next_host net \<noteq> Inr a \<and> cn_ip r = ip_str a))"
proof -
  have g: "good (saved w')" using history_good [OF assms(1)] assms(2,3) by (simp add: both_def)
  then have "\<forall>r \<in> set (container_networks (saved w')). cn_ip r \<noteq> ''None'' \<longrightarrow> host_of (saved w') (cn_network r) (cn_ip r)"
    by (simp add: good_def addr_ok_def addressed_def)
  with good_facts [OF g] show ?thesis unfolding host_of_def by blast
qed

definition example_server :: "db \<Rightarrow> server" where
  "example_server d = \<lparr>kern = \<lambda>_ _. ok_ret, trace = [], cur = d, saved = d, worker = True, storage = ZFS,
     subnetallocator = default_allocator, subnetTrie = empty_trie, dnsTree = new_dns_node\<rparr>"

lemma good_empty: "good (empty_db imgs)"
  by (simp add: good_def db_ok_def addr_ok_def life_ok_def empty_db_def ids_ok_def)

theorem server_invariant_witness:
  "\<exists>w' :: server. step\<^sup>*\<^sup>* (example_server (empty_db [])) w' \<and> networks (saved w') \<noteq> [] \<and>
     distinct (map c_name (containers (saved w')))"
proof -
  let ?w = "example_server (empty_db [])"
  let ?rq = "AddNetwork (JObj [(''name'', JStr ''web'')])"
  obtain r w' where s: "serve ?rq ?w = (r, w')" by force
  then have h: "step\<^sup>*\<^sup>* ?w w'" by (auto intro: step.request)
  have "networks (saved (snd (serve ?rq ?w))) \<noteq> []" by code_simp
  then have "networks (saved w') \<noteq> []" using s by simp
  moreover have "good (cur ?w)" "good (saved ?w)" by (simp_all add: example_server_def good_empty)
  ultimately show ?thesis using server_invariant [OF h] h by blast
qed

text \<open>
  C13.  Shutting down commits the status \<open>exited\<close> for every running container, whether the worker can be
  waited for or not, and leaves the other rows as they are.
\<close>

theorem shutdown_marks_exited:
  assumes "raises (kern w (trace w) (NetC CloseSocket)) = None"
  shows "containers (saved (snd (shutdown pid w))) =
    map (\<lambda>r. if c_status r = ''running'' then r\<lparr>c_status := ''exited''\<rparr> else r) (containers (cur w))"
  using assms
  by (cases "pid = 0")
    (auto simp: shutdown_def mark_all_exited_def comp_simps update_status_def split: option.splits)

theorem shutdown_marks_exited_witness:
  "map c_status (containers (saved (snd (shutdown 9 (example_server (container_db ''running'')))))) = [''exited'']"
proof -
  have "raises (kern (example_server (container_db ''running'')) (trace (example_server (container_db ''running'')))
      (NetC CloseSocket)) = None" by (simp add: example_server_def ok_ret_def)
  from shutdown_marks_exited [OF this, of 9] show ?thesis
    by (simp add: example_server_def container_db_def example_container_def)
qed

end
