(* ===== verification/Limits.thy ===== *)
theory Limits
  imports IPv4
begin

text \<open>
  The pure conversions of \<open>app2/helpers.py\<close>: prefix lengths to dotted netmasks, sizes such as
  \<open>512M\<close> to bytes, and the limits of a container to resource-control rules.
\<close>

section \<open>Netmasks\<close>

text \<open>A shift by a negative count is a ValueError.\<close>

definition offset_to_netmask :: "int \<Rightarrow> string res" where
  "offset_to_netmask n =
     (if n < 0 \<or> 32 < n then Inl ValueError
      else let numeric_mask = push_bit (nat (32 - n)) (push_bit (nat n) 1 - 1) :: int in
        Inr (dec_int (drop_bit 24 numeric_mask AND 255) @ ''.'' @
             dec_int (drop_bit 16 numeric_mask AND 255) @ ''.'' @
             dec_int (drop_bit 8 numeric_mask AND 255) @ ''.'' @
             dec_int (numeric_mask AND 255)))"

section \<open>Sizes\<close>

text \<open>The match of \<open>(\d+)([KMG]?B?)\<close> at the start: the digits and the unit after them.\<close>

definition match_unit :: "string \<Rightarrow> string" where
  "match_unit rest =
     (case rest of
        [] \<Rightarrow> []
      | c # cs \<Rightarrow>
          if c \<in> {CHR ''K'', CHR ''M'', CHR ''G''} then
            c # (case cs of [] \<Rightarrow> [] | d # ds \<Rightarrow> if d = CHR ''B'' then [d] else [])
          else if c = CHR ''B'' then [c] else [])"

definition multipliers :: "(string \<times> int) list" where
  "multipliers = [(''K'', 1024), (''KB'', 1024), (''M'', 1024 ^ 2), (''MB'', 1024 ^ 2),
     (''G'', 1024 ^ 3), (''GB'', 1024 ^ 3), ('''', 1)]"

definition size_text :: "string \<Rightarrow> json" where
  "size_text s =
     (let val = map upper_char (strip s); digits = takeWhile is_digit val in
      if digits = [] then JStr val
      else JInt (int (num_of digits) *
             dget multipliers (match_unit (dropWhile is_digit val)) 1))"

fun convert_to_bytes :: "json \<Rightarrow> json res" where
  "convert_to_bytes (JInt n) = Inr (JInt n)"
| "convert_to_bytes (JBool b) = Inr (JBool b)"
| "convert_to_bytes (JStr s) = Inr (size_text s)"
| "convert_to_bytes _ = Inl AttributeError"

section \<open>Resource-control rules\<close>

definition resource_map :: "string dict" where
  "resource_map = [(''MEMORY'', ''memoryuse''), (''CPU_PERCENT'', ''pcpu''), (''PROCESS_COUNT'', ''maxproc''),
     (''OPEN_FILES'', ''openfiles''), (''SWAP'', ''swapuse''), (''CPU_TIME'', ''cputime'')]"

definition action_map :: "string dict" where
  "action_map = [(''BLOCK'', ''deny''), (''LOG'', ''log'')]"

text \<open>\<open>m.get(k)\<close> for a key of any type: lists and dictionaries cannot be hashed.\<close>

fun lookup_key :: "'v dict \<Rightarrow> json \<Rightarrow> 'v option res" where
  "lookup_key m (JStr k) = Inr (map_of m k)"
| "lookup_key m (JList xs) = Inl TypeError"
| "lookup_key m (JObj d) = Inl TypeError"
| "lookup_key m _ = Inr None"

definition limit_rule :: "string \<Rightarrow> json \<Rightarrow> string option res" where
  "limit_rule subject limit =
     bindR (jindex limit ''RESOURCE'') (\<lambda>resource.
     bindR (jindex limit ''MAX'') (\<lambda>val.
     bindR (jindex limit ''ACTION'') (\<lambda>action.
     bindR (lookup_key resource_map resource) (\<lambda>rctl_resource.
     bindR (lookup_key action_map action) (\<lambda>rctl_action.
     case (rctl_resource, rctl_action) of
       (Some r, Some a) \<Rightarrow>
         Inr (Some (subject @ '':'' @ r @ '':'' @ a @ ''='' @
           py_str (case val of JStr s \<Rightarrow> size_text s | _ \<Rightarrow> val)))
     | _ \<Rightarrow> Inr None)))))"

fun limit_rules :: "string \<Rightarrow> json list \<Rightarrow> string list res" where
  "limit_rules subject [] = Inr []"
| "limit_rules subject (limit # rest) =
     bindR (limit_rule subject limit) (\<lambda>r.
     bindR (limit_rules subject rest) (\<lambda>rs. Inr (case r of Some s \<Rightarrow> s # rs | None \<Rightarrow> rs)))"

definition convert_to_rctl_rules :: "json \<Rightarrow> string \<Rightarrow> string list res" where
  "convert_to_rctl_rules data subject =
     (if \<not> truthy data then Inr [] else bindR (json_iter data) (limit_rules subject))"

section \<open>Properties\<close>

lemma limit_rules_subject:
  "limit_rules subject ls = Inr rules \<Longrightarrow> rule \<in> set rules \<Longrightarrow> \<exists>rest. rule = subject @ CHR '':'' # rest"
  by (induction ls arbitrary: rules)
    (auto simp: limit_rule_def bindR_eq_Inr split: option.splits)

lemma convert_to_rctl_rules_subject:
  "convert_to_rctl_rules data subject = Inr rules \<Longrightarrow> rule \<in> set rules \<Longrightarrow>
   \<exists>rest. rule = subject @ CHR '':'' # rest"
  by (auto simp: convert_to_rctl_rules_def bindR_eq_Inr intro: limit_rules_subject split: if_splits)

lemma upper_char_digit: "is_digit c \<Longrightarrow> upper_char c = c"
  by (simp add: is_digit_def upper_char_def)

lemma map_upper_digits: "list_all is_digit ds \<Longrightarrow> map upper_char ds = ds"
  by (induction ds) (auto simp: upper_char_digit)

lemma not_space_digit: "is_digit c \<Longrightarrow> \<not> is_space c"
  by (auto simp: is_digit_def is_space_def)

text \<open>The mask as an integer, and its octets.\<close>

lemma uint_netmask: "p \<le> 32 \<Longrightarrow> uint (netmask p) = push_bit (32 - p) (push_bit p 1 - 1)"
proof -
  assume "p \<le> 32"
  moreover have "push_bit p 1 - 1 = (mask p :: int)"
    by (simp add: mask_eq_exp_minus_1 push_bit_eq_mult)
  ultimately show ?thesis
    by (intro bit_eqI) (auto simp: bit_simps bit_netmask)
qed

lemma dec_int_octet: "dec_int (drop_bit k (uint a) AND 255) = dec (unat (drop_bit k a AND 255))"
  for a :: ipv4
proof -
  have "take_bit LENGTH(32) (uint a) = uint a" by transfer simp
  then have "uint (drop_bit k a) = drop_bit k (uint a)"
    using unsigned_drop_bit_eq [of k a] by metis
  moreover have "uint (255 :: ipv4) = 255" by simp
  ultimately have eq: "drop_bit k (uint a) AND 255 = uint (drop_bit k a AND 255)"
    by (metis uint_and)
  have "\<not> uint x < 0" for x :: ipv4 by simp
  then show ?thesis by (simp only: eq dec_int_def if_False unat_eq_nat_uint)
qed

text \<open>
  Every prefix length from 0 to 32 becomes the dotted form of its netmask.
\<close>

theorem offset_to_netmask_correct:
  assumes "p \<le> 32"
  shows "offset_to_netmask (int p) = Inr (ip_str (netmask p))"
proof -
  have n: "nat (32 - int p) = 32 - p" "\<not> (int p < 0 \<or> 32 < int p)" "nat (int p) = p"
    using assms by auto
  have "offset_to_netmask (int p) = Inr (dec_int (drop_bit 24 (uint (netmask p)) AND 255) @ ''.'' @
      dec_int (drop_bit 16 (uint (netmask p)) AND 255) @ ''.'' @
      dec_int (drop_bit 8 (uint (netmask p)) AND 255) @ ''.'' @
      dec_int (drop_bit 0 (uint (netmask p)) AND 255))"
    unfolding offset_to_netmask_def Let_def if_not_P [OF n(2)] n(1,3) uint_netmask [OF assms] by simp
  then show ?thesis
    unfolding dec_int_octet by (simp add: ip_str_def octet_def upt_rec)
qed

theorem offset_to_netmask_correct_witness:
  "offset_to_netmask 24 = Inr (ip_str (netmask 24)) \<and> ip_str (netmask 24) = ''255.255.255.0''"
proof -
  have "ip_str (netmask 24) = ''255.255.255.0''" by code_simp
  with offset_to_netmask_correct [of 24] show ?thesis by simp
qed

definition unit_table :: "(string \<times> int) list" where
  "unit_table = [('''', 1), (''b'', 1), (''k'', 1024), (''kb'', 1024), (''m'', 1024 ^ 2), (''mb'', 1024 ^ 2),
     (''g'', 1024 ^ 3), (''gb'', 1024 ^ 3), (''B'', 1), (''K'', 1024), (''KB'', 1024), (''M'', 1024 ^ 2),
     (''MB'', 1024 ^ 2), (''G'', 1024 ^ 3), (''GB'', 1024 ^ 3)]"

definition unit_ok :: "string \<Rightarrow> int \<Rightarrow> bool" where
  "unit_ok u m = (list_all (\<lambda>c. \<not> is_space c) u \<and> dget multipliers (match_unit (map upper_char u)) 1 = m \<and>
     takeWhile is_digit (map upper_char u) = [])"

lemma unit_table_ok: "list_all (\<lambda>(u, m). unit_ok u m) unit_table"
  by code_simp

text \<open> A decimal number followed by a unit, in either case and with spaces around it, is that
  number of bytes.
\<close>

theorem size_text_units:
  assumes "list_all is_space before" and "list_all is_space after" and "(u, m) \<in> set unit_table"
  shows "convert_to_bytes (JStr (before @ dec n @ u @ after)) = Inr (JInt (int n * m))"
proof -
  have u: "list_all (\<lambda>c. \<not> is_space c) u" "dget multipliers (match_unit (map upper_char u)) 1 = m"
    "takeWhile is_digit (map upper_char u) = []"
    using unit_table_ok assms(3) by (auto simp: list_all_iff unit_ok_def)
  let ?s = "dec n @ u"
  have ns: "list_all (\<lambda>c. \<not> is_space c) ?s"
    using u(1) dec_digits [of n] not_space_digit by (auto simp: list_all_iff)
  have strip: "strip (before @ ?s @ after) = ?s"
  proof -
    have drop: "dropWhile is_space (xs @ ys) = ys"
      if "list_all is_space xs" "ys \<noteq> []" "\<not> is_space (hd ys)" for xs ys
      using that by (induction xs) (auto simp: dropWhile_eq_self_iff)
    have hd: "\<not> is_space (hd (?s @ after))" "\<not> is_space (hd (rev ?s))"
      using ns by (auto simp: list_all_iff hd_append hd_rev intro!: last_in_set)
    have "dropWhile is_space (before @ ?s @ after) = ?s @ after"
      by (rule drop [OF assms(1) _ hd(1)]) simp
    moreover have "dropWhile is_space (rev after @ rev ?s) = rev ?s"
      using assms(2) by (intro drop hd(2)) (simp_all add: list_all_iff)
    ultimately show ?thesis by (simp add: strip_def)
  qed
  have up: "map upper_char ?s = dec n @ map upper_char u"
    by (simp add: map_upper_digits [OF dec_digits])
  have digits: "takeWhile is_digit (dec n @ map upper_char u) = dec n"
    "dropWhile is_digit (dec n @ map upper_char u) = map upper_char u"
    using dec_digits [of n] u(3)
    by (auto simp: list_all_iff takeWhile_append dropWhile_append takeWhile_eq_Nil_iff
        dropWhile_eq_self_iff)
  have "before @ dec n @ u @ after = before @ ?s @ after" by simp
  then show ?thesis
    by (simp only: convert_to_bytes.simps size_text_def strip up Let_def digits u(2) num_of_dec
        dec_not_Nil if_False)
qed

theorem size_text_units_witness:
  "convert_to_bytes (JStr ('' '' @ dec 512 @ ''m'' @ '''')) = Inr (JInt (int 512 * 1024 ^ 2))"
proof -
  have "list_all is_space '' ''" by code_simp
  moreover have "(''m'', 1024 ^ 2) \<in> set unit_table" by (simp add: unit_table_def)
  ultimately show ?thesis by (intro size_text_units) simp_all
qed

end
