(* ===== verification/Jail.thy ===== *)
theory Jail
  imports Helpers Limits
begin

text \<open>
  \<open>app2/Jail_.py\<close>: one jail, from its creation by the worker to its destruction, and the code its
  first process runs inside.  The object is the field \<open>self\<close> of the state; it is changed in place.
\<close>

section \<open>The object\<close>

record jail =
  jname :: string
  isvnet :: bool
  jid :: "int option"
  params :: "json dict"
  epair :: "string list"
  kwargs :: "json dict"
  devfs_mounted :: bool

record jworld = world +
  self :: jail

definition VOLUME_MOUNT_ROOT :: string where
  "VOLUME_MOUNT_ROOT = ''/jails/volumes''"

definition new_jail :: "string \<Rightarrow> bool \<Rightarrow> json dict \<Rightarrow> json dict \<Rightarrow> jail" where
  "new_jail name vnet js config =
     \<lparr>jname = name, isvnet = vnet, jid = None, params = js, epair = [], kwargs = config,
      devfs_mounted = False\<rparr>"

definition the_self :: "('x jworld_scheme, jail) comp" where
  "the_self = gets self"

definition set_self :: "(jail \<Rightarrow> jail) \<Rightarrow> ('x jworld_scheme, unit) comp" where
  "set_self f = modify (\<lambda>w. w\<lparr>self := f (self w)\<rparr>)"

lemma emits_the_self [emits_rules]: "emits P the_self"
  by (simp add: the_self_def emits_gets)

lemma emits_set_self [emits_rules]: "emits P (set_self f)"
  unfolding set_self_def by (rule emits_modify) simp_all

lemma self_apply [comp_simps]:
  "the_self w = (Inr (self w), w)"
  "set_self f w = (Inr (), w\<lparr>self := f (self w)\<rparr>)"
  by (simp_all add: the_self_def set_self_def)

section \<open>File systems\<close>

definition jail_mount_devfs :: "('x jworld_scheme, unit) comp" where
  "jail_mount_devfs = bindM the_self (\<lambda>j.
     if devfs_mounted j then ret ()
     else seqM (mount_jail_defvs (dget (params j) ''path'' JNull) (dget (params j) ''devfs_ruleset'' (JInt 4)))
            (set_self (\<lambda>j. j\<lparr>devfs_mounted := True\<rparr>)))"

definition jail_mount_tmpfs :: "('x jworld_scheme, unit) comp" where
  "jail_mount_tmpfs = bindM the_self (\<lambda>j.
     seqM (mount_jail_tmpfs (dget (params j) ''path'' JNull)) (ret ()))"

definition jail_unmount_tmpfs :: "('x jworld_scheme, unit) comp" where
  "jail_unmount_tmpfs = bindM the_self (\<lambda>j.
     seqM (unmount_jail_tmpfs (dget (params j) ''path'' JNull)) (ret ()))"

definition jail_unmount_devfs :: "('x jworld_scheme, unit) comp" where
  "jail_unmount_devfs = bindM the_self (\<lambda>j.
     if \<not> devfs_mounted j then ret ()
     else seqM (unmount_jail_defvs (dget (params j) ''path'' JNull))
            (set_self (\<lambda>j. j\<lparr>devfs_mounted := False\<rparr>)))"

definition for_fs_mounts ::
  "('x jworld_scheme, unit) comp \<Rightarrow> ('x jworld_scheme, unit) comp \<Rightarrow> ('x jworld_scheme, unit) comp" where
  "for_fs_mounts devfs tmpfs = bindM the_self (\<lambda>j.
     let fs_mounts = dget (kwargs j) ''fs_mounts'' (JList []) in
     if \<not> truthy fs_mounts then ret ()
     else bindM (liftR (json_iter fs_mounts)) (\<lambda>fss.
       forM fss (\<lambda>fs. if fs = JStr ''devfs'' then devfs
                      else if fs = JStr ''tmpfs'' then tmpfs else ret ())))"

definition handle_fs_umounts :: "('x jworld_scheme, unit) comp" where
  "handle_fs_umounts = for_fs_mounts jail_unmount_devfs jail_unmount_tmpfs"

definition handle_fs_mounts :: "('x jworld_scheme, unit) comp" where
  "handle_fs_mounts = for_fs_mounts jail_mount_devfs jail_mount_tmpfs"

text \<open>\<open>os.path.join(jail_root, m['source'][1:])\<close>.\<close>

definition mount_dest :: "json \<Rightarrow> json \<Rightarrow> string res" where
  "mount_dest jail_root m =
     bindR (jindex m ''source'') (\<lambda>src. bindR (as_str TypeError src) (\<lambda>s.
     bindR (as_str TypeError jail_root) (\<lambda>root. Inr (path_join root (tl s)))))"

definition prepare_dest :: "string \<Rightarrow> string \<Rightarrow> ('x world_scheme, unit) comp" where
  "prepare_dest target dest =
     bindM (pycall (FsC (PathIsdir target))) (\<lambda>r.
     if rv r \<noteq> 0 then do_call (FsC (Makedirs dest))
     else bindM (pycall (FsC (PathIsfile target))) (\<lambda>r.
       if rv r \<noteq> 0 then seqM (do_call (FsC (Makedirs (path_parent dest)))) (do_call (FsC (Touch dest)))
       else seqM (do_call (FsC (Makedirs target))) (do_call (FsC (Makedirs dest)))))"

definition handle_mount :: "json \<Rightarrow> json \<Rightarrow> ('x world_scheme, unit) comp" where
  "handle_mount jail_root m =
     bindM (liftR (bindR (jindex m ''target'') (as_str TypeError))) (\<lambda>t.
     bindM (pycall (FsC (Realpath t))) (\<lambda>r.
     bindM (liftR (mount_dest jail_root m)) (\<lambda>dest.
     bindM (liftR (jindex m ''type'')) (\<lambda>tpe.
     let target = (if tpe = JStr ''volume'' then path_join VOLUME_MOUNT_ROOT t else rtext r) in
     bindM (pycall (FsC (PathExists dest))) (\<lambda>e.
     seqM (whenM (rv e = 0) (prepare_dest target dest))
     (bindM (liftR (jindex m ''readonly'')) (\<lambda>ro.
      seqM (mount_host_to_jail dest target (if is_True ro then MNT_RDONLY else 0)) (ret ()))))))))"

definition for_mounts :: "(json \<Rightarrow> json \<Rightarrow> ('x jworld_scheme, unit) comp) \<Rightarrow> ('x jworld_scheme, unit) comp" where
  "for_mounts f = bindM the_self (\<lambda>j.
     let mounts = dget (kwargs j) ''mounts'' JNull in
     if \<not> truthy mounts then ret ()
     else bindM (liftR (json_iter mounts)) (\<lambda>ms. forM ms (f (dget (params j) ''path'' JNull))))"

definition handle_mounts :: "('x jworld_scheme, unit) comp" where
  "handle_mounts = for_mounts handle_mount"

definition handle_unmount :: "('x jworld_scheme, unit) comp" where
  "handle_unmount = for_mounts (\<lambda>jail_root m.
     bindM (liftR (mount_dest jail_root m)) (\<lambda>dest. seqM (unmount_jail_mounts dest) (ret ())))"

section \<open>Interfaces\<close>

text \<open>The interface is recorded before it is joined to the bridge.\<close>

definition create_epair_up :: "json \<Rightarrow> ('x jworld_scheme, int) comp" where
  "create_epair_up network =
     bindM (create_epair '''' True) (\<lambda>e.
     case e of
       None \<Rightarrow> ret CERROR
     | Some name \<Rightarrow>
         if name = [] then ret CERROR
         else seqM (set_self (\<lambda>j. j\<lparr>epair := epair j @ [name]\<rparr>))
           (bindM (liftR (jget network ''name'' JNull)) (\<lambda>bridge.
            let mem = butlast name @ ''b'' in
            tryM is_OSError
              (bindM (liftR (c_chars IFNAMSIZ mem)) (\<lambda>_.
               bindM (liftR (as_str AttributeError bridge)) (\<lambda>br.
               seqM (bridge_if br mem True True) (ret CENOERR))))
              (\<lambda>e. ret CERROR))))"

definition attach_epair :: "('x jworld_scheme, unit) comp" where
  "attach_epair = bindM the_self (\<lambda>j. forM (epair j) (\<lambda>e.
     bindM (attach_vnet_ifaces (jname j) e) (\<lambda>res.
       if res \<noteq> 0 then raise (CustomException (''Failed to attach epair:'' @ e) (jname j)) else ret ())))"

definition attach_inteface_up :: "('x jworld_scheme, unit) comp" where
  "attach_inteface_up = bindM the_self (\<lambda>j.
     if epair j = [] then ret ()
     else if jid j = None \<or> jid j = Some 0 then ret ()
     else forM (epair j) (\<lambda>e. seqM (attach_vnet_ifaces (jname j) e) (ret ())))"

definition deattach_epair :: "('x jworld_scheme, unit) comp" where
  "deattach_epair = bindM the_self (\<lambda>j.
     forM (epair j) (\<lambda>e. seqM (deattach_vnet_ifaces (jname j) e) (ret ())))"

definition destroy_epair :: "('x jworld_scheme, unit) comp" where
  "destroy_epair = bindM the_self (\<lambda>j.
     if epair j = [] then ret ()
     else seqM (forM (epair j) (\<lambda>e. seqM (destroy_if e) (ret ())))
            (set_self (\<lambda>j. j\<lparr>epair := []\<rparr>)))"

section \<open>Creation\<close>

definition apply_limits :: "('x jworld_scheme, unit) comp" where
  "apply_limits = bindM the_self (\<lambda>j.
     case map_of (kwargs j) ''R_LIMITS'' of
       None \<Rightarrow> ret ()
     | Some limits \<Rightarrow>
         bindM (liftR (convert_to_rctl_rules limits (''name:'' @ jname j))) (\<lambda>rules.
           forM rules (\<lambda>rule. tryM is_Exception (seqM (rctl_add_rule rule 1024) (ret ())) (\<lambda>e. ret ()))))"

definition create_epairs :: "json list \<Rightarrow> ('x jworld_scheme, unit) comp" where
  "create_epairs networks = forM networks (\<lambda>network.
     bindM (liftR (jget network ''driver'' JNull)) (\<lambda>net_type.
     if net_type = JStr ''bridge'' then
       bindM (create_epair_up network) (\<lambda>res.
         if res \<noteq> CENOERR then raise (GenericException ''Failed to Create Epair'') else ret ())
     else ret ()))"

definition setup_epairs :: "json \<Rightarrow> ('x jworld_scheme, unit) comp" where
  "setup_epairs networks =
     (if \<not> truthy networks then ret ()
      else bindM (liftR (bindR (json_head networks) (\<lambda>n. jget n ''driver'' JNull))) (\<lambda>driver.
        seqM (if driver \<noteq> JStr ''host'' then bindM (liftR (json_iter networks)) create_epairs else ret ())
             attach_inteface_up))"

definition create_jail :: "('x jworld_scheme, unit) comp" where
  "create_jail = bindM the_self (\<lambda>j.
     bindM (start_jail_from_json (params j)) (\<lambda>i.
     seqM (set_self (\<lambda>j. j\<lparr>jid := Some i\<rparr>))
     (seqM (setup_epairs (dget (kwargs j) ''networks'' JNull))
     (seqM handle_fs_mounts (seqM handle_mounts apply_limits)))))"

section \<open>Destruction\<close>

definition stop_jail :: "('x jworld_scheme, unit) comp" where
  "stop_jail = bindM the_self (\<lambda>j.
     let no_jid = (jid j = None \<or> jid j = Some 0) in
     if no_jid \<and> jname j = [] then ret ()
     else seqM (do_call (ProcC (Spawn [''jexec'', if no_jid then jname j else dec_int (the (jid j)),
                  ''/bin/sh'', ''/etc/rc.shutdown''])))
            (seqM (remove_jail_from_name (jname j)) (ret ())))"

definition destroy_jail :: "('x jworld_scheme, unit) comp" where
  "destroy_jail = bindM the_self (\<lambda>j.
     tryM is_Exception
       (seqM deattach_epair (seqM stop_jail (seqM destroy_epair (seqM handle_fs_umounts
       (seqM handle_unmount
         (tryM is_Exception (seqM (rctl_remove_rule (''jail:'' @ jname j) 1024) (ret ())) (\<lambda>e. ret ())))))))
       (\<lambda>e. ret ()))"

section \<open>Inside the jail\<close>

definition jail_log :: "jail \<Rightarrow> string" where
  "jail_log j = ''log/'' @ jname j @ ''.log''"

definition redirect_io :: "('x jworld_scheme, unit) comp" where
  "redirect_io = bindM the_self (\<lambda>j.
     seqM (do_call (FsC (OpenFile (jail_log j)))) (seqM (do_call (FsC (OpenFile ''/dev/null'')))
     (seqM (do_call (ProcC (Dup2 ''/dev/null'' 0))) (seqM (do_call (ProcC (Dup2 (jail_log j) 1)))
     (seqM (do_call (ProcC (Dup2 (jail_log j) 2))) (seqM (do_call (FsC (CloseFd ''/dev/null'')))
     (do_call (FsC (CloseFd (jail_log j))))))))))"

definition write_pid :: "('x jworld_scheme, unit) comp" where
  "write_pid = bindM the_self (\<lambda>j.
     bindM (liftR (as_str TypeError (dget (kwargs j) ''path'' JNull))) (\<lambda>path.
     let pid_file = path_join path ''jail.pid'' in
     seqM (do_call (FsC (OpenFile pid_file)))
     (bindM (pycall (ProcC Getpid)) (\<lambda>r.
      do_call (FsC (WriteFile pid_file (dec_int (rv r) @ [CHR 0x0A])))))))"

definition jail_attach_self :: "('x jworld_scheme, int) comp" where
  "jail_attach_self = bindM the_self (\<lambda>j.
     if jname j = [] then raise (GenericException ''JID is null.Failed to attach'')
     else jail_attach (jname j))"

text \<open>The user's entry: \<open>rv\<close> is its uid and \<open>raddr\<close> its gid.  \<open>PermissionError\<close> is the OSError of
  EPERM or EACCES.\<close>

definition is_PermissionError :: "exn \<Rightarrow> bool" where
  "is_PermissionError e = (e = OSError 1 \<or> e = OSError 13)"

definition switch_user :: "('x jworld_scheme, unit) comp" where
  "switch_user = bindM the_self (\<lambda>j.
     let username = dget (kwargs j) ''user'' JNull in
     if \<not> truthy username \<or> username = JStr ''root'' then ret ()
     else tryM (\<lambda>e. e = KeyError \<or> is_PermissionError e)
       (bindM (liftR (as_str TypeError username)) (\<lambda>u.
        bindM (pycall (ProcC (Getpwnam u))) (\<lambda>pw.
        seqM (do_call (ProcC (Setgid (uint (raddr pw))))) (do_call (ProcC (Setuid (rv pw)))))))
       (\<lambda>e. raise (if e = KeyError
             then CustomException (''User '' @ CHR 0x27 # py_str username @ [CHR 0x27] @ '' not found'') (jname j)
             else CustomException ''Permission error'' (jname j))))"

definition try_route :: "('x world_scheme, unit) comp \<Rightarrow> ('x world_scheme, unit) comp" where
  "try_route m = tryM is_Exception m (\<lambda>e. ret ())"

text \<open>One bridge network: address the interface of the same position, then the route to the
  subnet's first host, which becomes a name server.\<close>

definition setup_bridge :: "string list \<Rightarrow> nat \<Rightarrow> json \<Rightarrow> ('x world_scheme, string list) comp" where
  "setup_bridge epairs i network =
     bindM (liftR (jget network ''ip'' JNull)) (\<lambda>ip.
     bindM (liftR (jget network ''prefix'' JNull)) (\<lambda>plen.
     bindM (liftR (as_str TypeError ip)) (\<lambda>ip'.
     bindM (liftR (ip_interface (ip' @ ''/'' @ py_str plen))) (\<lambda>(addr, nm).
     bindM (liftR (if i < length epairs then Inr (epairs ! i) else Inl IndexError)) (\<lambda>e.
     seqM (set_if_address e (ip_str addr) (ip_str nm) None)
     (bindM (liftR (jget network ''subnet'' JNull)) (\<lambda>subnet.
      if \<not> truthy subnet then ret []
      else bindM (liftR (jindex network ''prefix'')) (\<lambda>plen'.
        bindM (liftR (bindR (ip_network (py_str subnet @ ''/'' @ py_str plen')) next_host)) (\<lambda>h.
        seqM (try_route (bindM (liftR (case plen' of JInt n \<Rightarrow> offset_to_netmask n
                                        | JBool b \<Rightarrow> offset_to_netmask (if b then 1 else 0)
                                        | _ \<Rightarrow> Inl TypeError)) (\<lambda>m.
                add_route (py_str subnet) m (ip_str h) True)))
             (ret [ip_str h]))))))))))"

fun setup_networks :: "string list \<Rightarrow> nat \<Rightarrow> json list \<Rightarrow> ('x world_scheme, string list) comp" where
  "setup_networks epairs i [] = ret []"
| "setup_networks epairs i (network # rest) =
     bindM (liftR (jget network ''driver'' JNull)) (\<lambda>net_type.
     bindM (if net_type = JStr ''bridge'' then setup_bridge epairs i network else ret []) (\<lambda>ns.
     bindM (setup_networks epairs (Suc i) rest) (\<lambda>nss. ret (ns @ nss))))"

definition resolv_conf :: "string list \<Rightarrow> string" where
  "resolv_conf nameservers = ''# Generated by Jail'' @ [CHR 0x0A] @
     concat (map (\<lambda>ns. ''nameserver '' @ ns @ [CHR 0x0A]) nameservers)"

definition setup_network :: "('x jworld_scheme, unit) comp" where
  "setup_network = bindM the_self (\<lambda>j.
     let networks = dget (kwargs j) ''networks'' JNull in
     if \<not> truthy networks then ret ()
     else bindM (liftR (bindR (json_head networks) (\<lambda>n. jindex n ''driver''))) (\<lambda>driver.
       if driver = JStr ''host'' then ret ()
       else bindM (liftR (json_iter networks)) (\<lambda>nets.
         bindM (setup_networks (epair j) 0 nets) (\<lambda>found.
         seqM (whenM (found \<noteq> []) (try_route (add_route ''0.0.0.0'' ''0.0.0.0'' (hd found) True)))
         (let nameservers = (if found \<noteq> [] then found else [''8.8.8.8'', ''1.1.1.1'']) in
          do_call (FsC (WriteFile ''/etc/resolv.conf'' (resolv_conf nameservers))))))))"

definition setup_jail :: "('x jworld_scheme, unit) comp" where
  "setup_jail = seqM (do_call (ProcC (Spawn [''/bin/sh'', ''/etc/rc'']))) setup_network"

text \<open>The program and its arguments: an entrypoint is the program and its own first argument, before
  those of the command; without one the command is both.\<close>

definition exec_args :: "json \<Rightarrow> json \<Rightarrow> (json \<times> json list) res" where
  "exec_args entrypoint command =
     bindR (if truthy entrypoint then Inr (entrypoint, [entrypoint])
            else if truthy command then bindR (json_iter command) (\<lambda>_. bindR (json_head command) (\<lambda>c. Inr (c, [])))
            else Inr (JNull, [])) (\<lambda>(first, args).
     if truthy command then bindR (json_iter command) (\<lambda>cs. Inr (first, args @ cs))
     else Inr (first, args))"

definition exec_container :: "('x jworld_scheme, unit) comp" where
  "exec_container = bindM the_self (\<lambda>j.
     bindM (liftR (exec_args (dget (kwargs j) ''entrypoint'' JNull) (dget (kwargs j) ''command'' (JList [])))) (\<lambda>(first, args).
     bindM (liftR (as_str TypeError (dget (kwargs j) ''workingDir'' (JStr ''/'')))) (\<lambda>dir.
     seqM (do_call (ProcC (Chdir dir)))
     (bindM (liftR (as_str TypeError first)) (\<lambda>f.
      seqM (do_call (ProcC (Execvpe f args (dget (kwargs j) ''env'' (JObj []))))) (raise ProcessReplaced))))))"

definition jail_run :: "int \<Rightarrow> ('x jworld_scheme, unit) comp" where
  "jail_run res =
     (if res \<noteq> 0 then raise (SystemExit CEATTERR)
      else seqM setup_jail
        (tryM is_Exception (seqM switch_user exec_container)
          (\<lambda>e. raise (SystemExit (if is_OSError e then 128 else 1)))))"

definition jail_child :: "('x jworld_scheme, unit) comp" where
  "jail_child = seqM redirect_io (seqM write_pid (bindM jail_attach_self jail_run))"

lemmas jail_defs = jail_mount_devfs_def jail_mount_tmpfs_def jail_unmount_tmpfs_def
  jail_unmount_devfs_def for_fs_mounts_def handle_fs_umounts_def handle_fs_mounts_def
  prepare_dest_def handle_mount_def for_mounts_def handle_mounts_def handle_unmount_def
  attach_inteface_up_def deattach_epair_def destroy_epair_def apply_limits_def
  stop_jail_def destroy_jail_def

lemmas call_defs = helper_defs netif_defs wrapper_defs Let_def

section \<open>Every interface is accounted for\<close>

text \<open>The names of the interfaces that the kernel made in a stretch of the trace.\<close>

definition epair_create :: syscall where
  "epair_create = NetC (Ioctl SIOCIFCREATE2 (IfreqArg ''epair'' IfruNone))"

fun created :: "(syscall list \<Rightarrow> syscall \<Rightarrow> sysret) \<Rightarrow> syscall list \<Rightarrow> syscall list \<Rightarrow> string list" where
  "created k t [] = []"
| "created k t (c # cs) =
     (if c = epair_create \<and> rv (k t c) = 0 \<and> c_value (rtext (k t c)) \<noteq> [] then [c_value (rtext (k t c))]
      else []) @ created k (t @ [c]) cs"

lemma created_append: "created k t (cs @ ds) = created k t cs @ created k (t @ cs) ds"
  by (induction cs arbitrary: t) auto

text \<open>The interfaces the jail knows are those it had and those made since.\<close>

definition tracked ::
  "(syscall list \<Rightarrow> syscall \<Rightarrow> sysret) \<Rightarrow> syscall list \<Rightarrow> string list \<Rightarrow> 'x jworld_scheme \<Rightarrow> bool" where
  "tracked K T E w \<longleftrightarrow> kern w = K \<and> sockets_work w \<and>
     (\<exists>cs. trace w = T @ cs \<and> epair (self w) = E @ created K T cs)"

lemma sockets_work_trace [simp]:
  "sockets_work (w\<lparr>trace := t\<rparr>) = sockets_work w"
  "sockets_work (w\<lparr>self := j\<rparr>) = sockets_work w"
  by (simp_all add: sockets_work_def del: sockets_workD)

lemma tracked_call:
  assumes "tracked K T E w" "c \<noteq> epair_create"
  shows "tracked K T E (w\<lparr>trace := trace w @ [c]\<rparr>)"
proof -
  from assms(1) obtain cs where cs: "trace w = T @ cs" "epair (self w) = E @ created K T cs"
    unfolding tracked_def by blast
  then have "trace (w\<lparr>trace := trace w @ [c]\<rparr>) = T @ (cs @ [c]) \<and>
      epair (self (w\<lparr>trace := trace w @ [c]\<rparr>)) = E @ created K T (cs @ [c])"
    using assms(2) by (simp add: created_append)
  moreover have "kern (w\<lparr>trace := trace w @ [c]\<rparr>) = K" "sockets_work (w\<lparr>trace := trace w @ [c]\<rparr>)"
    using assms(1) by (auto simp: tracked_def)
  ultimately show ?thesis unfolding tracked_def by blast
qed

named_theorems tracked_rules \<open>computations that keep the account of interfaces\<close>

lemma tracked_libc [tracked_rules]: "c \<noteq> epair_create \<Longrightarrow> keeps (tracked K T E) (libc c)"
  by (simp add: keeps_def libc_def tracked_call)

lemma tracked_pycall [tracked_rules]: "c \<noteq> epair_create \<Longrightarrow> keeps (tracked K T E) (pycall c)"
  by (simp add: keeps_def pycall_apply tracked_call)

lemma tracked_do_call [tracked_rules]: "c \<noteq> epair_create \<Longrightarrow> keeps (tracked K T E) (do_call c)"
  by (simp add: keeps_def do_call_apply tracked_call)

lemma tracked_the_self [tracked_rules]: "keeps (tracked K T E) the_self"
  by (simp add: the_self_def keeps_gets)

lemma tracked_set_self [tracked_rules]:
  "(\<And>j. epair (f j) = epair j) \<Longrightarrow> keeps (tracked K T E) (set_self f)"
  by (auto simp: keeps_def set_self_def tracked_def)

lemma tracked_convert_addrs [tracked_rules]: "keeps (tracked K T E) (convert_addrs ips)"
proof (induction ips)
  case (Cons ip ips)
  then show ?case
    unfolding convert_addrs.simps
    by (intro keeps_rules tracked_rules) (simp_all add: epair_create_def)
qed (simp only: convert_addrs.simps keeps_ret)

lemma tracked_entries_iovec [tracked_rules]: "keeps (tracked K T E) (entries_iovec d)"
proof (induction d rule: entries_iovec.induct)
  case (2 key val rest)
  then show ?case
    unfolding entries_iovec.simps address_iovec_def addr_iovec_def by (intro keeps_rules tracked_rules)
qed (simp only: entries_iovec.simps keeps_ret)

lemma tracked_calls [tracked_rules]:
  "keeps (tracked K T E) (start_jail_from_json d)" "keeps (tracked K T E) (attach_vnet_ifaces n i)"
  "keeps (tracked K T E) (bridge_if br i add own)" "keeps (tracked K T E) (mount_jail_defvs p ruleset)"
  "keeps (tracked K T E) (mount_jail_tmpfs p)" "keeps (tracked K T E) (mount_host_to_jail s s' flags)"
  "keeps (tracked K T E) (rctl_add_rule s outlen)"
  unfolding call_defs
  by (intro keeps_rules tracked_rules; simp add: epair_create_def request_values)+

lemma tracked_mounts [tracked_rules]:
  "keeps (tracked K T E) handle_fs_mounts" "keeps (tracked K T E) handle_mounts"
  "keeps (tracked K T E) apply_limits" "keeps (tracked K T E) attach_inteface_up"
  unfolding jail_defs Let_def
  by (intro keeps_rules tracked_rules; simp add: epair_create_def)+

text \<open>One creation, evaluated.\<close>

lemma create_epair_eval:
  assumes "sockets_work w"
  shows "create_epair '''' True w =
    (let r = kern w (trace w @ [NetC Socket]) epair_create in
     (Inr (if rv r = 0 then Some (c_value (rtext r)) else None),
      w\<lparr>trace := trace w @ [NetC Socket, epair_create, NetC CloseSocket]\<rparr>))"
  using assms
  by (simp add: create_epair_def netif_defs comp_simps c_chars_def IFNAMSIZ_def epair_create_def Let_def)

lemma tracked_created:
  assumes "tracked K T E w"
    and "r = K (trace w @ [NetC Socket]) epair_create"
    and "t = trace w @ [NetC Socket, epair_create, NetC CloseSocket]"
  shows "rv r = 0 \<Longrightarrow> c_value (rtext r) \<noteq> [] \<Longrightarrow>
      tracked K T E (w\<lparr>trace := t, self := (self w)\<lparr>epair := epair (self w) @ [c_value (rtext r)]\<rparr>\<rparr>)"
    and "rv r \<noteq> 0 \<or> c_value (rtext r) = [] \<Longrightarrow> tracked K T E (w\<lparr>trace := t\<rparr>)"
proof -
  from assms(1) obtain cs where cs: "trace w = T @ cs" "epair (self w) = E @ created K T cs"
    and kw: "kern w = K" "sockets_work w"
    unfolding tracked_def by blast
  let ?ds = "cs @ [NetC Socket, epair_create, NetC CloseSocket]"
  have new: "created K T ?ds = created K T cs @
      (if rv r = 0 \<and> c_value (rtext r) \<noteq> [] then [c_value (rtext r)] else [])"
    using cs(1) assms(2) by (simp add: created_append) (simp add: epair_create_def)
  have t: "t = T @ ?ds" using cs(1) assms(3) by simp
  show "tracked K T E (w\<lparr>trace := t, self := (self w)\<lparr>epair := epair (self w) @ [c_value (rtext r)]\<rparr>\<rparr>)"
    if "rv r = 0" "c_value (rtext r) \<noteq> []"
    unfolding tracked_def using kw cs(2) new t that by (intro conjI exI [of _ ?ds]) simp_all
  show "tracked K T E (w\<lparr>trace := t\<rparr>)" if "rv r \<noteq> 0 \<or> c_value (rtext r) = []"
    unfolding tracked_def using kw cs(2) new t that by (intro conjI exI [of _ ?ds]) auto
qed

lemma tracked_create_epair_up [tracked_rules]: "keeps (tracked K T E) (create_epair_up network)"
proof (rule keepsI)
  fix w :: "'a jworld_scheme"
  assume w: "tracked K T E w"
  then have k: "kern w = K" "sockets_work w" by (simp_all add: tracked_def)
  let ?r = "kern w (trace w @ [NetC Socket]) epair_create"
  let ?t = "trace w @ [NetC Socket, epair_create, NetC CloseSocket]"
  show "tracked K T E (snd (create_epair_up network w))"
  proof (cases "rv ?r = 0 \<and> c_value (rtext ?r) \<noteq> []")
    case False
    then have "snd (create_epair_up network w) = w\<lparr>trace := ?t\<rparr>"
      by (simp add: create_epair_up_def bindM_apply create_epair_eval [OF k(2)] Let_def)
    with tracked_created(2) [OF w, of ?r ?t] False k show ?thesis by auto
  next
    case True
    let ?w = "w\<lparr>trace := ?t, self := (self w)\<lparr>epair := epair (self w) @ [c_value (rtext ?r)]\<rparr>\<rparr>"
    let ?mem = "butlast (c_value (rtext ?r)) @ ''b''"
    let ?rest = "bindM (liftR (jget network ''name'' JNull)) (\<lambda>bridge.
            tryM is_OSError
              (bindM (liftR (c_chars IFNAMSIZ ?mem)) (\<lambda>_.
               bindM (liftR (as_str AttributeError bridge)) (\<lambda>br.
               seqM (bridge_if br ?mem True True) (ret CENOERR))))
              (\<lambda>e. ret CERROR)) :: ('a jworld_scheme, int) comp"
    have "create_epair_up network w = ?rest ?w"
      using True
      by (simp add: create_epair_up_def bindM_apply seqM_apply create_epair_eval [OF k(2)] Let_def comp_simps
          del: liftR_simps)
    moreover have "tracked K T E ?w" using tracked_created(1) [OF w, of ?r ?t] True k by simp
    moreover have "keeps (tracked K T E) ?rest" by (intro keeps_rules tracked_rules)
    ultimately show ?thesis by (simp add: keepsD)
  qed
qed

lemma tracked_create_jail: "keeps (tracked K T E) create_jail"
  unfolding create_jail_def setup_epairs_def create_epairs_def
  by (intro keeps_rules tracked_rules) simp_all

section \<open>Destruction reaches every interface\<close>

text \<open>What the destruction depends on: sockets open and close, and a program can be started.  Every other
  call may fail or raise.\<close>

definition teardown_works :: "'x world_scheme \<Rightarrow> bool" where
  "teardown_works w \<longleftrightarrow> sockets_work w \<and> (\<forall>t args. raises (kern w t (ProcC (Spawn args))) = None)"

text \<open>The state between the steps of the destruction: these calls work, the interfaces are \<open>E\<close>.\<close>

definition calm :: "string list \<Rightarrow> 'x jworld_scheme \<Rightarrow> bool" where
  "calm E w \<longleftrightarrow> teardown_works w \<and> epair (self w) = E"

lemma calm_trace: "calm E w \<Longrightarrow> calm E (w\<lparr>trace := t\<rparr>)"
  by (simp add: calm_def teardown_works_def)

lemma calm_sockets: "calm E w \<Longrightarrow> sockets_work w"
  by (simp add: calm_def teardown_works_def)

lemma calm_call:
  assumes "\<And>w :: 'x jworld_scheme. calm E w \<Longrightarrow> raises (kern w (trace w) c) = None"
  shows "safe p (calm E) (do_call c :: ('x jworld_scheme, unit) comp)"
  unfolding safe_def do_call_apply using assms by (auto simp: calm_trace)

lemma calm_calls:
  "safe p (calm E) (libc c)" "safe p (calm E) (do_call (NetC Socket))" "safe p (calm E) (do_call (NetC CloseSocket))"
  "safe p (calm E) (do_call (ProcC (Spawn args)))"
  by (simp add: safe_def libc_def calm_trace)
    (rule calm_call, simp add: calm_def teardown_works_def)+

lemma safe_the_self [safe_rules]: "safe p I the_self"
  by (simp add: the_self_def safe_gets)

lemma safe_set_self [safe_rules]:
  "(\<And>w. I w \<Longrightarrow> I (w\<lparr>self := f (self w)\<rparr>)) \<Longrightarrow> safe p I (set_self f)"
  by (simp add: set_self_def safe_modify)

lemma c_chars_short: "length s \<le> IFNAMSIZ \<Longrightarrow> c_chars IFNAMSIZ s = Inr s"
  by (simp add: c_chars_def)

lemma calm_deattach: "length i \<le> IFNAMSIZ \<Longrightarrow> safe p (calm E) (deattach_vnet_ifaces n i)"
  unfolding call_defs
  by (simp only: c_chars_short liftR_simps bindM_ret)
    (intro safe_rules calm_calls; simp)

lemma calm_destroy_if: "length i \<le> IFNAMSIZ \<Longrightarrow> safe p (calm E) (destroy_if i)"
  unfolding call_defs
  by (simp only: c_chars_short liftR_simps bindM_ret)
    (intro safe_rules calm_calls; simp)

lemma calm_stop_jail: "safe p (calm E) stop_jail"
  unfolding stop_jail_def remove_jail_from_name_def get_jail_id_by_name_def jail_remove_wrapper_def Let_def
  by (intro safe_rules calm_calls; simp)

lemma calm_deattach_epair:
  "\<forall>i \<in> set E. length i \<le> IFNAMSIZ \<Longrightarrow> calm E w \<Longrightarrow>
   \<exists>w'. deattach_epair w = (Inr (), w') \<and> calm E w'"
proof -
  assume E: "\<forall>i \<in> set E. length i \<le> IFNAMSIZ" and w: "calm E w"
  let ?loop = "forM E (\<lambda>e. seqM (deattach_vnet_ifaces (jname (self w)) e) (ret ())) :: ('a jworld_scheme, unit) comp"
  have "safe (\<lambda>_. False) (calm E) ?loop"
    using E by (intro safe_rules calm_deattach) auto
  from safe_returns [OF this w] w show ?thesis
    by (simp add: deattach_epair_def bindM_apply comp_simps calm_def)
qed

text \<open>The loop over the interfaces asks the kernel to destroy each of them.\<close>

definition if_destroy :: "string \<Rightarrow> syscall" where
  "if_destroy i = NetC (Ioctl SIOCIFDESTROY (IfreqArg i IfruNone))"

lemma destroy_if_calls:
  assumes "i \<noteq> []" "length i \<le> IFNAMSIZ" "sockets_work w"
  shows "if_destroy i \<in> set (calls (destroy_if i) w)"
  using assms
  by (simp add: calls_def destroy_if_def netif_defs comp_simps c_chars_short if_destroy_def)

lemma destroy_loop:
  assumes "\<forall>i \<in> set E. i \<noteq> [] \<and> length i \<le> IFNAMSIZ" "i \<in> set E" "calm F w"
  shows "if_destroy i \<in> set (calls (forM E (\<lambda>e. seqM (destroy_if e) (ret ()))) w)"
  using assms
proof (induction E arbitrary: w)
  case (Cons e E)
  have ap: "appends (forM E (\<lambda>e. seqM (destroy_if e) (ret ())) :: ('a jworld_scheme, unit) comp)"
    by (intro emits_rules)
  have "safe (\<lambda>_. False) (calm F) (destroy_if e :: ('a jworld_scheme, int) comp)"
    using Cons.prems(1) by (intro calm_destroy_if) simp
  from safe_returns [OF this Cons.prems(3)] obtain x w1 where
    d: "destroy_if e w = (Inr x, w1)" and w1: "calm F w1" by blast
  have "emits (\<lambda>_. True) (destroy_if e :: ('a jworld_scheme, int) comp)" by (intro emits_rules)
  from emitsD [OF this, of w] d have t1: "trace w1 = trace w @ calls (destroy_if e) w" by simp
  have run: "forM (e # E) (\<lambda>e. seqM (destroy_if e) (ret ())) w =
      forM E (\<lambda>e. seqM (destroy_if e) (ret ())) w1"
    using d by (simp add: seqM_apply)
  have "calls (forM (e # E) (\<lambda>e. seqM (destroy_if e) (ret ()))) w =
      calls (destroy_if e) w @ calls (forM E (\<lambda>e. seqM (destroy_if e) (ret ()))) w1"
    by (rule calls_after) (rule run t1 ap)+
  moreover have "if_destroy i \<in> set (calls (destroy_if e) w)" if "i = e"
    using destroy_if_calls [of e w] Cons.prems(1) calm_sockets [OF Cons.prems(3)] that by simp
  moreover have "if_destroy i \<in> set (calls (forM E (\<lambda>e. seqM (destroy_if e) (ret ()))) w1)" if "i \<in> set E"
    using Cons.prems(1) by (intro Cons.IH [OF _ that w1]) simp
  ultimately show ?case using Cons.prems(2) by auto
qed simp

lemma appends_jail [emits_rules]:
  "appends deattach_epair" "appends stop_jail" "appends destroy_epair" "appends handle_fs_umounts"
  "appends handle_unmount"
  unfolding jail_defs Let_def by (intro emits_rules)+

lemma destroy_jail_reaches:
  assumes "calm E w" "\<forall>i \<in> set E. i \<noteq> [] \<and> length i \<le> IFNAMSIZ" "i \<in> set E"
  shows "if_destroy i \<in> set (calls destroy_jail w)"
proof -
  have short: "\<forall>i \<in> set E. length i \<le> IFNAMSIZ" using assms(2) by simp
  from calm_deattach_epair [OF short assms(1)] obtain w1 where
    d1: "deattach_epair w = (Inr (), w1)" and w1: "calm E w1" by blast
  from safe_returns [OF calm_stop_jail w1] obtain u w2 where
    d2: "stop_jail w1 = (Inr u, w2)" and w2: "calm E w2" by blast
  let ?loop = "forM E (\<lambda>e. seqM (destroy_if e) (ret ())) :: ('a jworld_scheme, unit) comp"
  let ?n = "length (trace w)"
  let ?J = "\<lambda>w :: 'a jworld_scheme. ?n \<le> length (trace w) \<and> if_destroy i \<in> set (drop ?n (trace w))"
  have le: "?n \<le> length (trace w2)"
    using emitsD [OF appends_jail(1), of w] emitsD [OF appends_jail(2), of w1] d1 d2 by simp
  have ap: "appends ?loop" by (intro emits_rules)
  have "?J (snd (?loop w2))"
    using destroy_loop [OF assms(2,3) w2] emitsD [OF ap, of w2] le by simp
  moreover have "keeps ?J (set_self (\<lambda>j. j\<lparr>epair := []\<rparr>))"
    by (auto simp: keeps_def set_self_def)
  moreover have "E \<noteq> []" using assms(3) by auto
  ultimately have de: "?J (snd (destroy_epair w2))"
    using w2 unfolding destroy_epair_def
    by (auto simp: bindM_apply seqM_apply comp_simps calm_def keeps_def split: prod.splits sum.splits)
  let ?rest = "seqM handle_fs_umounts (seqM handle_unmount
         (tryM is_Exception (seqM (rctl_remove_rule (''jail:'' @ jname (self w)) 1024) (ret ())) (\<lambda>e. ret ()))) ::
         ('a jworld_scheme, unit) comp"
  have "appends ?rest" by (intro emits_rules)
  note keep = keeps_called [OF this, of ?n "if_destroy i"]
  obtain r w3 where d3: "destroy_epair w2 = (r, w3)" by force
  have "?J (snd (destroy_jail w))"
    using de d1 d2 d3 keepsD [OF keep, of w3]
    by (cases r) (auto simp: destroy_jail_def bindM_apply tryM_apply seqM_apply comp_simps
        split: prod.splits sum.splits if_splits)
  then show ?thesis by (simp add: calls_def)
qed

section \<open>Properties\<close>

lemma created_nonempty: "i \<in> set (created k t cs) \<Longrightarrow> i \<noteq> []"
  by (induction k t cs rule: created.induct) (auto split: if_splits)

text \<open>
  C8.  No interface is leaked: however the creation of a jail ends, whatever raises on the way, its
  destruction asks the kernel to destroy every interface the kernel made for it, whatever else fails or
  raises.  It takes for granted that sockets can be opened and closed, that \<open>jexec\<close> can be started (when
  it cannot, interfaces are left: \<open>destroy_jail_cut_short\<close>), and that the names the kernel gives are of at
  most IFNAMSIZ bytes.
\<close>

theorem jail_interfaces_destroyed:
  assumes "sockets_work w" and "\<forall>t args. raises (kern w t (ProcC (Spawn args))) = None" and "epair (self w) = []"
    and "\<forall>i \<in> set (created (kern w) (trace w) (calls create_jail w)). length i \<le> IFNAMSIZ"
    and "i \<in> set (created (kern w) (trace w) (calls create_jail w))"
  shows "NetC (Ioctl SIOCIFDESTROY (IfreqArg i IfruNone)) \<in> set (calls destroy_jail (snd (create_jail w)))"
proof -
  let ?w = "snd (create_jail w)"
  have "tracked (kern w) (trace w) [] w"
    unfolding tracked_def using assms(1,3) by (intro conjI exI [of _ "[]"]) simp_all
  from keepsD [OF tracked_create_jail this] obtain cs where
    cs: "kern ?w = kern w" "trace ?w = trace w @ cs" "epair (self ?w) = created (kern w) (trace w) cs"
    unfolding tracked_def by auto
  then have "calls create_jail w = cs" by (simp add: calls_def)
  moreover have "calm (created (kern w) (trace w) cs) ?w"
    using assms(1,2) cs by (simp add: calm_def teardown_works_def sockets_work_def del: sockets_workD)
  ultimately show ?thesis
    using assms(4,5) destroy_jail_reaches [of "created (kern w) (trace w) cs" ?w i] created_nonempty
    by (auto simp: if_destroy_def)
qed

theorem jail_interfaces_destroyed_witness:
  "\<exists>w :: unit jworld_scheme. created (kern w) (trace w) (calls create_jail w) = [''epair0a''] \<and>
     NetC (Ioctl SIOCIFDESTROY (IfreqArg ''epair0a'' IfruNone)) \<in> set (calls destroy_jail (snd (create_jail w)))"
proof -
  let ?net = "JObj [(''driver'', JStr ''bridge''), (''name'', JStr ''br0'')]"
  let ?k = "\<lambda>t c. ok_ret\<lparr>rtext := ''epair0a'', raises := (case c of FsC f \<Rightarrow> Some (OSError 28) | _ \<Rightarrow> None)\<rparr>"
  let ?w = "\<lparr>kern = ?k, trace = [],
     self = new_jail ''web'' True [] [(''networks'', JList [?net])]\<rparr>"
  have c: "created (kern ?w) (trace ?w) (calls create_jail ?w) = [''epair0a'']" by code_simp
  have q: "sockets_work ?w" "\<forall>t args. raises (kern ?w t (ProcC (Spawn args))) = None"
    by (simp_all add: sockets_work_def ok_ret_def del: sockets_workD)
  have e: "epair (self ?w) = []" by (simp add: new_jail_def)
  have "\<forall>i \<in> set (created (kern ?w) (trace ?w) (calls create_jail ?w)). length i \<le> IFNAMSIZ"
    unfolding c by (simp add: IFNAMSIZ_def)
  from jail_interfaces_destroyed [OF q e this] c show ?thesis by (intro exI [of _ ?w]) simp
qed

text \<open>The calls by which a jail is taken down.\<close>

fun is_cleanup :: "syscall \<Rightarrow> bool" where
  "is_cleanup (JailC (Jail_remove n)) = True"
| "is_cleanup (JailC (Unmount s)) = True"
| "is_cleanup (JailC (Rctl fn s n)) = (fn = ''rctl_remove_rule'')"
| "is_cleanup (NetC (Ioctl req arg)) = (req = SIOCIFDESTROY)"
| "is_cleanup c = False"

lemma deattach_no_cleanup: "emits (\<lambda>c. \<not> is_cleanup c) deattach_epair"
  unfolding deattach_epair_def call_defs
  by (intro emits_rules; simp add: request_values)

text \<open>
  C18.  The cleanup is cut short, silently, when \<open>jexec\<close> cannot be run: the jail is not removed, no
  interface destroyed, nothing unmounted and no rule removed, and \<open>destroy_jail\<close> returns.
\<close>

theorem destroy_jail_cut_short:
  assumes "\<forall>t args. raises (kern w t (ProcC (Spawn args))) = Some (OSError 2)"
    and "jname (self w) \<noteq> []" and "fst (deattach_epair w) = Inr ()"
  shows "fst (destroy_jail w) = Inr () \<and> list_all (\<lambda>c. \<not> is_cleanup c) (calls destroy_jail w)"
proof -
  obtain w1 where d: "deattach_epair w = (Inr (), w1)"
    using assms(3) by (metis prod.collapse)
  note step = emits_at [OF deattach_no_cleanup d]
  have self: "jname (self w1) \<noteq> []"
  proof -
    have "keeps (\<lambda>w. jname (self w) \<noteq> []) deattach_epair"
      unfolding deattach_epair_def call_defs
      by (intro keeps_rules keeps_calls keeps_gets; simp add: the_self_def keeps_gets)
    from keepsD [OF this, of w] d assms(2) show ?thesis by simp
  qed
  let ?args = "[''jexec'', if jid (self w1) = None \<or> jid (self w1) = Some 0 then jname (self w1)
      else dec_int (the (jid (self w1))), ''/bin/sh'', ''/etc/rc.shutdown'']"
  have s: "stop_jail w1 = (Inl (OSError 2), w1\<lparr>trace := trace w1 @ [ProcC (Spawn ?args)]\<rparr>)"
    using self assms(1) step by (auto simp: stop_jail_def comp_simps Let_def)
  have "destroy_jail w = (Inr (), w1\<lparr>trace := trace w1 @ [ProcC (Spawn ?args)]\<rparr>)"
    using d s by (simp add: destroy_jail_def comp_simps)
  with step show ?thesis by (auto simp: calls_def)
qed

theorem destroy_jail_cut_short_witness:
  "\<exists>w :: unit jworld_scheme. epair (self w) = [''epair0a''] \<and> fst (destroy_jail w) = Inr () \<and>
     list_all (\<lambda>c. \<not> is_cleanup c) (calls destroy_jail w)"
proof -
  let ?k = "\<lambda>t c. case c of ProcC (Spawn args) \<Rightarrow> ok_ret\<lparr>raises := Some (OSError 2)\<rparr> | _ \<Rightarrow> ok_ret"
  let ?w = "\<lparr>kern = ?k, trace = [], self = (new_jail ''web'' True [] [])\<lparr>epair := [''epair0a'']\<rparr>\<rparr>"
  have "\<forall>t args. raises (kern ?w t (ProcC (Spawn args))) = Some (OSError 2)" by simp
  moreover have "jname (self ?w) \<noteq> []" by (simp add: new_jail_def)
  moreover have "fst (deattach_epair ?w) = Inr ()" by code_simp
  ultimately have "fst (destroy_jail ?w) = Inr () \<and> list_all (\<lambda>c. \<not> is_cleanup c) (calls destroy_jail ?w)"
    by (rule destroy_jail_cut_short)
  then show ?thesis by (intro exI [of _ ?w]) simp
qed

definition no_exec :: "syscall \<Rightarrow> bool" where
  "no_exec c = (\<forall>f args env. c \<noteq> ProcC (Execvpe f args env))"

lemma no_exec_simps [simp]:
  "no_exec (JailC j)" "no_exec (FsC g)" "no_exec (NetC n)"
  "no_exec (ProcC (Dup2 s k))" "no_exec (ProcC Getpid)"
  by (simp_all add: no_exec_def)

lemma no_exec_start:
  "emits no_exec redirect_io" "emits no_exec write_pid" "emits no_exec jail_attach_self"
  unfolding redirect_io_def write_pid_def jail_attach_self_def jail_attach_def get_jail_id_by_name_def
    jail_attach_wrapper_def Let_def
  by (intro emits_rules; simp)+

lemma appends_try_route [emits_rules]: "appends m \<Longrightarrow> appends (try_route m)"
  unfolding try_route_def by (intro emits_rules)

lemma appends_setup_networks [emits_rules]: "appends (setup_networks es i ns)"
proof (induction es i ns rule: setup_networks.induct)
  case (2 es i n ns)
  then show ?case
    unfolding setup_networks.simps setup_bridge_def by (intro emits_rules)
qed (simp only: setup_networks.simps emits_ret)

lemma appends_setup_jail [emits_rules]: "appends setup_jail"
  unfolding setup_jail_def setup_network_def Let_def by (intro emits_rules)

lemma appends_run [emits_rules]: "appends switch_user" "appends exec_container"
  unfolding switch_user_def exec_container_def Let_def by (intro emits_rules)+

lemma jail_attach_zero:
  assumes "jail_attach name w = (Inr 0, w')"
  shows "\<exists>pre i. calls (jail_attach name) w = pre @ [JailC (Jail_attach i)] \<and>
    rv (kern w (trace w @ pre) (JailC (Jail_attach i))) = 0"
proof -
  let ?g = "JailC (Jail_get (str_iovec ''name'' name) 0)"
  have "calls (jail_attach name) w = [?g] @ [JailC (Jail_attach (rv (kern w (trace w) ?g)))] \<and>
      rv (kern w (trace w @ [?g]) (JailC (Jail_attach (rv (kern w (trace w) ?g))))) = 0"
    using assms by (auto simp: jail_attach_def comp_simps calls_def error_codes split: if_splits)
  then show ?thesis by blast
qed

lemma jail_attach_self_zero:
  assumes "jail_attach_self w = (Inr 0, w')"
  shows "\<exists>pre i. calls jail_attach_self w = pre @ [JailC (Jail_attach i)] \<and>
    rv (kern w (trace w @ pre) (JailC (Jail_attach i))) = 0"
proof -
  have "jail_attach_self w = jail_attach (jname (self w)) w"
    using assms by (auto simp: jail_attach_self_def comp_simps split: if_splits)
  with assms jail_attach_zero [of "jname (self w)" w w'] show ?thesis by (simp add: calls_def)
qed

lemma appends_jail_run [emits_rules]: "appends (jail_run res)"
  unfolding jail_run_def by (intro emits_rules)

lemma jail_run_refused: "res \<noteq> 0 \<Longrightarrow> calls (jail_run res) v = []"
  by (simp add: jail_run_def calls_def)

text \<open>A child that prepares itself, enters the jail and runs on with the result: if it goes on only
  after 0, whatever it executes comes after the jail was entered.\<close>

lemma exec_after_attach:
  fixes w :: "'x world_scheme"
  assumes parts: "emits no_exec start" "emits no_exec pid" "emits no_exec attach" "\<And>res. appends (run res)"
    and attached: "\<And>v v'. attach v = (Inr 0, v') \<Longrightarrow> \<exists>pre i. calls attach v = pre @ [JailC (Jail_attach i)] \<and>
      rv (kern v (trace v @ pre) (JailC (Jail_attach i))) = 0"
    and refused: "\<And>res v. res \<noteq> (0 :: int) \<Longrightarrow> calls (run res) v = []"
    and x: "x \<in> set (calls (seqM start (seqM pid (bindM attach run))) w)" "\<not> no_exec x"
  shows "\<exists>pre i post. calls (seqM start (seqM pid (bindM attach run))) w = pre @ JailC (Jail_attach i) # post \<and>
    rv (kern w (trace w @ pre) (JailC (Jail_attach i))) = 0 \<and> x \<in> set post"
proof -
  have appends: "appends (bindM attach run)" "appends (seqM pid (bindM attach run))"
    using parts by (auto intro!: emits_bindM emits_seqM intro: emits_weaken)
  from call_from_seqM [OF parts(1) appends(2) x]
  obtain w1 :: "'x world_scheme" where w1: "x \<in> set (calls (seqM pid (bindM attach run)) w1)"
    "calls (seqM start (seqM pid (bindM attach run))) w = calls start w @ calls (seqM pid (bindM attach run)) w1"
    "trace w1 = trace w @ calls start w" "kern w1 = kern w"
    by metis
  from call_from_seqM [OF parts(2) appends(1) w1(1) x(2)]
  obtain w2 :: "'x world_scheme" where w2: "x \<in> set (calls (bindM attach run) w2)"
    "calls (seqM pid (bindM attach run)) w1 = calls pid w1 @ calls (bindM attach run) w2"
    "trace w2 = trace w1 @ calls pid w1" "kern w2 = kern w1"
    by metis
  from call_from_second [OF parts(3,4) w2(1) x(2)]
  obtain res w3 where w3: "attach w2 = (Inr res, w3)" "x \<in> set (calls (run res) w3)"
    "calls (bindM attach run) w2 = calls attach w2 @ calls (run res) w3"
    by blast
  have "res = 0" using w3(2) refused [of res w3] by (cases "res = 0") simp_all
  with w3(1) attached [of w2 w3] obtain pre i where
    at: "calls attach w2 = pre @ [JailC (Jail_attach i)]" "rv (kern w2 (trace w2 @ pre) (JailC (Jail_attach i))) = 0"
    by blast
  show ?thesis
    using w1 w2 w3 at
    by (intro exI [of _ "calls start w @ calls pid w1 @ pre"] exI [of _ i] exI [of _ "calls (run res) w3"]) simp
qed

text \<open>
  C7.  Confinement: the container's program is only ever executed by a process that has entered the
  jail: every \<open>exec\<close> comes after a \<open>jail_attach\<close> that returned 0.
\<close>

theorem exec_only_in_jail:
  assumes "ProcC (Execvpe f args env) \<in> set (calls jail_child w)"
  shows "\<exists>pre i post. calls jail_child w = pre @ JailC (Jail_attach i) # post \<and>
    rv (kern w (trace w @ pre) (JailC (Jail_attach i))) = 0 \<and> ProcC (Execvpe f args env) \<in> set post"
  using exec_after_attach [OF no_exec_start appends_jail_run jail_attach_self_zero jail_run_refused,
      where w = w and x = "ProcC (Execvpe f args env)"] assms unfolding jail_child_def by (simp add: no_exec_def)

theorem exec_only_in_jail_witness:
  "\<exists>w :: unit jworld_scheme. \<exists>pre i post. calls jail_child w = pre @ JailC (Jail_attach i) # post \<and>
     rv (kern w (trace w @ pre) (JailC (Jail_attach i))) = 0 \<and>
     ProcC (Execvpe ''/bin/sh'' [JStr ''/bin/sh'', JStr ''-c'', JStr ''id''] (JObj [])) \<in> set post"
proof -
  let ?w = "\<lparr>kern = \<lambda>_ _. ok_ret, trace = [], self = new_jail ''web'' True []
     [(''path'', JStr ''/jails/containers/ab''), (''entrypoint'', JStr ''/bin/sh''),
      (''command'', JList [JStr ''-c'', JStr ''id''])]\<rparr>"
  let ?x = "ProcC (Execvpe ''/bin/sh'' [JStr ''/bin/sh'', JStr ''-c'', JStr ''id''] (JObj []))"
  have "list_ex (\<lambda>c. c = ?x) (calls jail_child ?w)" by code_simp
  then have "?x \<in> set (calls jail_child ?w)" by (simp add: list_ex_iff)
  from exec_only_in_jail [OF this] show ?thesis by blast
qed

text \<open>
  The first process of a container never returns into the worker's code: it ends by the
  program taking its place or by an exception or exit.
\<close>

theorem jail_child_never_returns:
  "\<exists>e. fst (jail_child w) = Inl e"
proof -
  have exec: "exec_container v = (Inr u, v') \<Longrightarrow> False" for u and v v' :: "'a jworld_scheme"
    by (auto simp: exec_container_def comp_simps split: prod.splits sum.splits option.splits)
  have run: "jail_run res v = (Inr u, v') \<Longrightarrow> False" for res u and v v' :: "'a jworld_scheme"
    by (auto simp: jail_run_def comp_simps dest: exec split: prod.splits sum.splits if_splits)
  have raised: "\<exists>e. fst (jail_run res v) = Inl e" for res and v :: "'a jworld_scheme"
    by (cases "jail_run res v"; cases "fst (jail_run res v)") (auto dest: run)
  show ?thesis
    using raised by (auto simp: jail_child_def comp_simps split: prod.splits sum.splits)
qed

text \<open>A rule that is added is one for the subject \<open>name:\<close>.\<close>

fun rule_named :: "syscall \<Rightarrow> bool" where
  "rule_named (JailC (Rctl fn rule n)) = (fn = ''rctl_add_rule'' \<longrightarrow> startswith rule ''name:'')"
| "rule_named c = True"

lemma rule_named_others [simp]:
  "rule_named (NetC n)" "rule_named (FsC g)" "rule_named (ProcC q)"
  "rule_named (JailC (Jail_set is fl))" "rule_named (JailC (Jail_get is fl))"
  "rule_named (JailC (Nmount is fl))" "rule_named (JailC (Inet_aton s))"
  by simp_all

lemma rule_named_limits: "emits rule_named apply_limits"
proof -
  have "emits rule_named (forM rules (\<lambda>rule.
      tryM is_Exception (seqM (rctl_add_rule rule 1024) (ret ())) (\<lambda>e. ret ())))"
    if "convert_to_rctl_rules limits (''name:'' @ n) = Inr rules" for limits n rules
  proof (rule emits_forM_set)
    fix rule assume "rule \<in> set rules"
    from convert_to_rctl_rules_subject [OF that this] have "startswith rule ''name:''"
      by (auto simp: startswith_def)
    then show "emits rule_named (tryM is_Exception (seqM (rctl_add_rule rule 1024) (ret ())) (\<lambda>e. ret ()))"
      unfolding rctl_add_rule_def rctl_call_def by (intro emits_rules) simp
  qed
  then show ?thesis
    unfolding apply_limits_def
    by (intro emits_bindM emits_the_self emits_case_option emits_ret emits_bind_liftR)
qed

lemma rule_named_convert: "emits rule_named (convert_addrs ips)"
proof (induction ips)
  case (Cons ip ips)
  then show ?case unfolding convert_addrs.simps by (intro emits_rules) simp_all
qed (simp only: convert_addrs.simps emits_ret)

lemma rule_named_entries: "emits rule_named (entries_iovec d)"
proof (induction d rule: entries_iovec.induct)
  case (2 key val rest)
  then show ?case
    unfolding entries_iovec.simps address_iovec_def addr_iovec_def
    by (intro emits_bindM emits_ret rule_named_convert emits_if emits_case_json)
qed (simp only: entries_iovec.simps emits_ret)

lemma rule_named_create: "emits rule_named create_jail"
proof -
  have mounts: "emits rule_named handle_fs_mounts" "emits rule_named handle_mounts"
    unfolding jail_defs call_defs by (intro emits_rules; simp)+
  have ep: "emits rule_named (create_epair_up n)" "emits rule_named attach_inteface_up" for n
    unfolding create_epair_up_def jail_defs call_defs by (intro emits_rules; simp)+
  have start: "emits rule_named (start_jail_from_json d)" for d
    unfolding start_jail_from_json_def json_to_iovec_def jail_set_wrapper_def
    by (intro emits_bindM emits_ret emits_libc rule_named_entries) simp
  show ?thesis
    unfolding create_jail_def setup_epairs_def create_epairs_def
    by (intro emits_rules start ep mounts rule_named_limits)
qed

text \<open>
  Limits are set for the subject \<open>name:<jail>\<close> and removed for \<open>jail:<jail>\<close>: no rule that a
  jail's creation adds matches the filter by which its destruction removes them.
\<close>

theorem limits_never_removed:
  assumes "JailC (Rctl ''rctl_add_rule'' rule n) \<in> set (calls create_jail w)"
  shows "\<not> startswith rule (''jail:'' @ name)"
proof -
  have "startswith rule ''name:''"
    using emits_calls [OF rule_named_create assms] by simp
  then obtain rest where "rule = CHR ''n'' # rest" by (cases rule) (auto simp: startswith_def)
  then show ?thesis by (simp add: startswith_def)
qed

theorem limits_never_removed_witness:
  "\<exists>w :: unit jworld_scheme. \<not> startswith ''name:web:maxproc:deny=10'' (''jail:'' @ jname (self w)) \<and>
     JailC (Rctl ''rctl_add_rule'' ''name:web:maxproc:deny=10'' 1024) \<in> set (calls create_jail w)"
proof -
  let ?limit = "JObj [(''RESOURCE'', JStr ''PROCESS_COUNT''), (''MAX'', JInt 10), (''ACTION'', JStr ''BLOCK'')]"
  let ?w = "\<lparr>kern = \<lambda>_ _. ok_ret, trace = [], self = new_jail ''web'' True [] [(''R_LIMITS'', JList [?limit])]\<rparr>"
  let ?c = "JailC (Rctl ''rctl_add_rule'' ''name:web:maxproc:deny=10'' 1024)"
  have "list_ex (\<lambda>c. c = ?c) (calls create_jail ?w)" by code_simp
  then have c: "?c \<in> set (calls create_jail ?w)" by (simp add: list_ex_iff)
  from limits_never_removed [OF c, of "jname (self ?w)"] c show ?thesis by blast
qed

end
