(* ===== verification/Worker.thy ===== *)
theory Worker
  imports Jail
begin

text \<open>
  \<open>kqueue_parent.py\<close>: the worker process.  It reads the names of containers to start, one per line,
  from its socket, makes a jail for each, forks the first process into it, and destroys the jail when
  that process exits.  \<open>JAIL_DICT\<close> is the table of jails by process; the jail a method runs on is
  the field \<open>self\<close>.  Signal dispositions are not modelled.  The answer to \<open>Kevent\<close> is one event:
  \<open>rflag0\<close> tells a process event from a readable socket, \<open>rflag1\<close> an exit among them, and \<open>rv\<close> is
  the process.
\<close>

section \<open>State\<close>

record wworld = jworld +
  JAIL_DICT :: "(int \<times> jail) list"

definition put_jail :: "int \<Rightarrow> jail \<Rightarrow> ('x wworld_scheme, unit) comp" where
  "put_jail pid j = modify (\<lambda>w. w\<lparr>JAIL_DICT := AList.update pid j (JAIL_DICT w)\<rparr>)"

definition pop_jail :: "int \<Rightarrow> ('x wworld_scheme, unit) comp" where
  "pop_jail pid = bindM (gets JAIL_DICT) (\<lambda>d.
     if map_of d pid = None then raise KeyError
     else modify (\<lambda>w. w\<lparr>JAIL_DICT := AList.delete pid (JAIL_DICT w)\<rparr>))"

section \<open>Requests to the server\<close>

definition api :: "string \<Rightarrow> string" where
  "api s = ''http://localhost:5000'' @ s"

definition post :: "string \<Rightarrow> json dict \<Rightarrow> ('x world_scheme, int) comp" where
  "post path data = bindM (pycall (HttpPost (api path) (JObj data))) (\<lambda>r. ret (rv r))"

text \<open>\<open>ports[i]['rdr'] = [ip]\<close> for every port.\<close>

fun set_rdr :: "json \<Rightarrow> json \<Rightarrow> json res" where
  "set_rdr ip (JObj d) = Inr (JObj (AList.update ''rdr'' (JList [ip]) d))"
| "set_rdr ip _ = Inl TypeError"

fun ports_with_rdr :: "json \<Rightarrow> json \<Rightarrow> json list res" where
  "ports_with_rdr ip (JList ps) = mapR (set_rdr ip) ps"
| "ports_with_rdr ip (JObj d) = (if d = [] then Inr [] else Inl KeyError)"
| "ports_with_rdr ip (JStr s) = (if s = [] then Inr [] else Inl TypeError)"
| "ports_with_rdr ip _ = Inl TypeError"

definition register_ports :: "json \<Rightarrow> json \<Rightarrow> ('x world_scheme, unit) comp" where
  "register_ports network ports =
     bindM (liftR (jindex network ''name'')) (\<lambda>name.
     bindM (liftR (jindex network ''ip'')) (\<lambda>ip.
     bindM (liftR (ports_with_rdr ip ports)) (\<lambda>ps.
     tryM is_Exception
       (bindM (post ''/api/ports'' [(''network'', name), (''ports'', JList ps)]) (\<lambda>_. ret ()))
       (\<lambda>e. ret ()))))"

definition notity_status :: "string \<Rightarrow> int \<Rightarrow> string \<Rightarrow> ('x world_scheme, int) comp" where
  "notity_status name exit_code msg =
     post (''/api/container/'' @ name @ ''/exit_code'')
       [(''name'', JStr name), (''exit_code'', JInt exit_code), (''message'', JStr msg)]"

definition register_subnet :: "string \<Rightarrow> string \<Rightarrow> ('x world_scheme, int) comp" where
  "register_subnet network subnet = post ''/subnet'' [(''network'', JStr network), (''subnet'', JStr subnet)]"

definition register_dns_entry :: "string \<Rightarrow> string \<Rightarrow> string \<Rightarrow> ('x world_scheme, int) comp" where
  "register_dns_entry network domain ip =
     post ''/dns'' [(''network'', JStr network), (''domain'', JStr domain), (''ip'', JStr ip)]"

text \<open>One network: its subnet, then the name of the container with its address.\<close>

definition register_network :: "string \<Rightarrow> json \<Rightarrow> ('x world_scheme, unit) comp" where
  "register_network name network =
     bindM (liftR (jget network ''ip'' JNull)) (\<lambda>ip.
     bindM (liftR (jget network ''prefix'' JNull)) (\<lambda>plen.
     bindM (liftR (bindR (as_str TypeError ip) (\<lambda>s. ip_interface (s @ ''/'' @ py_str plen)))) (\<lambda>(a, m).
     bindM (liftR (jget network ''subnet'' JNull)) (\<lambda>subnet.
     bindM (liftR (jget network ''name'' JNull)) (\<lambda>n.
     bindM (liftR (as_str TypeError (py_or n (JStr ''default'')))) (\<lambda>net_if.
     bindM (register_subnet net_if (py_str subnet @ ''/'' @ py_str plen)) (\<lambda>res.
     if res \<noteq> 201 then raise (GenericException ''Failed to register subnet'')
     else bindM (register_dns_entry net_if name (ip_str a)) (\<lambda>res.
       if res \<noteq> 201 then raise (GenericException ''Failed to register ip'') else ret ()))))))))"

definition register_jail_network :: "string \<Rightarrow> json \<Rightarrow> ('x world_scheme, unit) comp" where
  "register_jail_network name networks =
     (if \<not> truthy networks then ret ()
      else bindM (liftR (bindR (json_head networks) (\<lambda>n. jindex n ''driver''))) (\<lambda>driver.
        if driver = JStr ''host'' then ret ()
        else bindM (liftR (json_iter networks)) (\<lambda>ns. forM ns (register_network name))))"

section \<open>The parameters of a jail\<close>

definition is_host_network :: "json dict \<Rightarrow> bool res" where
  "is_host_network data =
     (case map_of data ''networks'' of
        None \<Rightarrow> Inr False
      | Some ns \<Rightarrow> if \<not> truthy ns then Inr False
                  else bindR (json_head ns) (\<lambda>n. bindR (jindex n ''driver'') (\<lambda>d. Inr (d = JStr ''host''))))"

text \<open>The container's data with its file systems, and the parameters of its jail.\<close>

definition transform_json :: "json \<Rightarrow> (json dict \<times> json dict) res" where
  "transform_json j =
     (case j of JObj d \<Rightarrow>
       let data = AList.update ''fs_mounts'' (JList [JStr ''devfs'', JStr ''tmpfs'']) d in
       bindR (jindex (JObj data) ''name'') (\<lambda>name.
       bindR (as_str TypeError name) (\<lambda>n.
       bindR (bindR (jindex (JObj data) ''path'') (as_str TypeError)) (\<lambda>path.
       bindR (is_host_network data) (\<lambda>host.
       Inr (data,
         [(''name'', name), (''host.hostname'', JStr (n @ ''.jail'')), (''path'', JStr (path_join path ''root'')),
          (''devfs_ruleset'', JInt 4), (''securelevel'', JInt 2)] @
         (if host then [(''ip4'', JInt 2)] else [(''vnet'', JBool True)]) @
         [(''sysvshm'', JInt 1), (''sysvmsg'', JInt 1), (''sysvsem'', JInt 1), (''persist'', JBool True)])))))
     | _ \<Rightarrow> Inl TypeError)"

section \<open>Starting a container\<close>

text \<open>\<open>redirect_io\<close>, which the child no longer calls.\<close>

definition worker_redirect_io :: "string \<Rightarrow> string option \<Rightarrow> string \<Rightarrow> ('x world_scheme, unit) comp" where
  "worker_redirect_io stdout_path stderr_path stdin_path =
     seqM (do_call (FsC (OpenFile stdout_path)))
     (seqM (do_call (FsC (OpenFile stdin_path)))
     (seqM (do_call (ProcC (Dup2 stdin_path 0)))
     (seqM (do_call (ProcC (Dup2 stdout_path 1)))
     (seqM (do_call (ProcC (Dup2 stdout_path 2)))
     (seqM (do_call (FsC (CloseFd stdin_path))) (do_call (FsC (CloseFd stdout_path))))))))"

text \<open>A descriptor is closed again when it is not one of the standard three.\<close>

definition redirect_standard_fds :: "string \<Rightarrow> ('x world_scheme, unit) comp" where
  "redirect_standard_fds logfile_path =
     bindM (pycall (FsC (OpenFile ''/dev/null''))) (\<lambda>devnull_fd.
     seqM (do_call (ProcC (Dup2 ''/dev/null'' 0)))
     (seqM (whenM (2 < rv devnull_fd) (do_call (FsC (CloseFd ''/dev/null''))))
     (bindM (pycall (FsC (OpenFile logfile_path))) (\<lambda>log_fd.
      seqM (do_call (ProcC (Dup2 logfile_path 1)))
      (seqM (do_call (ProcC (Dup2 logfile_path 2)))
      (whenM (2 < rv log_fd) (do_call (FsC (CloseFd logfile_path)))))))))"

text \<open>The child: any exception makes it exit with 1.\<close>

definition container_child :: "('x jworld_scheme, unit) comp" where
  "container_child =
     tryM is_Exception
       (seqM (do_call (ProcC Setsid)) (seqM (redirect_standard_fds ''parent.log'') jail_child))
       (\<lambda>e. raise (SystemExit 1))"

definition register_all :: "string \<Rightarrow> json dict \<Rightarrow> ('x world_scheme, unit) comp" where
  "register_all name data =
     bindM (liftR (jindex (JObj data) ''networks'')) (\<lambda>networks.
     whenM (truthy networks)
       (seqM (register_jail_network name networks)
         (let ports = dget data ''ports'' JNull in
          whenM (truthy ports)
            (bindM (liftR (json_iter networks)) (\<lambda>ns. forM ns (\<lambda>n. register_ports n ports))))))"

text \<open>\<open>RFPROC | RFCFDG\<close>.\<close>

definition rfork_flags :: int where
  "rfork_flags = rflag ''RFPROC'' OR rflag ''RFCFDG''"

text \<open>What happens until the fork; a result is the number to return early.\<close>

definition prepare_container :: "string \<Rightarrow> json dict \<Rightarrow> ('x jworld_scheme, int option) comp" where
  "prepare_container name data =
     tryM is_Exception
       (seqM create_jail
       (bindM the_self (\<lambda>j.
        if (case jid j of Some i \<Rightarrow> i < 0 | None \<Rightarrow> False) then
          bindM (notity_status name 100 ''Failed to Create JAIL'') (\<lambda>_. ret (Some (- 1)))
        else seqM (register_all name data) (ret None))))
       (\<lambda>e. seqM destroy_jail
             (bindM (notity_status name 100 ''Failed to CREATE EPAIR'') (\<lambda>_. ret (Some (- 1)))))"

definition worker_start_container ::
  "string \<Rightarrow> json dict \<times> json dict \<Rightarrow> ('x wworld_scheme, int) comp" where
  "worker_start_container name jail_json =
     seqM (set_self (\<lambda>_. new_jail name True (snd jail_json) (fst jail_json)))
     (bindM (prepare_container name (fst jail_json)) (\<lambda>early.
      case early of
        Some n \<Rightarrow> ret n
      | None \<Rightarrow>
          bindM (rfork_wrapper rfork_flags) (\<lambda>pid.
          seqM (whenM (pid = 0) container_child)
          (bindM the_self (\<lambda>j. seqM (put_jail pid j) (ret pid))))))"

definition process_container :: "string \<Rightarrow> ('x wworld_scheme, int) comp" where
  "process_container name =
     bindM (pycall (HttpGet (api (''/api/container/'' @ name)))) (\<lambda>res.
     if rv res \<noteq> 200 then ret (- 1)
     else bindM (liftR (transform_json (rjson res))) (\<lambda>data. worker_start_container name data))"

definition track_process :: "int \<Rightarrow> ('x world_scheme, unit) comp" where
  "track_process process_pid = tryM is_Exception (do_call (KeventAdd process_pid)) (\<lambda>e. ret ())"

section \<open>When a process exits\<close>

text \<open>\<open>os.WEXITSTATUS(status)\<close>.\<close>

definition exit_status :: "int \<Rightarrow> int" where
  "exit_status status = (status div 256) mod 256"

text \<open>A method of the object that the table holds: what it changes stays in the table.\<close>

definition destroy_tracked :: "int \<Rightarrow> jail \<Rightarrow> ('x wworld_scheme, unit) comp" where
  "destroy_tracked pid j =
     seqM (set_self (\<lambda>_. j)) (seqM destroy_jail (bindM the_self (\<lambda>j'. put_jail pid j')))"

definition worker_remove_container :: "int \<Rightarrow> bool \<Rightarrow> ('x wworld_scheme, unit) comp" where
  "worker_remove_container process_pid notify =
     tryM is_Exception
       (bindM (gets JAIL_DICT) (\<lambda>d.
        case map_of d process_pid of
          None \<Rightarrow> ret ()
        | Some j \<Rightarrow>
            bindM (pycall (ProcC (Waitpid process_pid))) (\<lambda>r.
            seqM (destroy_tracked process_pid j)
            (seqM (pop_jail process_pid)
            (whenM notify
              (bindM (libc Now) (\<lambda>now.
               bindM (notity_status (jname j) (exit_status (rv r)) (''Exited on: '' @ rtext now)) (\<lambda>_. ret ()))))))))
       (\<lambda>e. ret ())"

section \<open>Shutting down\<close>

definition is_exit :: "sysret \<Rightarrow> bool" where
  "is_exit ev = (rflag0 ev \<noteq> 0 \<and> rflag1 ev \<noteq> 0)"

definition kill_all :: "('x wworld_scheme, unit) comp" where
  "kill_all = bindM (gets JAIL_DICT) (\<lambda>d.
     forM (map fst d) (\<lambda>pid. tryM (\<lambda>e. e = OSError 3) (do_call (ProcC (Kill pid))) (\<lambda>e. ret ())))"

text \<open>At most \<open>n\<close> events; the result tells whether the table became empty.\<close>

fun reap_all :: "nat \<Rightarrow> ('x wworld_scheme, bool) comp" where
  "reap_all n = bindM (gets JAIL_DICT) (\<lambda>d.
     if d = [] then ret True
     else case n of
       0 \<Rightarrow> ret False
     | Suc m \<Rightarrow> bindM (pycall Kevent) (\<lambda>ev.
         seqM (whenM (is_exit ev) (worker_remove_container (rv ev) False)) (reap_all m)))"

definition clean_all_jails :: "nat \<Rightarrow> ('x wworld_scheme, bool) comp" where
  "clean_all_jails n = seqM kill_all (reap_all n)"

section \<open>The event loop\<close>

definition handle_line :: "string \<Rightarrow> ('x wworld_scheme, unit) comp" where
  "handle_line line =
     bindM (process_container (strip line)) (\<lambda>cont_pid.
     whenM (cont_pid \<noteq> 0 \<and> cont_pid \<noteq> - 1) (track_process cont_pid))"

definition newline :: char where
  "newline = CHR 0x0A"

text \<open>\<open>line, buffer = buffer.split(b'\n', 1)\<close> while there is a newline.\<close>

function process_buffer :: "string \<Rightarrow> ('x wworld_scheme, string) comp" where
  "process_buffer buffer =
     (if newline \<in> set buffer
      then seqM (handle_line (takeWhile (\<lambda>c. c \<noteq> newline) buffer))
             (process_buffer (tl (dropWhile (\<lambda>c. c \<noteq> newline) buffer)))
      else ret buffer)"
  by pat_completeness auto
termination
proof (relation "measure length")
  fix buffer assume "newline \<in> set buffer"
  then have "dropWhile (\<lambda>c. c \<noteq> newline) buffer \<noteq> []" by (auto simp: dropWhile_eq_Nil_conv)
  then show "(tl (dropWhile (\<lambda>c. c \<noteq> newline) buffer), buffer) \<in> measure length"
    using length_dropWhile_le [of "\<lambda>c. c \<noteq> newline" buffer] by (cases "dropWhile (\<lambda>c. c \<noteq> newline) buffer") auto
qed simp

declare process_buffer.simps [simp del]

text \<open>One event: Some the new buffer to go on with, None when the server has closed the socket.  \<open>Recv\<close>
  answers the data received, none at the end.\<close>

definition on_event :: "nat \<Rightarrow> string \<Rightarrow> sysret \<Rightarrow> ('x wworld_scheme, string option) comp" where
  "on_event fuel buffer ev =
     (if is_exit ev then seqM (worker_remove_container (rv ev) True) (ret (Some buffer))
      else bindM (pycall Recv) (\<lambda>r.
        if rtext r = [] then bindM (clean_all_jails fuel) (\<lambda>_. ret None)
        else bindM (process_buffer (buffer @ rtext r)) (\<lambda>b. ret (Some b))))"

text \<open>The loop for at most \<open>n\<close> events; the socket is closed in any case.\<close>

fun event_loop :: "nat \<Rightarrow> nat \<Rightarrow> string \<Rightarrow> ('x wworld_scheme, bool) comp" where
  "event_loop fuel 0 buffer = ret False"
| "event_loop fuel (Suc n) buffer =
     bindM (pycall Kevent) (\<lambda>ev.
     bindM (on_event fuel buffer ev) (\<lambda>next.
     case next of None \<Rightarrow> ret True | Some b \<Rightarrow> event_loop fuel n b))"

definition worker_run :: "nat \<Rightarrow> nat \<Rightarrow> ('x wworld_scheme, bool) comp" where
  "worker_run fuel n =
     seqM (do_call (KeventAdd (- 1)))
       (finallyM (event_loop fuel n []) (do_call (NetC CloseSocket)))"

section \<open>Lines\<close>

lemma cut_line:
  "newline \<notin> set l \<Longrightarrow> takeWhile (\<lambda>c. c \<noteq> newline) (l @ newline # r) = l"
  "newline \<notin> set l \<Longrightarrow> dropWhile (\<lambda>c. c \<noteq> newline) (l @ newline # r) = newline # r"
  by (induction l) auto

lemma process_buffer_line:
  "newline \<notin> set l \<Longrightarrow> process_buffer (l @ newline # rest) = seqM (handle_line l) (process_buffer rest)"
  by (subst process_buffer.simps) (simp add: cut_line)

lemma process_buffer_rest: "newline \<notin> set b \<Longrightarrow> process_buffer b = ret b"
  by (subst process_buffer.simps) simp

text \<open>What comes later is handled later: a buffer may be cut anywhere.\<close>

lemma process_buffer_append: "process_buffer (x @ y) = bindM (process_buffer x) (\<lambda>r. process_buffer (r @ y))"
proof (induction x rule: process_buffer.induct)
  case (1 x)
  show ?case
  proof (cases "newline \<in> set x")
    case True
    then obtain l rest where x: "x = l @ newline # rest" "newline \<notin> set l" by (meson split_list_first)
    note IH = 1 [OF True, unfolded x(1) cut_line(2) [OF x(2)] list.sel]
    show ?thesis by (simp add: x process_buffer_line seqM_assoc IH)
  qed (simp add: process_buffer_rest)
qed

text \<open>The pieces of data received one after another.\<close>

fun feed :: "string \<Rightarrow> string list \<Rightarrow> ('x wworld_scheme, string) comp" where
  "feed buffer [] = ret buffer"
| "feed buffer (c # cs) = bindM (process_buffer (buffer @ c)) (\<lambda>b. feed b cs)"

lemma feed_process: "bindM (process_buffer b) (\<lambda>b. feed b cs) = process_buffer (b @ concat cs)"
proof (induction cs arbitrary: b)
  case (Cons c cs)
  show ?case by (simp add: Cons.IH flip: process_buffer_append)
qed (simp add: bindM_ret_right)

lemma feed_concat: "newline \<notin> set b \<Longrightarrow> feed b cs = process_buffer (b @ concat cs)"
  by (metis bindM_ret process_buffer_rest feed_process)

lemma process_lines:
  "newline \<notin> set rest \<Longrightarrow> \<forall>l \<in> set ls. newline \<notin> set l \<Longrightarrow>
   process_buffer (concat (map (\<lambda>l. l @ [newline]) ls) @ rest) = seqM (forM ls handle_line) (ret rest)"
  by (induction ls) (simp_all add: process_buffer_line process_buffer_rest seqM_assoc)

section \<open>Properties\<close>

text \<open>
  Framing: however the stream is cut into pieces, the worker handles exactly the lines sent,
  in order, with the same effects, and keeps what follows the last newline.
\<close>

theorem worker_framing:
  assumes "concat chunks = concat (map (\<lambda>l. l @ [newline]) lines) @ rest"
    and "\<forall>l \<in> set lines. newline \<notin> set l" and "newline \<notin> set rest"
  shows "feed [] chunks = seqM (forM lines handle_line) (ret rest)"
  using assms by (simp add: feed_concat process_lines)

theorem worker_framing_witness:
  "feed [] [''we'', ''b'' @ [newline] @ ''d'', ''b''] = seqM (forM [''web''] handle_line) (ret ''db'')"
  by (rule worker_framing) (simp_all add: newline_def)

section \<open>Destroying jails always works\<close>

lemma Exception_errors:
  "json_iter x = Inl e \<Longrightarrow> is_Exception e" "jindex x k = Inl e \<Longrightarrow> is_Exception e"
  "c_chars n s = Inl e \<Longrightarrow> is_Exception e" "mount_dest x y = Inl e \<Longrightarrow> is_Exception e"
  "as_str TypeError x = Inl e \<Longrightarrow> is_Exception e"
proof -
  show "json_iter x = Inl e \<Longrightarrow> is_Exception e" by (cases x) auto
  have j: "jindex x k = Inl e \<Longrightarrow> is_Exception e" for x k e by (cases x) (auto split: option.splits)
  then show "jindex x k = Inl e \<Longrightarrow> is_Exception e" .
  show "c_chars n s = Inl e \<Longrightarrow> is_Exception e" by (auto simp: c_chars_def split: if_splits)
  have a: "as_str TypeError x = Inl e \<Longrightarrow> is_Exception e" for x e by (cases x) auto
  then show "as_str TypeError x = Inl e \<Longrightarrow> is_Exception e" .
  show "mount_dest x y = Inl e \<Longrightarrow> is_Exception e"
    by (auto simp: mount_dest_def bindR_eq_Inl dest: j a)
qed


lemma quiet_self [simp]: "quiet (w\<lparr>self := j\<rparr>) = quiet w"
  by (simp add: quiet_def del: quietD)

lemma quiet_dict [simp]: "quiet (w\<lparr>JAIL_DICT := d\<rparr>) = quiet w"
  by (simp add: quiet_def del: quietD)

lemmas destroy_parts = jail_defs call_defs set_self_def the_self_def JailDoesNotExist_def CustomException_def
  rctl_remove_rule_def rctl_call_def

lemma safe_parts:
  "safe is_Exception quiet deattach_epair" "safe is_Exception quiet stop_jail"
  "safe is_Exception quiet destroy_epair" "safe is_Exception quiet handle_fs_umounts"
  "safe is_Exception quiet handle_unmount" "safe is_Exception quiet (rctl_remove_rule s n)"
proof -
  note solve = safe_rules quiet_rules
  show "safe is_Exception quiet deattach_epair"
    unfolding destroy_parts by (intro solve) (auto intro: Exception_errors)
  show "safe is_Exception quiet stop_jail"
    unfolding destroy_parts by (intro solve) (auto intro: Exception_errors)
  show "safe is_Exception quiet destroy_epair"
    unfolding destroy_parts by (intro solve) (auto intro: Exception_errors)
  show "safe is_Exception quiet handle_fs_umounts"
    unfolding destroy_parts by (intro solve) (auto intro: Exception_errors)
  show "safe is_Exception quiet handle_unmount"
    unfolding destroy_parts by (intro solve) (auto intro: Exception_errors)
  show "safe is_Exception quiet (rctl_remove_rule s n)"
    unfolding destroy_parts by (intro solve) (auto intro: Exception_errors)
qed

text \<open>Destroying a jail always returns; it makes no event of its own and leaves the table alone.\<close>

lemma safe_destroy_jail: "safe (\<lambda>_. False) quiet destroy_jail"
proof -
  have "safe is_Exception quiet (seqM deattach_epair (seqM stop_jail (seqM destroy_epair (seqM handle_fs_umounts
       (seqM handle_unmount
         (tryM is_Exception (seqM (rctl_remove_rule s 1024) (ret ())) (\<lambda>e. ret ())))))))" for s
    by (intro safe_rules safe_parts safe_weaken [OF safe_parts(6)]) simp_all
  then show ?thesis
    unfolding destroy_jail_def the_self_def
    by (intro safe_bindM safe_gets safe_tryM safe_ret) simp
qed

definition local_call :: "syscall \<Rightarrow> bool" where
  "local_call c \<longleftrightarrow> (case c of HttpGet u \<Rightarrow> False | HttpPost u j \<Rightarrow> False | HttpDelete u \<Rightarrow> False | Kevent \<Rightarrow> False | _ \<Rightarrow> True)"

lemma local_calls [simp]:
  "local_call (JailC a)" "local_call (NetC b)" "local_call (FsC c)" "local_call (ProcC d)" "local_call (ZfsC e)"
  "local_call Now" "\<not> local_call Kevent" "\<not> local_call (HttpGet u)" "\<not> local_call (HttpPost u j)"
  by (simp_all add: local_call_def)

lemma local_destroy: "emits local_call destroy_jail"
  unfolding destroy_parts by (intro emits_rules) simp_all

text \<open>Creating a jail and running its first process make no request either.\<close>

lemma local_convert [emits_rules]: "emits local_call (convert_addrs ips)"
proof (induction ips)
  case (Cons ip ips)
  then show ?case unfolding convert_addrs.simps by (intro emits_rules; simp)
qed (simp only: convert_addrs.simps emits_ret)

lemma local_entries [emits_rules]: "emits local_call (entries_iovec d)"
proof (induction d rule: entries_iovec.induct)
  case (2 key val rest)
  then show ?case
    unfolding entries_iovec.simps address_iovec_def addr_iovec_def by (intro emits_rules) simp_all
qed (simp only: entries_iovec.simps emits_ret)

lemma local_epairs [emits_rules]: "emits local_call (create_epairs ns)"
  unfolding create_epairs_def create_epair_up_def create_epair_def destroy_parts
  by (intro emits_rules; simp)

lemma local_networks [emits_rules]: "emits local_call (setup_networks es i ns)"
proof (induction es i ns rule: setup_networks.induct)
  case (2 es i n ns)
  then show ?case
    unfolding setup_networks.simps setup_bridge_def try_route_def call_defs by (intro emits_rules; simp)
qed (simp only: setup_networks.simps emits_ret)

lemma local_create [emits_rules]: "emits local_call create_jail"
  unfolding create_jail_def setup_epairs_def rctl_add_rule_def destroy_parts
  by (intro emits_rules; simp)

lemma local_child [emits_rules]: "emits local_call jail_child"
  unfolding jail_child_def redirect_io_def write_pid_def jail_attach_self_def jail_attach_def jail_run_def
    setup_jail_def setup_network_def try_route_def switch_user_def exec_container_def destroy_parts
  by (intro emits_rules; simp)

lemma keeps_table: "keeps (\<lambda>w. JAIL_DICT w = D) destroy_jail"
  unfolding destroy_parts by (intro keeps_rules keeps_calls) simp_all

lemma destroy_jail_quiet:
  assumes "quiet (w :: 'x wworld_scheme)"
  shows "\<exists>w'. destroy_jail w = (Inr (), w') \<and> quiet w' \<and> kern w' = kern w \<and> JAIL_DICT w' = JAIL_DICT w \<and>
    (\<exists>cs. trace w' = trace w @ cs \<and> list_all local_call cs)"
proof -
  obtain u w' where d: "destroy_jail w = (Inr u, w')" "quiet w'"
    using safe_returns [OF safe_destroy_jail assms] by blast
  with keepsD [OF keeps_table, of w "JAIL_DICT w"] emits_at [OF local_destroy d(1)] show ?thesis
    by auto
qed

text \<open>The end of a tracked process.\<close>

definition exit_report :: "jail \<Rightarrow> int \<Rightarrow> string \<Rightarrow> syscall" where
  "exit_report j status msg = HttpPost (api (''/api/container/'' @ jname j @ ''/exit_code''))
     (JObj [(''name'', JStr (jname j)), (''exit_code'', JInt status), (''message'', JStr msg)])"

text \<open>The world in which the jail of a process that has been waited for is destroyed.\<close>

definition reaping :: "int \<Rightarrow> jail \<Rightarrow> 'x wworld_scheme \<Rightarrow> 'x wworld_scheme" where
  "reaping pid j w = w\<lparr>trace := trace w @ [ProcC (Waitpid pid)], self := j\<rparr>"

lemma remove_quiet:
  assumes "quiet (w :: 'x wworld_scheme)" "map_of (JAIL_DICT w) pid = Some j"
  shows "\<exists>w'. worker_remove_container pid notify w = (Inr (), w') \<and> quiet w' \<and> kern w' = kern w \<and>
    JAIL_DICT w' = AList.delete pid (JAIL_DICT w) \<and> list_all local_call (calls destroy_jail (reaping pid j w)) \<and>
    trace w' = trace w @ ProcC (Waitpid pid) # calls destroy_jail (reaping pid j w) @ (if notify
      then [Now, exit_report j (exit_status (rv (kern w (trace w) (ProcC (Waitpid pid)))))
        (''Exited on: '' @ rtext (kern w (trace (reaping pid j w) @ calls destroy_jail (reaping pid j w)) Now))] else [])"
proof -
  have "quiet (reaping pid j w)" using assms(1) by (simp add: reaping_def)
  from destroy_jail_quiet [OF this] obtain w2 cs where w2: "destroy_jail (reaping pid j w) = (Inr (), w2)" "quiet w2"
    "kern w2 = kern w" "JAIL_DICT w2 = JAIL_DICT w" "trace w2 = trace (reaping pid j w) @ cs" "list_all local_call cs"
    by (auto simp: reaping_def)
  then have cs: "calls destroy_jail (reaping pid j w) = cs" by (simp add: calls_def)
  have del: "AList.delete pid (AList.update pid j' d) = AList.delete pid d" for j' and d :: "(int \<times> jail) list"
    by (induction d) auto
  have r: "raises (kern w t c) = None" for t c using w2(2,3) by (metis quietD)
  note run = worker_remove_container_def destroy_tracked_def put_jail_def pop_jail_def notity_status_def
        post_def exit_report_def comp_simps
  show ?thesis
    unfolding cs using assms w2 by (cases notify) (auto simp: run r del reaping_def)
qed

lemma kill_one:
  "quiet (v :: 'x wworld_scheme) \<Longrightarrow>
   tryM (\<lambda>e. e = OSError 3) (do_call (ProcC (Kill p))) (\<lambda>e. ret ()) v = (Inr (), v\<lparr>trace := trace v @ [ProcC (Kill p)]\<rparr>)"
  by (simp add: tryM_apply do_call_apply)

lemma kill_all_quiet:
  assumes "quiet (w :: 'x wworld_scheme)"
  shows "\<exists>cs. kill_all w = (Inr (), w\<lparr>trace := trace w @ cs\<rparr>) \<and> Kevent \<notin> set cs \<and>
    set cs = (\<lambda>pid. ProcC (Kill pid)) ` fst ` set (JAIL_DICT w)"
proof -
  have "\<exists>cs. forM pids (\<lambda>pid. tryM (\<lambda>e. e = OSError 3) (do_call (ProcC (Kill pid))) (\<lambda>e. ret ())) v =
      (Inr (), v\<lparr>trace := trace v @ cs\<rparr>) \<and> set cs = (\<lambda>pid. ProcC (Kill pid)) ` set pids"
    if "quiet v" for pids and v :: "'x wworld_scheme"
    using that
  proof (induction pids arbitrary: v)
    case (Cons p pids)
    from Cons.IH [of "v\<lparr>trace := trace v @ [ProcC (Kill p)]\<rparr>"] Cons.prems obtain cs where
      "forM pids (\<lambda>pid. tryM (\<lambda>e. e = OSError 3) (do_call (ProcC (Kill pid))) (\<lambda>e. ret ())) (v\<lparr>trace := trace v @ [ProcC (Kill p)]\<rparr>) =
        (Inr (), v\<lparr>trace := trace v @ ProcC (Kill p) # cs\<rparr>)" "set cs = (\<lambda>pid. ProcC (Kill pid)) ` set pids"
      by auto
    then show ?case
      using Cons.prems by (intro exI [of _ "ProcC (Kill p) # cs"]) (simp add: seqM_apply kill_one)
  qed (auto intro: exI [of _ "[]"])
  from this [OF assms, of "map fst (JAIL_DICT w)"] show ?thesis
    by (auto simp: kill_all_def bindM_apply)
qed

text \<open>
  C14.  When a tracked process exits, the worker waits for it, destroys the jail that the table has for
  it, forgets it, and tells the server the name of the container and the exit code, the second byte of
  the status; it makes these calls and no others, when no call raises.
\<close>

theorem exit_handled:
  assumes "quiet (w :: 'x wworld_scheme)" and "map_of (JAIL_DICT w) pid = Some j"
  shows "let v = w\<lparr>trace := trace w @ [ProcC (Waitpid pid)], self := j\<rparr>;
      status = rv (kern w (trace w) (ProcC (Waitpid pid)));
      now = rtext (kern w (trace v @ calls destroy_jail v) Now) in
    \<exists>w'. worker_remove_container pid True w = (Inr (), w') \<and>
      JAIL_DICT w' = AList.delete pid (JAIL_DICT w) \<and>
      calls (worker_remove_container pid True) w = ProcC (Waitpid pid) # calls destroy_jail v @
        [Now, HttpPost (api (''/api/container/'' @ jname j @ ''/exit_code''))
          (JObj [(''name'', JStr (jname j)), (''exit_code'', JInt ((status div 256) mod 256)),
            (''message'', JStr (''Exited on: '' @ now))])]"
proof -
  obtain w' where "worker_remove_container pid True w = (Inr (), w')" "JAIL_DICT w' = AList.delete pid (JAIL_DICT w)"
    "trace w' = trace w @ ProcC (Waitpid pid) # calls destroy_jail (reaping pid j w) @
      [Now, exit_report j (exit_status (rv (kern w (trace w) (ProcC (Waitpid pid)))))
        (''Exited on: '' @ rtext (kern w (trace (reaping pid j w) @ calls destroy_jail (reaping pid j w)) Now))]"
    using remove_quiet [OF assms, of True] by auto
  then show ?thesis
    unfolding Let_def reaping_def exit_report_def exit_status_def by (intro exI [of _ w']) (simp add: calls_def)
qed

text \<open>A world in which every program ends with the status 256 and the process 7 has exited, after an event
  of the socket.\<close>

definition tracking :: "string \<Rightarrow> wworld" where
  "tracking name = \<lparr>kern = \<lambda>t c. if c = Kevent
       then (if Kevent \<in> set t then ok_ret\<lparr>rflag0 := 1, rflag1 := 1, rv := 7\<rparr> else ok_ret)
       else ok_ret\<lparr>rv := 256\<rparr>,
     trace = [], self = new_jail name True [] [], JAIL_DICT = [(7, new_jail name True [] [])]\<rparr>"

lemma quiet_tracking: "quiet (tracking name)"
  by (simp add: quiet_def tracking_def ok_ret_def del: quietD)

theorem exit_handled_witness:
  "\<exists>w' cs. worker_remove_container 7 True (tracking ''web'') = (Inr (), w') \<and> JAIL_DICT w' = [] \<and>
     calls (worker_remove_container 7 True) (tracking ''web'') = ProcC (Waitpid 7) # cs @ [Now,
       HttpPost (api ''/api/container/web/exit_code'') (JObj [(''name'', JStr ''web''), (''exit_code'', JInt 1),
         (''message'', JStr ''Exited on: '')])]"
proof -
  have m: "map_of (JAIL_DICT (tracking ''web'')) 7 = Some (new_jail ''web'' True [] [])"
    by (simp add: tracking_def)
  from exit_handled [OF quiet_tracking m] show ?thesis
    by (auto simp: Let_def tracking_def new_jail_def ok_ret_def)
qed

text \<open>In the calls \<open>cs\<close> made from \<open>w\<close> the process is waited for and then its jail destroyed.\<close>

definition reaped :: "'x wworld_scheme \<Rightarrow> int \<Rightarrow> jail \<Rightarrow> syscall list \<Rightarrow> bool" where
  "reaped w pid j cs \<longleftrightarrow> (\<exists>before rest v. cs = before @ ProcC (Waitpid pid) # calls destroy_jail v @ rest \<and>
     self v = j \<and> kern v = kern w \<and> trace (v :: 'x wworld_scheme) = trace w @ before @ [ProcC (Waitpid pid)])"

lemma reaped_before: "reaped w pid j cs \<Longrightarrow> reaped w pid j (cs @ ds)"
  unfolding reaped_def by force

lemma reaped_after:
  assumes "reaped (w1 :: 'x wworld_scheme) pid j cs" "kern w1 = kern w" "trace w1 = trace w @ ds"
  shows "reaped (w :: 'x wworld_scheme) pid j (ds @ cs)"
proof -
  from assms(1) obtain before rest v where "cs = before @ ProcC (Waitpid pid) # calls destroy_jail v @ rest"
    "self v = j" "kern v = kern w1" "trace (v :: 'x wworld_scheme) = trace w1 @ before @ [ProcC (Waitpid pid)]"
    unfolding reaped_def by blast
  with assms(2,3) show ?thesis
    unfolding reaped_def by - (rule exI [of _ "ds @ before"], rule exI [of _ rest], rule exI [of _ v], simp)
qed

lemma keys_delete: "fst ` set (AList.delete k d) = fst ` set d - {k}"
  by (induction d) auto

text \<open>One event of the shutdown: only the exit of a process of the table does anything.\<close>

lemma reap_one:
  assumes "quiet (w :: 'x wworld_scheme)" and ev: "ev = kern w (trace w) Kevent"
  shows "\<exists>w2 ds. whenM (is_exit ev) (worker_remove_container (rv ev) False) (w\<lparr>trace := trace w @ [Kevent]\<rparr>) = (Inr (), w2) \<and>
    quiet w2 \<and> kern w2 = kern w \<and> trace w2 = trace w @ ds \<and> count_list ds Kevent = 1 \<and>
    JAIL_DICT w2 = (if is_exit ev then AList.delete (rv ev) (JAIL_DICT w) else JAIL_DICT w) \<and>
    (\<forall>j. is_exit ev \<and> map_of (JAIL_DICT w) (rv ev) = Some j \<longrightarrow> reaped w (rv ev) j ds)"
proof (cases "is_exit ev \<and> map_of (JAIL_DICT w) (rv ev) \<noteq> None")
  case True
  let ?w1 = "w\<lparr>trace := trace w @ [Kevent]\<rparr>" and ?p = "rv ev"
  from True obtain j where j: "map_of (JAIL_DICT ?w1) ?p = Some j" and x: "is_exit ev" by auto
  have "quiet ?w1" using assms(1) by simp
  let ?cs = "calls destroy_jail (reaping ?p j ?w1)"
  from remove_quiet [OF \<open>quiet ?w1\<close> j, of False] obtain w2 where
    w2: "worker_remove_container ?p False ?w1 = (Inr (), w2)" "quiet w2" "kern w2 = kern w"
      "JAIL_DICT w2 = AList.delete ?p (JAIL_DICT w)" "trace w2 = trace w @ Kevent # ProcC (Waitpid ?p) # ?cs"
      "list_all local_call ?cs"
    by auto
  have "Kevent \<notin> set ?cs" using w2(6) by (auto simp: list_all_iff)
  then have "count_list ?cs Kevent = 0" by (simp add: count_list_0_iff)
  moreover have "reaped w ?p j (Kevent # ProcC (Waitpid ?p) # ?cs)"
    unfolding reaped_def
    by (rule exI [of _ "[Kevent]"], rule exI [of _ "[]"], rule exI [of _ "reaping ?p j ?w1"]) (simp add: reaping_def)
  ultimately show ?thesis
    using w2 x j by (intro exI [of _ w2] exI [of _ "Kevent # ProcC (Waitpid ?p) # ?cs"]) simp
next
  case False
  let ?w1 = "w\<lparr>trace := trace w @ [Kevent]\<rparr>"
  have "whenM (is_exit ev) (worker_remove_container (rv ev) False) ?w1 = (Inr (), ?w1)"
    using False by (cases "is_exit ev") (auto simp: worker_remove_container_def comp_simps)
  moreover have "is_exit ev \<Longrightarrow> AList.delete (rv ev) (JAIL_DICT w) = JAIL_DICT w"
    using False by (auto simp: map_of_eq_None_iff intro!: delete_id)
  ultimately show ?thesis
    using False assms(1) by (intro exI [of _ ?w1] exI [of _ "[Kevent]"]) auto
qed

definition events :: "'x wworld_scheme \<Rightarrow> sysret list \<Rightarrow> bool" where
  "events w evs \<longleftrightarrow> (\<forall>t i. count_list t Kevent = count_list (trace w) Kevent + i \<and> i < length evs \<longrightarrow>
     kern w t Kevent = evs ! i)"

lemma reap_all_empties:
  assumes "quiet (w :: 'x wworld_scheme)" "fst ` set (JAIL_DICT w) \<subseteq> rv ` {ev \<in> set evs. is_exit ev}"
    and "length evs \<le> n" "events w evs"
  shows "\<exists>w' cs. reap_all n w = (Inr True, w') \<and> JAIL_DICT w' = [] \<and> trace w' = trace w @ cs \<and>
    (\<forall>pid j. map_of (JAIL_DICT w) pid = Some j \<longrightarrow> reaped w pid j cs)"
  using assms
proof (induction evs arbitrary: n w)
  case Nil
  then have "JAIL_DICT w = []" by simp
  then show ?case by (cases n) (simp_all add: bindM_apply)
next
  case (Cons ev evs)
  show ?case
  proof (cases "JAIL_DICT w = []")
    case True
    then show ?thesis by (cases n) (simp_all add: bindM_apply)
  next
    case False
    obtain m where n: "n = Suc m" "length evs \<le> m" using Cons.prems(3) by (cases n) auto
    have ev: "ev = kern w (trace w) Kevent"
      using Cons.prems(4) [unfolded events_def, rule_format, of "trace w" 0] by simp
    from reap_one [OF Cons.prems(1) ev] obtain w2 ds where
      w2: "whenM (is_exit ev) (worker_remove_container (rv ev) False) (w\<lparr>trace := trace w @ [Kevent]\<rparr>) = (Inr (), w2)"
        "quiet w2" "kern w2 = kern w" "trace w2 = trace w @ ds" "count_list ds Kevent = 1"
        "JAIL_DICT w2 = (if is_exit ev then AList.delete (rv ev) (JAIL_DICT w) else JAIL_DICT w)"
      and gone: "\<And>j. is_exit ev \<Longrightarrow> map_of (JAIL_DICT w) (rv ev) = Some j \<Longrightarrow> reaped w (rv ev) j ds"
      by blast
    have keys: "fst ` set (JAIL_DICT w2) \<subseteq> rv ` {ev \<in> set evs. is_exit ev}"
      using Cons.prems(2) w2(6) by (auto simp: keys_delete)
    have "events w2 evs"
      unfolding events_def
    proof (intro allI impI)
      fix t i
      assume "count_list t Kevent = count_list (trace w2) Kevent + i \<and> i < length evs"
      then show "kern w2 t Kevent = evs ! i"
        using Cons.prems(4) [unfolded events_def, rule_format, of t "Suc i"] w2(3-5) by simp
    qed
    from Cons.IH [OF w2(2) keys n(2) this] obtain w3 cs where
      w3: "reap_all m w2 = (Inr True, w3)" "JAIL_DICT w3 = []" "trace w3 = trace w2 @ cs"
        "\<And>pid j. map_of (JAIL_DICT w2) pid = Some j \<Longrightarrow> reaped w2 pid j cs" by blast
    have "reap_all n w = (Inr True, w3)"
      using w2(1) w3(1) False Cons.prems(1) ev by (simp add: n(1) bindM_apply seqM_apply pycall_apply)
    moreover have "reaped w pid j (ds @ cs)" if "map_of (JAIL_DICT w) pid = Some j" for pid j
    proof (cases "is_exit ev \<and> pid = rv ev")
      case True
      with gone that reaped_before show ?thesis by blast
    next
      case False
      then have "map_of (JAIL_DICT w2) pid = Some j" using that w2(6) by (auto simp: delete_conv)
      from reaped_after [OF w3(4) [OF this] w2(3,4)] show ?thesis .
    qed
    ultimately show ?thesis using w2(4) w3(2,3) by (intro exI [of _ w3] exI [of _ "ds @ cs"]) simp
  qed
qed

text \<open>
  C12.  Shutting down ends: whatever events arrive, in any order, the closed socket that stays readable
  among them, once every process of the table has been seen to exit the table is empty, and every
  process has been waited for and its jail destroyed.  No call raises.
\<close>

theorem clean_all_terminates:
  assumes "quiet (w :: 'x wworld_scheme)"
    and "\<forall>t i. count_list t Kevent = count_list (trace w) Kevent + i \<and> i < length evs \<longrightarrow> kern w t Kevent = evs ! i"
    and "\<forall>pid \<in> fst ` set (JAIL_DICT w). \<exists>ev \<in> set evs. is_exit ev \<and> rv ev = pid"
    and "length evs \<le> n"
  shows "\<exists>w'. clean_all_jails n w = (Inr True, w') \<and> JAIL_DICT w' = [] \<and>
    (\<forall>pid j. map_of (JAIL_DICT w) pid = Some j \<longrightarrow>
      (\<exists>before rest v. calls (clean_all_jails n) w = before @ ProcC (Waitpid pid) # calls destroy_jail v @ rest \<and>
        self v = j \<and> kern v = kern w \<and> trace (v :: 'x wworld_scheme) = trace w @ before @ [ProcC (Waitpid pid)]))"
proof -
  obtain ks where k: "kill_all w = (Inr (), w\<lparr>trace := trace w @ ks\<rparr>)" "Kevent \<notin> set ks"
    using kill_all_quiet [OF assms(1)] by blast
  let ?w = "w\<lparr>trace := trace w @ ks\<rparr>"
  have "events ?w evs" using assms(2) k(2) by (simp add: events_def count_list_0_iff)
  then obtain w' cs where r: "reap_all n ?w = (Inr True, w')" "JAIL_DICT w' = []" "trace w' = trace ?w @ cs"
    "\<And>pid j. map_of (JAIL_DICT w) pid = Some j \<Longrightarrow> reaped ?w pid j cs"
    using reap_all_empties [of ?w evs n] assms(1,3,4) by fastforce
  have run: "clean_all_jails n w = (Inr True, w')" using k(1) r(1) by (simp add: clean_all_jails_def seqM_apply)
  have "reaped w pid j (ks @ cs)" if "map_of (JAIL_DICT w) pid = Some j" for pid j
    using reaped_after [OF r(4) [OF that], of w ks] by simp
  moreover have "calls (clean_all_jails n) w = ks @ cs" using run r(3) by (simp add: calls_def)
  ultimately show ?thesis using run r(2) unfolding reaped_def by auto
qed

text \<open>The witness: the socket is readable first, and the process exits after it.\<close>

theorem clean_all_terminates_witness:
  "\<exists>w' before rest v. clean_all_jails 2 (tracking ''web'') = (Inr True, w') \<and> JAIL_DICT w' = [] \<and>
     calls (clean_all_jails 2) (tracking ''web'') = before @ ProcC (Waitpid 7) # calls destroy_jail v @ rest \<and>
     jname (self (v :: wworld)) = ''web''"
proof -
  let ?w = "tracking ''web''" and ?evs = "[ok_ret, ok_ret\<lparr>rflag0 := 1, rflag1 := 1, rv := 7\<rparr>]"
  have e: "\<forall>t i. count_list t Kevent = count_list (trace ?w) Kevent + i \<and> i < length ?evs \<longrightarrow> kern ?w t Kevent = ?evs ! i"
  proof (intro allI impI)
    fix t and i :: nat
    assume i: "count_list t Kevent = count_list (trace ?w) Kevent + i \<and> i < length ?evs"
    then have "Kevent \<in> set t \<longleftrightarrow> i \<noteq> 0" using count_list_0_iff [of t Kevent] by (auto simp: tracking_def)
    with i show "kern ?w t Kevent = ?evs ! i" by (cases i) (simp_all add: tracking_def)
  qed
  have p: "\<forall>pid \<in> fst ` set (JAIL_DICT ?w). \<exists>ev \<in> set ?evs. is_exit ev \<and> rv ev = pid"
    by (simp add: tracking_def is_exit_def)
  have m: "map_of (JAIL_DICT ?w) 7 = Some (new_jail ''web'' True [] [])" by (simp add: tracking_def)
  from clean_all_terminates [OF quiet_tracking e p, of 2] m show ?thesis by (fastforce simp: new_jail_def)
qed

text \<open>When the fork fails, the jail is recorded under the process -1, and shutting down signals every
  process there is.\<close>

theorem failed_fork_recorded:
  assumes "worker_start_container name js w = (Inr (- 1), w')"
    and "prepare_container name (fst js) (w\<lparr>self := new_jail name True (snd js) (fst js)\<rparr>) = (Inr None, w1)"
    and "quiet w'"
  shows "- 1 \<in> fst ` set (JAIL_DICT w') \<and> ProcC (Kill (- 1)) \<in> set (calls kill_all w')"
proof -
  have "- 1 \<in> fst ` set (JAIL_DICT w')"
    using assms(1,2)
    by (auto simp: worker_start_container_def put_jail_def rfork_wrapper_def comp_simps dom_update
        simp flip: dom_map_of_conv_image_fst split: prod.splits sum.splits if_splits)
  moreover obtain cs where "kill_all w' = (Inr (), w'\<lparr>trace := trace w' @ cs\<rparr>)"
    "set cs = (\<lambda>pid. ProcC (Kill pid)) ` fst ` set (JAIL_DICT w')"
    using kill_all_quiet [OF assms(3)] by blast
  ultimately show ?thesis by (simp add: calls_def)
qed

end
