(* ===== verification/Requests.thy ===== *)
theory Requests
  imports Server Worker
begin

text \<open>
  Between the programs: the request of the server that an HTTP call of the worker or of the command
  line client is, and the server's state after such calls.
\<close>

section \<open>The request of a call\<close>

text \<open>The path of a URL on this host, and the request that a call of the worker reaches the server as.\<close>

definition url_path :: "string \<Rightarrow> string" where
  "url_path url = takeWhile (\<lambda>c. c \<noteq> CHR ''?'' \<and> c \<noteq> CHR ''#'') (drop (length (api [])) url)"

text \<open>The first value of a name in the query of a URL.\<close>

definition url_param :: "string \<Rightarrow> string \<Rightarrow> string option" where
  "url_param url name =
     map_option (drop (Suc (length name)))
       (find (\<lambda>p. startswith p (name @ ''='')) (splitc CHR ''&'' (drop 1 (dropWhile (\<lambda>c. c \<noteq> CHR ''?'') url))))"

fun received :: "syscall \<Rightarrow> request option" where
  "received (HttpGet url) = route GET (url_path url) (url_param url ''running'') JNull"
| "received (HttpPost url body) = route POST (url_path url) None body"
| "received (HttpDelete url) = route DELETE (url_path url) None JNull"
| "received _ = None"

text \<open>The server serves the requests among some calls, in order.\<close>

definition deliver :: "syscall list \<Rightarrow> ('x server_scheme, unit) comp" where
  "deliver cs = forM cs (\<lambda>c. case received c of None \<Rightarrow> ret () | Some rq \<Rightarrow> bindM (serve rq) (\<lambda>_. ret ()))"

text \<open>A name that is one segment of a path, and that neither the client library nor the server changes
  on the way: it is no dot segment and has no percent sign.\<close>

definition plain :: "string \<Rightarrow> bool" where
  "plain name \<longleftrightarrow> name \<notin> {[], ''.'', ''..''} \<and> list_all (\<lambda>c. c \<notin> set ''/?#%'') name"

lemma deliver_Nil [simp]: "deliver [] = ret ()"
  by (simp add: deliver_def)

lemma deliver_Cons: "received c = Some rq \<Longrightarrow> deliver (c # cs) = seqM (bindM (serve rq) (\<lambda>_. ret ())) (deliver cs)"
  by (simp add: deliver_def)

lemma deliver_local: "list_all local_call cs \<Longrightarrow> deliver (cs @ ds) = deliver ds"
  by (induction cs) (auto simp: deliver_def local_call_def split: syscall.splits)

definition understood :: "syscall \<Rightarrow> bool" where
  "understood c \<longleftrightarrow> (case c of HttpGet _ \<Rightarrow> received c \<noteq> None | HttpPost _ _ \<Rightarrow> received c \<noteq> None
     | HttpDelete _ \<Rightarrow> received c \<noteq> None | _ \<Rightarrow> True)"

lemma understood_local [simp]: "local_call c \<Longrightarrow> understood c"
  by (auto simp: local_call_def understood_def split: syscall.splits)

lemma url_path_plain:
  "list_all (\<lambda>c. c \<noteq> CHR ''?'' \<and> c \<noteq> CHR ''#'') p \<Longrightarrow> url_path (api p) = p"
  by (simp add: url_path_def api_def takeWhile_eq_all_conv list_all_iff)

text \<open>A path with a name as its third segment, and what may follow it.\<close>

lemma plain_path:
  assumes "plain name" "list_all (\<lambda>c. c \<noteq> CHR ''?'' \<and> c \<noteq> CHR ''#'') (front @ back)"
  shows "url_path (api (front @ name @ back)) = front @ name @ back"
  using assms by (intro url_path_plain) (auto simp: plain_def list_all_iff)

lemma plain_segments:
  assumes "plain name"
  shows "splitc CHR ''/'' name = [name]" "splitc CHR ''/'' (name @ CHR ''/'' # s) = name # splitc CHR ''/'' s"
  using assms by (auto simp: plain_def list_all_iff intro!: splitc_notin splitc_append_sep)

lemma routed_below:
  assumes "name \<noteq> []"
  shows
    "tl (splitc CHR ''/'' path) = [''api'', ''container'', name] \<Longrightarrow> route GET path r body = Some (GetContainerJson name)"
    "tl (splitc CHR ''/'' path) = [''api'', ''container'', name, ''exit_code''] \<Longrightarrow> route POST path r body = Some (RecordContainer name body)"
    "tl (splitc CHR ''/'' path) = [''api'', ''container'', name, ''start''] \<Longrightarrow> route POST path r body = Some (StartContainer name)"
    "tl (splitc CHR ''/'' path) = [''api'', ''container'', name, ''stop''] \<Longrightarrow> route POST path r body = Some (StopContainer name)"
    "tl (splitc CHR ''/'' path) = [''api'', ''container'', name, ''delete''] \<Longrightarrow> route DELETE path r body = Some (RemoveContainer name)"
    "tl (splitc CHR ''/'' path) = [''api'', ''networks'', name, ''start''] \<Longrightarrow> route POST path r body = Some (StartNetwork name)"
    "tl (splitc CHR ''/'' path) = [''api'', ''networks'', name, ''attach''] \<Longrightarrow> route POST path r body = Some (AttachNetwork name body)"
  using assms by (simp_all only: route_def Let_def api_path_def) (simp_all add: between_def first_some_def)

lemma received_named:
  assumes "plain name"
  shows "received (HttpGet (api (''/api/container/'' @ name))) = Some (GetContainerJson name)"
    "received (HttpPost (api (''/api/container/'' @ name @ ''/exit_code'')) body) = Some (RecordContainer name body)"
    "received (HttpPost (api (''/api/container/'' @ name @ ''/start'')) body) = Some (StartContainer name)"
    "received (HttpPost (api (''/api/container/'' @ name @ ''/stop'')) body) = Some (StopContainer name)"
    "received (HttpDelete (api (''/api/container/'' @ name @ ''/delete''))) = Some (RemoveContainer name)"
    "received (HttpPost (api (''/api/networks/'' @ name @ ''/start'')) body) = Some (StartNetwork name)"
    "received (HttpPost (api (''/api/networks/'' @ name @ ''/attach'')) body) = Some (AttachNetwork name body)"
proof -
  have n: "name \<noteq> []" using assms by (simp add: plain_def)
  note path = plain_path [OF assms] and route = routed_below [OF n] and segs = plain_segments [OF assms]
  show "received (HttpGet (api (''/api/container/'' @ name))) = Some (GetContainerJson name)"
    using path [of "''/api/container/''" "[]"] by (simp only: received.simps append_Nil2) (rule route(1), simp add: segs)
  show "received (HttpPost (api (''/api/container/'' @ name @ ''/exit_code'')) body) = Some (RecordContainer name body)"
    by (subst received.simps, subst path, simp, rule route(2), simp add: segs)
  show "received (HttpPost (api (''/api/container/'' @ name @ ''/start'')) body) = Some (StartContainer name)"
    by (subst received.simps, subst path, simp, rule route(3), simp add: segs)
  show "received (HttpPost (api (''/api/container/'' @ name @ ''/stop'')) body) = Some (StopContainer name)"
    by (subst received.simps, subst path, simp, rule route(4), simp add: segs)
  show "received (HttpDelete (api (''/api/container/'' @ name @ ''/delete''))) = Some (RemoveContainer name)"
    by (subst received.simps, subst path, simp, rule route(5), simp add: segs)
  show "received (HttpPost (api (''/api/networks/'' @ name @ ''/start'')) body) = Some (StartNetwork name)"
    by (subst received.simps, subst path, simp, rule route(6), simp add: segs)
  show "received (HttpPost (api (''/api/networks/'' @ name @ ''/attach'')) body) = Some (AttachNetwork name body)"
    by (subst received.simps, subst path, simp, rule route(7), simp add: segs)
qed

lemma received_calls:
  "received (HttpPost (api ''/dns'') body) = Some (AddDns body)"
  "received (HttpPost (api ''/subnet'') body) = Some (AddSubnet body)"
  "received (HttpPost (api ''/api/ports'') body) = Some (AddPorts body)"
  "received (HttpPost (api ''/api/containers'') body) = Some (CreateContainer body)"
  "received (HttpPost (api ''/api/networks'') body) = Some (AddNetwork body)"
  "received (HttpPost (api ''/api/volumes'') body) = Some (CreateVolume body)"
  by (simp_all add: url_path_plain route_def first_some_def between_def Let_def api_path_def)

lemma received_lists:
  "received (HttpGet (api ''/api/container'')) = Some (ListContainers None)"
  "received (HttpGet (api ''/api/container?running=True'')) = Some (ListContainers (Some ''True''))"
  "received (HttpGet (api ''/api/networks'')) = Some GetNetworks"
  "received (HttpGet (api ''/api/images'')) = Some GetImages"
  "received (HttpGet (api ''/api/volumes'')) = Some ListVolumes"
  by code_simp+

lemma understood_calls [simp]:
  "understood (JailC a)" "understood (NetC b)" "understood (FsC c)" "understood (ProcC d)" "understood (ZfsC e)"
  "understood Now" "understood Kevent" "understood (KeventAdd i)"
  "understood (HttpPost (api ''/dns'') body)" "understood (HttpPost (api ''/subnet'') body)"
  "understood (HttpPost (api ''/api/ports'') body)"
  by (simp_all add: understood_def received_calls del: received.simps)

lemma understood_container:
  assumes "plain name"
  shows "understood (HttpGet (api (''/api/container/'' @ name)))"
    "understood (HttpPost (api (''/api/container/'' @ name @ ''/exit_code'')) body)"
  unfolding understood_def using received_named [OF assms] by (simp_all del: received.simps)

end
