(* ===== verification/ContainerExec.thy ===== *)
theory ContainerExec
  imports Jail
begin

text \<open>
  \<open>bin/exec.py\<close>: the program that runs a command in a container.  It reads the container from the
  server, enters its jail and lets the command take its place.
\<close>

section \<open>The environment of the command\<close>

text \<open>\<open>env.setdefault(key, value)\<close> for each of some defaults.\<close>

definition setdefaults :: "json dict \<Rightarrow> json dict \<Rightarrow> json dict" where
  "setdefaults env defaults =
     foldl (\<lambda>e (k, v). if map_of e k = None then AList.update k v e else e) env defaults"

definition backslash :: char where
  "backslash = CHR 0x5C"

definition shell_defaults :: "string \<Rightarrow> json dict \<Rightarrow> json dict" where
  "shell_defaults jail_name container =
     [(''USER'', dget container ''user'' (JStr ''root'')), (''HOSTNAME'', JStr (jail_name @ ''.jail'')),
      (''HOME'', JStr ''/root''), (''SHELL'', JStr ''/bin/sh''), (''TERM'', JStr ''xterm''),
      (''PS1'', JStr (backslash # ''u@'' @ backslash # ''h:'' @ backslash # ''w $ ''))]"

section \<open>Running the command\<close>

text \<open>The handlers of a failed \<open>exec\<close> print.  The file name of a missing program is bytes when it was
  searched for in the path and text otherwise, which has no \<open>decode\<close>; an exception other than an
  OSError has no \<open>strerror\<close>.\<close>

definition exec_failed :: "json \<Rightarrow> exn \<Rightarrow> ('x world_scheme, unit) comp" where
  "exec_failed command e =
     (if e = OSError 2 then
        (case json_head command of
           Inr (JStr file) \<Rightarrow> if CHR ''/'' \<in> set file then raise AttributeError else ret ()
         | _ \<Rightarrow> ret ())
      else if is_OSError e then ret () else raise AttributeError)"

definition run_command :: "json \<Rightarrow> json dict \<Rightarrow> ('x world_scheme, unit) comp" where
  "run_command command env =
     tryM is_Exception
       (bindM (liftR (bindR (json_head command) (as_str TypeError))) (\<lambda>file.
        bindM (liftR (json_iter command)) (\<lambda>args.
        seqM (do_call (ProcC (Execvpe file args (JObj env)))) (raise ProcessReplaced))))
       (exec_failed command)"

text \<open>What follows the attach, given its result.  Every way out but the replacement of the process is an
  exit with -1 or an exception.\<close>

definition enter_and_run :: "json dict \<Rightarrow> json \<Rightarrow> string \<Rightarrow> int \<Rightarrow> ('x world_scheme, unit) comp" where
  "enter_and_run cont command name res =
     (if res < 0 then raise (SystemExit (- 1))
      else bindM (liftR (as_str TypeError (dget cont ''workingDir'' (JStr ''/'')))) (\<lambda>dir.
        seqM (do_call (ProcC (Chdir dir)))
        (bindM (liftR (jitems (dget cont ''env'' (JObj [])))) (\<lambda>env.
         seqM (run_command command (setdefaults env (shell_defaults name cont)))
           (raise (SystemExit (- 1)))))))"

definition container_exec :: "json \<Rightarrow> json \<Rightarrow> ('x world_scheme, unit) comp" where
  "container_exec container command =
     bindM (liftR (jitems container)) (\<lambda>cont.
     let jail_name = dget cont ''name'' JNull in
     if \<not> truthy jail_name then raise (SystemExit (- 1))
     else if dget cont ''status'' JNull \<noteq> JStr ''running'' then raise (SystemExit (- 1))
     else bindM (liftR (as_str AttributeError jail_name)) (\<lambda>name.
          bindM (jail_attach name) (enter_and_run cont command name)))"

text \<open>The main program.  It calls \<open>container_exec\<close> without the command.\<close>

definition exec_main :: "string list \<Rightarrow> ('x world_scheme, unit) comp" where
  "exec_main argv =
     (if length argv < 3 then raise (SystemExit 1)
      else bindM (pycall (HttpGet (''http://localhost:5000/api/container/'' @ argv ! 1))) (\<lambda>res.
        if rv res \<noteq> 200 then raise (SystemExit 1) else raise TypeError))"

section \<open>Lemmas\<close>

lemma no_exec_attach: "emits no_exec (jail_attach name)"
  unfolding jail_attach_def get_jail_id_by_name_def jail_attach_wrapper_def by (intro emits_rules; simp)

lemma jail_attach_ok:
  assumes "jail_attach name w = (Inr res, w')" and "\<not> res < 0"
  shows "\<exists>i. calls (jail_attach name) w =
      [JailC (Jail_get (str_iovec ''name'' name) 0), JailC (Jail_attach i)] \<and>
    rv (kern w (trace w) (JailC (Jail_get (str_iovec ''name'' name) 0))) = i \<and>
    rv (kern w (trace w @ [JailC (Jail_get (str_iovec ''name'' name) 0)]) (JailC (Jail_attach i))) = 0"
  using assms by (auto simp: jail_attach_def comp_simps calls_def error_codes split: if_splits)

lemma container_exec_call:
  assumes "c \<in> set (calls (container_exec container command :: ('x world_scheme, unit) comp) w)"
  shows "\<exists>cont name. container = JObj cont \<and> map_of cont ''name'' = Some (JStr name) \<and>
    map_of cont ''status'' = Some (JStr ''running'') \<and>
    (container_exec container command :: ('x world_scheme, unit) comp) =
      bindM (jail_attach name) (enter_and_run cont command name)"
proof -
  obtain cont where c: "container = JObj cont"
    using assms by (cases container) (auto simp: container_exec_def calls_def)
  with assms show ?thesis
    by (cases "dget cont ''name'' JNull")
      (auto simp: container_exec_def calls_def dget_def split: if_splits option.splits)
qed

lemma appends_enter [emits_rules]: "appends (enter_and_run cont command name res)"
  unfolding enter_and_run_def run_command_def exec_failed_def by (intro emits_rules)

text \<open>Nothing that this program does runs a command.\<close>

lemma exec_main_never_executes:
  "\<exists>e. fst (exec_main argv w) = Inl e" "emits (\<lambda>c. \<exists>u. c = HttpGet u) (exec_main argv)"
  by (auto simp: exec_main_def pycall_apply bindM_apply split: option.splits)
    (auto intro!: emits_rules)

section \<open>Properties\<close>

text \<open>
  C20.  A command is executed only for a container whose status is \<open>running\<close>, by a process that has
  entered the jail of the container's own name: the \<open>exec\<close> comes after a \<open>jail_attach\<close>, with the
  number found under that name, that returned 0.
\<close>

theorem container_exec_confined:
  assumes "ProcC (Execvpe f args env) \<in> set (calls (container_exec container command) (w :: 'x world_scheme))"
  shows "\<exists>cont name i post. container = JObj cont \<and> map_of cont ''name'' = Some (JStr name) \<and>
    map_of cont ''status'' = Some (JStr ''running'') \<and>
    calls (container_exec container command) w =
      [JailC (Jail_get (str_iovec ''name'' name) 0), JailC (Jail_attach i)] @ post \<and>
    rv (kern w (trace w) (JailC (Jail_get (str_iovec ''name'' name) 0))) = i \<and>
    rv (kern w (trace w @ [JailC (Jail_get (str_iovec ''name'' name) 0)]) (JailC (Jail_attach i))) = 0 \<and>
    ProcC (Execvpe f args env) \<in> set post"
proof -
  let ?x = "ProcC (Execvpe f args env)"
  from container_exec_call [OF assms] obtain cont name where c: "container = JObj cont"
    "map_of cont ''name'' = Some (JStr name)" "map_of cont ''status'' = Some (JStr ''running'')"
    and eq: "container_exec container command = bindM (jail_attach name)
      (enter_and_run cont command name :: int \<Rightarrow> ('x world_scheme, unit) comp)" by blast
  have no: "\<not> no_exec ?x" by (simp add: no_exec_def)
  from call_from_second [OF no_exec_attach appends_enter assms [unfolded eq] no]
  obtain res w1 where r: "jail_attach name w = (Inr res, w1)" "?x \<in> set (calls (enter_and_run cont command name res) w1)"
    "calls (bindM (jail_attach name) (enter_and_run cont command name)) w =
       calls (jail_attach name) w @ calls (enter_and_run cont command name res) w1"
    by blast
  have "\<not> res < 0" using r(2) by (auto simp: enter_and_run_def calls_def)
  from jail_attach_ok [OF r(1) this] c r(2,3) show ?thesis unfolding eq by auto
qed

theorem container_exec_confined_witness:
  "\<exists>name i post. calls (container_exec (JObj [(''name'', JStr ''web''), (''status'', JStr ''running'')]) (JList [JStr ''id'']))
      \<lparr>kern = \<lambda>_ _. ok_ret, trace = []\<rparr> =
      [JailC (Jail_get (str_iovec ''name'' name) 0), JailC (Jail_attach i)] @ post \<and> post \<noteq> []"
proof -
  let ?c = "JObj [(''name'', JStr ''web''), (''status'', JStr ''running'')]"
  let ?w = "\<lparr>kern = \<lambda>_ _. ok_ret, trace = []\<rparr>"
  let ?env = "JObj (setdefaults [] (shell_defaults ''web'' [(''name'', JStr ''web''), (''status'', JStr ''running'')]))"
  let ?x = "ProcC (Execvpe ''id'' [JStr ''id''] ?env)"
  have "list_ex (\<lambda>c. c = ?x) (calls (container_exec ?c (JList [JStr ''id''])) ?w)" by code_simp
  then have "?x \<in> set (calls (container_exec ?c (JList [JStr ''id''])) ?w)" by (simp add: list_ex_iff)
  from container_exec_confined [OF this] show ?thesis by fastforce
qed

end
