(* ===== verification/PyLibrary.thy ===== *)
theory PyLibrary
  imports Kernel
begin

text \<open>
  What the command line programs of \<open>bin\<close> use of Python's standard library: the widths of
  f-strings, \<open>json.dumps\<close> with an indentation, \<open>os.path.abspath\<close> and its kin, \<open>shlex.split\<close>.
\<close>

section \<open>Printing\<close>

definition print_line :: "string \<Rightarrow> ('x world_scheme, unit) comp" where
  "print_line s = do_call (Print s)"

text \<open>\<open>f"{x:n}"\<close>: text is padded on the right, a number on the left, anything else has no width.\<close>

fun padded :: "nat \<Rightarrow> json \<Rightarrow> string res" where
  "padded n (JStr s) = Inr (s @ replicate (n - length s) CHR '' '')"
| "padded n (JInt i) = Inr (replicate (n - length (dec_int i)) CHR '' '' @ dec_int i)"
| "padded n (JBool b) = Inr (replicate (n - 1) CHR '' '' @ (if b then ''1'' else ''0''))"
| "padded n _ = Inl TypeError"

text \<open>The \<open>repr\<close> of the bytes of a text, as printing \<open>res.content\<close> shows it.\<close>

definition bytes_repr :: "string \<Rightarrow> string" where
  "bytes_repr s = CHR ''b'' # repr_str s"

lemma emits_print_line [emits_rules]: "P (Print s) \<Longrightarrow> emits P (print_line s)"
  unfolding print_line_def by (intro emits_rules)

text \<open>\<open>int(str(n))\<close>.\<close>

lemma digit_facts: "is_digit c \<Longrightarrow> \<not> is_space c \<and> c \<noteq> CHR ''-'' \<and> c \<noteq> CHR ''+'' \<and> c \<noteq> CHR ''_''"
  by (auto simp: is_digit_def is_space_def code_def)

lemma strip_digits:
  assumes "list_all is_digit s" shows "strip s = s"
proof -
  have no: "dropWhile is_space t = t" if "\<forall>c \<in> set t. is_digit c" for t
    using that digit_facts by (cases t) auto
  show ?thesis using assms no [of s] no [of "rev s"] by (simp add: strip_def list_all_iff)
qed

lemma py_int_dec [simp]: "py_int (dec n) = Inr (int n)"
proof -
  have d: "list_all is_digit (dec n)" by (rule dec_digits)
  then have "CHR ''_'' \<notin> set (dec n)" by (auto simp: list_all_iff dest: digit_facts)
  moreover obtain x xs where x: "dec n = x # xs" by (cases "dec n") auto
  moreover have "x \<noteq> CHR ''-''" "x \<noteq> CHR ''+''" using d x by (auto dest: digit_facts)
  ultimately show ?thesis
    using strip_digits [OF d] d by (simp add: py_int_def Let_def del: num_of_dec) (metis num_of_dec)
qed

section \<open>JSON as text\<close>

definition json_char :: "char \<Rightarrow> string" where
  "json_char c =
     (if c = CHR 0x22 \<or> c = CHR 0x5C then [CHR 0x5C, c]
      else if c = CHR 0x0A then [CHR 0x5C, CHR ''n'']
      else if c = CHR 0x0D then [CHR 0x5C, CHR ''r'']
      else if c = CHR 0x09 then [CHR 0x5C, CHR ''t'']
      else if c = CHR 0x08 then [CHR 0x5C, CHR ''b'']
      else if c = CHR 0x0C then [CHR 0x5C, CHR ''f'']
      else if code c < 32 \<or> 127 \<le> code c then
        [CHR 0x5C, CHR ''u'', CHR ''0'', CHR ''0'', hex_digit (code c div 16), hex_digit (code c mod 16)]
      else [c])"

definition json_string :: "string \<Rightarrow> string" where
  "json_string s = CHR 0x22 # concat (map json_char s) @ [CHR 0x22]"

text \<open>\<open>json.dumps(j, indent=4)\<close>, at a depth of indentation.\<close>

definition json_lines :: "nat \<Rightarrow> char \<Rightarrow> char \<Rightarrow> string list \<Rightarrow> string" where
  "json_lines n open_c close_c items =
     (if items = [] then [open_c, close_c]
      else open_c # CHR 0x0A #
        concat (map (\<lambda>t. replicate (4 * Suc n) CHR '' '' @ t @ '','' @ [CHR 0x0A]) (butlast items)) @
        replicate (4 * Suc n) CHR '' '' @ List.last items @ CHR 0x0A # replicate (4 * n) CHR '' '' @ [close_c])"

fun dumps_at :: "nat \<Rightarrow> json \<Rightarrow> string" where
  "dumps_at n JNull = ''null''"
| "dumps_at n (JBool b) = (if b then ''true'' else ''false'')"
| "dumps_at n (JInt i) = dec_int i"
| "dumps_at n (JStr s) = json_string s"
| "dumps_at n (JList xs) = json_lines n CHR ''['' CHR '']'' (map (dumps_at (Suc n)) xs)"
| "dumps_at n (JObj d) =
     json_lines n CHR ''{'' CHR ''}'' (map (\<lambda>(k, v). json_string k @ '': '' @ dumps_at (Suc n) v) d)"

definition dumps4 :: "json \<Rightarrow> string" where
  "dumps4 = dumps_at 0"

section \<open>Paths\<close>

text \<open>\<open>os.path.normpath\<close>: empty and \<open>.\<close> parts go, \<open>..\<close> takes the part before it along; two leading
  slashes are kept.  The parts so far are reversed.\<close>

fun norm_parts :: "bool \<Rightarrow> string list \<Rightarrow> string list \<Rightarrow> string list" where
  "norm_parts rooted acc [] = rev acc"
| "norm_parts rooted acc (c # cs) =
     (if c = [] \<or> c = ''.'' then norm_parts rooted acc cs
      else if c \<noteq> ''..'' \<or> \<not> rooted \<and> acc = [] \<or> acc \<noteq> [] \<and> hd acc = ''..'' then norm_parts rooted (c # acc) cs
      else norm_parts rooted (tl acc) cs)"

definition normpath :: "string \<Rightarrow> string" where
  "normpath p =
     (let slashes = (if startswith p ''//'' \<and> \<not> startswith p ''///'' then ''//''
                     else if startswith p ''/'' then ''/'' else []);
          r = slashes @ joinc CHR ''/'' (norm_parts (slashes \<noteq> []) [] (splitc CHR ''/'' p))
      in if r = [] then ''.'' else r)"

definition abspath :: "string \<Rightarrow> ('x world_scheme, string) comp" where
  "abspath p =
     (if startswith p ''/'' then ret (normpath p)
      else bindM (pycall (FsC Getcwd)) (\<lambda>r. ret (normpath (path_join (rtext r) p))))"

text \<open>\<open>os.path.basename\<close>, \<open>os.path.dirname\<close> and \<open>s.lstrip('/')\<close>.\<close>

definition basename :: "string \<Rightarrow> string" where
  "basename p = rev (takeWhile (\<lambda>c. c \<noteq> CHR ''/'') (rev p))"

definition dirname :: "string \<Rightarrow> string" where
  "dirname p =
     (let head = rev (dropWhile (\<lambda>c. c \<noteq> CHR ''/'') (rev p));
          stripped = rev (dropWhile (\<lambda>c. c = CHR ''/'') (rev head))
      in if stripped = [] then head else stripped)"

definition lstrip_slash :: "string \<Rightarrow> string" where
  "lstrip_slash = dropWhile (\<lambda>c. c = CHR ''/'')"

lemma norm_parts_ok:
  assumes "list_all (\<lambda>c. c \<noteq> [] \<and> c \<noteq> ''.'' \<and> c \<noteq> ''..'') cs"
  shows "norm_parts rooted acc cs = rev acc @ cs"
  using assms by (induction cs arbitrary: acc) auto

text \<open>A path of plain parts below the root is left as it is.\<close>

lemma normpath_plain:
  assumes "cs \<noteq> []" "list_all (\<lambda>c. c \<noteq> [] \<and> c \<noteq> ''.'' \<and> c \<noteq> ''..'' \<and> CHR ''/'' \<notin> set c) cs"
  shows "normpath (CHR ''/'' # joinc CHR ''/'' cs) = CHR ''/'' # joinc CHR ''/'' cs"
proof -
  obtain c rest where cs: "cs = c # rest" using assms(1) by (cases cs) auto
  then obtain x xs where c: "c = x # xs" "x \<noteq> CHR ''/''" using assms(2) by (cases c) auto
  have hd: "\<exists>ys. joinc CHR ''/'' cs = x # ys" using cs c(1) by (cases rest) auto
  then have "\<not> startswith (CHR ''/'' # joinc CHR ''/'' cs) ''//''" using c(2) by (auto simp: startswith_def)
  moreover have "splitc CHR ''/'' (CHR ''/'' # joinc CHR ''/'' cs) = [] # cs"
    using assms by (auto simp: splitc_joinc list_all_iff)
  moreover have "norm_parts True [] cs = cs"
    using assms(2) by (subst norm_parts_ok) (auto simp: list_all_iff)
  ultimately show ?thesis
    by (simp add: normpath_def Let_def startswith_def)
qed

section \<open>Words of a shell command\<close>

text \<open>\<open>shlex.split\<close>: between words, in a word, in quotes, and after a backslash, with the state it goes
  back to.  In double quotes a backslash escapes only itself and the quote.  A quote left open and a
  backslash at the end are a \<open>ValueError\<close>.\<close>

datatype lex_state = Blank | Word | Quoted char | Escaped lex_state

definition lex_space :: "char \<Rightarrow> bool" where
  "lex_space c \<longleftrightarrow> c = CHR '' '' \<or> c = CHR 0x09 \<or> c = CHR 0x0D \<or> c = CHR 0x0A"

definition lex_quote :: "char \<Rightarrow> bool" where
  "lex_quote c \<longleftrightarrow> c = CHR 0x27 \<or> c = CHR 0x22"

definition emit_word :: "string \<Rightarrow> bool \<Rightarrow> string list res \<Rightarrow> string list res" where
  "emit_word tok quoted r = (if tok \<noteq> [] \<or> quoted then bindR r (\<lambda>ws. Inr (tok # ws)) else r)"

fun lex :: "lex_state \<Rightarrow> string \<Rightarrow> bool \<Rightarrow> string \<Rightarrow> string list res" where
  "lex Blank tok quoted [] = Inr []"
| "lex Blank tok quoted (c # cs) =
     (if lex_space c then lex Blank [] False cs
      else if c = CHR 0x5C then lex (Escaped Word) [] False cs
      else if lex_quote c then lex (Quoted c) [] False cs
      else lex Word [c] False cs)"
| "lex Word tok quoted [] = emit_word tok quoted (Inr [])"
| "lex Word tok quoted (c # cs) =
     (if lex_space c then emit_word tok quoted (lex Blank [] False cs)
      else if lex_quote c then lex (Quoted c) tok quoted cs
      else if c = CHR 0x5C then lex (Escaped Word) tok quoted cs
      else lex Word (tok @ [c]) quoted cs)"
| "lex (Quoted d) tok quoted [] = Inl ValueError"
| "lex (Quoted d) tok quoted (c # cs) =
     (if c = d then lex Word tok True cs
      else if c = CHR 0x5C \<and> d = CHR 0x22 then lex (Escaped (Quoted d)) tok True cs
      else lex (Quoted d) (tok @ [c]) True cs)"
| "lex (Escaped st) tok quoted [] = Inl ValueError"
| "lex (Escaped st) tok quoted (c # cs) =
     lex st (tok @ (case st of Quoted d \<Rightarrow> if c \<noteq> CHR 0x5C \<and> c \<noteq> d then [CHR 0x5C, c] else [c] | _ \<Rightarrow> [c]))
       quoted cs"

definition shlex_split :: "string \<Rightarrow> string list res" where
  "shlex_split s = lex Blank [] False s"

text \<open>A word that needs no quotes, and a word in single quotes.\<close>

definition bare :: "string \<Rightarrow> bool" where
  "bare w \<longleftrightarrow> w \<noteq> [] \<and> list_all (\<lambda>c. \<not> lex_space c \<and> \<not> lex_quote c \<and> c \<noteq> CHR 0x5C) w"

definition shell_word :: "string \<Rightarrow> string" where
  "shell_word w = (if bare w then w else CHR 0x27 # w @ [CHR 0x27])"

lemma lex_bare:
  "list_all (\<lambda>c. \<not> lex_space c \<and> \<not> lex_quote c \<and> c \<noteq> CHR 0x5C) w \<Longrightarrow>
   lex Word tok quoted (w @ rest) = lex Word (tok @ w) quoted rest"
  by (induction w arbitrary: tok) auto

lemma lex_single_quoted:
  "CHR 0x27 \<notin> set w \<Longrightarrow> lex (Quoted (CHR 0x27)) tok quoted (w @ CHR 0x27 # rest) = lex Word (tok @ w) True rest"
  by (induction w arbitrary: tok quoted) auto

lemma lex_quote_simps [simp]:
  "lex_quote CHR 0x27" "\<not> lex_space CHR 0x27" "lex_space CHR '' ''" "\<not> lex_quote CHR '' ''"
  by (simp_all add: lex_quote_def lex_space_def)

text \<open>One word and what comes after it.\<close>

lemma lex_shell_word:
  assumes "CHR 0x27 \<notin> set w"
  shows "\<exists>quoted. lex Blank [] False (shell_word w @ rest) = lex Word w quoted rest \<and> (w \<noteq> [] \<or> quoted)"
proof (cases "bare w")
  case True
  then obtain c cs where w: "w = c # cs" by (cases w) (auto simp: bare_def)
  have "lex Blank [] False (w @ rest) = lex Word [c] False (cs @ rest)"
    using True by (simp add: w bare_def)
  also have "\<dots> = lex Word w False rest"
    using True lex_bare [of cs "[c]" False rest] by (simp add: w bare_def)
  finally show ?thesis using True w by (auto simp: shell_word_def)
next
  case False
  then show ?thesis using lex_single_quoted [OF assms, of "[]" False rest] by (auto simp: shell_word_def)
qed

text \<open>Words written one after the other, quoted where they have to be, are split into the same words.\<close>

lemma shlex_split_words:
  assumes "\<forall>w \<in> set ws. CHR 0x27 \<notin> set w"
  shows "shlex_split (joinc CHR '' '' (map shell_word ws)) = Inr ws"
  using assms
proof (induction ws)
  case (Cons w ws)
  note IH = Cons.IH [unfolded shlex_split_def]
  show ?case
  proof (cases ws)
    case Nil
    then show ?thesis
      using lex_shell_word [of w "[]"] Cons.prems by (auto simp: shlex_split_def emit_word_def)
  next
    case (Cons v vs)
    then show ?thesis
      using lex_shell_word [of w "CHR '' '' # joinc CHR '' '' (map shell_word ws)"] Cons.prems IH
      by (auto simp: shlex_split_def emit_word_def)
  qed
qed (simp add: shlex_split_def)

end
