(* ===== verification/Client.thy ===== *)
theory Client
  imports Worker ContainerExec PyLibrary ManagerState
begin

text \<open>
  \<open>bin/dockermock\<close>: the command line program over the HTTP interface.  The arguments are taken as
  \<open>argparse\<close> returns them; a request is a call of the environment, and what the program prints is
  part of its trace.  The help texts are left out.
\<close>

section \<open>Requests and answers\<close>

text \<open>\<open>res.json()\<close>: an answer whose body is no JSON has \<open>rflag0\<close> set.  A request that reaches no server
  raises \<open>ConnectionError\<close>.\<close>

definition res_json :: "sysret \<Rightarrow> json res" where
  "res_json r = (if rflag0 r = 0 then Inr (rjson r) else Inl ValueError)"

definition connection_error :: exn where
  "connection_error = GenericException ''ConnectionError''"

definition http_get :: "string \<Rightarrow> ('x world_scheme, sysret) comp" where
  "http_get path = pycall (HttpGet (api path))"

definition post_json :: "string \<Rightarrow> json \<Rightarrow> ('x world_scheme, sysret) comp" where
  "post_json path j = pycall (HttpPost (api path) j)"

text \<open>A POST without a body.\<close>

definition post_empty :: "string \<Rightarrow> ('x world_scheme, sysret) comp" where
  "post_empty path = post_json path JNull"

definition container_path :: "string \<Rightarrow> string" where
  "container_path name = ''/api/container/'' @ name"

section \<open>Mounts\<close>

text \<open>Whether the source of a mount is a path or the name of a volume, by the operating system.  The
  source is what stands before the first colon.\<close>

definition is_letter :: "char \<Rightarrow> bool" where
  "is_letter c \<longleftrightarrow> (65 \<le> code c \<and> code c \<le> 90) \<or> (97 \<le> code c \<and> code c \<le> 122)"

text \<open>\<open>re.match(r"^[A-Za-z]:[\\/]", s)\<close>.\<close>

fun drive_path :: "string \<Rightarrow> bool" where
  "drive_path (d # c # s # _) \<longleftrightarrow> is_letter d \<and> c = CHR '':'' \<and> (s = CHR 0x5C \<or> s = CHR ''/'')"
| "drive_path _ = False"

definition classify_mount :: "string \<Rightarrow> string \<Rightarrow> string res" where
  "classify_mount system mount_str =
     (let parts = splitc CHR '':'' mount_str; source = hd parts; slash = CHR ''/'' \<in> set source in
      if length parts < 2 then Inl ValueError
      else if system \<in> {''Linux'', ''Darwin''} then
        (if startswith source ''/'' then Inr ''bind''
         else if startswith source ''.'' \<or> slash then Inr ''bind'' else Inr ''volume'')
      else if system = ''Windows'' then
        (if drive_path source then Inr ''bind''
         else if startswith source [CHR 0x5C, CHR 0x5C] then Inr ''bind''
         else if CHR 0x5C \<in> set source \<or> slash then Inr ''bind'' else Inr ''volume'')
      else Inr (if slash then ''bind'' else ''volume''))"

section \<open>Names\<close>

definition adjectives :: "string list" where
  "adjectives = [''brave'', ''calm'', ''clever'', ''eager'', ''gentle'', ''happy'', ''noble'', ''rapid'',
     ''silent'', ''wild'', ''mighty'', ''fancy'', ''bright'', ''cool'', ''epic'']"

definition nouns :: "string list" where
  "nouns = [''tiger'', ''panda'', ''falcon'', ''python'', ''nebula'', ''photon'', ''comet'', ''lotus'', ''vertex'',
     ''aurora'', ''titan'', ''eagle'', ''galaxy'', ''vertex'', ''sparrow'']"

text \<open>\<open>random.choice\<close> and \<open>random.randint\<close>: the environment picks an index below the given bound.\<close>

definition rand_below :: "nat \<Rightarrow> ('x world_scheme, nat) comp" where
  "rand_below n = bindM (pycall (RandBelow n)) (\<lambda>r. ret (nat (rv r) mod n))"

definition rand_choice :: "string list \<Rightarrow> ('x world_scheme, string) comp" where
  "rand_choice xs = bindM (rand_below (length xs)) (\<lambda>i. ret (xs ! i))"

definition generate_container_name :: "bool \<Rightarrow> ('x world_scheme, string) comp" where
  "generate_container_name include_number =
     bindM (rand_choice adjectives) (\<lambda>a. bindM (rand_choice nouns) (\<lambda>n.
     if include_number then bindM (rand_below 9999) (\<lambda>k. ret (a @ ''_'' @ n @ ''_'' @ dec (k + 1)))
     else ret (a @ ''_'' @ n)))"

section \<open>Lists\<close>

text \<open>A row of a table: the fields with their widths; what has no width is printed as it is.\<close>

fun table_row :: "json \<Rightarrow> (string \<times> nat option \<times> string) list \<Rightarrow> string res" where
  "table_row item [] = Inr []"
| "table_row item ((key, width, sep) # rest) =
     bindR (jindex item key) (\<lambda>v.
     bindR (case width of Some n \<Rightarrow> padded n v | None \<Rightarrow> Inr (py_str v)) (\<lambda>t.
     bindR (table_row item rest) (\<lambda>ts. Inr (t @ sep @ ts))))"

definition print_row :: "json \<Rightarrow> (string \<times> nat option \<times> string) list \<Rightarrow> ('x world_scheme, unit) comp" where
  "print_row item cols = bindM (liftR (table_row item cols)) print_line"

text \<open>Asking for a list and printing a row for each item.\<close>

definition print_table ::
  "string \<Rightarrow> string \<Rightarrow> (json \<Rightarrow> ('x world_scheme, unit) comp) \<Rightarrow> ('x world_scheme, unit) comp" where
  "print_table path header line =
     bindM (http_get path) (\<lambda>r.
     bindM (liftR (res_json r)) (\<lambda>items.
     seqM (print_line header)
     (bindM (liftR (json_iter items)) (\<lambda>is. forM is line))))"

definition cli_list_containers :: "bool \<Rightarrow> ('x world_scheme, unit) comp" where
  "cli_list_containers show_all =
     print_table (if show_all then ''/api/container'' else ''/api/container?running=True'')
       ''CONTAINER ID   NAME     STATUS''
       (\<lambda>c. bindM (if show_all then ret True else bindM (liftR (jindex c ''status'')) (\<lambda>s. ret (s = JStr ''running''))) (\<lambda>b.
          whenM b (print_row c [(''id'', Some 13, '' ''), (''name'', Some 8, '' ''), (''status'', None, [])])))"

definition cli_list_networks :: "('x world_scheme, unit) comp" where
  "cli_list_networks =
     print_table ''/api/networks'' ''NETWORK ID     NAME                   DRIVER               ''
       (\<lambda>n. print_row n [(''id'', Some 13, '' ''), (''name'', Some 25, '' ''), (''driver'', Some 25, [])])"

definition cli_list_volumes :: "('x world_scheme, unit) comp" where
  "cli_list_volumes =
     print_table ''/api/volumes'' (''ID'' @ replicate 11 CHR '' '' @ '' NAME'')
       (\<lambda>v. print_row v [(''id'', Some 13, '' ''), (''name'', None, [])])"

definition cli_list_images :: "('x world_scheme, unit) comp" where
  "cli_list_images =
     print_table ''/api/images''
       (''NAME'' @ replicate 21 CHR '' '' @ ''TAG'' @ replicate 22 CHR '' '' @ ''CREATED_AT'')
       (\<lambda>i. print_row i [(''name'', Some 25, []), (''tag'', Some 25, []), (''created_at'', None, [])])"

section \<open>Starting and stopping\<close>

definition cli_start_network :: "json \<Rightarrow> ('x world_scheme, unit) comp" where
  "cli_start_network name =
     bindM (post_empty (''/api/networks/'' @ py_str name @ ''/start'')) (\<lambda>res.
     if rv res = 400 then print_line (''Network '' @ py_str name @ '' not found'')
     else bindM (liftR (padded 10 name)) (\<lambda>n.
       print_line (''NAME      Status'' @ CHR 0x0A # n @ ''STARTED'')))"

definition start_listed :: "json \<Rightarrow> ('x world_scheme, unit) comp" where
  "start_listed network =
     bindM (liftR (jindex network ''name'')) (\<lambda>name.
     if name = JStr ''host'' then ret ()
     else seqM (cli_start_network name) (print_line (''Started Network '' @ py_str name)))"

definition prestart_container :: "string \<Rightarrow> ('x world_scheme, unit) comp" where
  "prestart_container name =
     bindM (http_get (container_path name)) (\<lambda>res.
     if rv res = 404 then
       seqM (print_line (''Container '' @ name @ '' doesn'' @ [CHR 0x27] @ ''t found'')) (raise (SystemExit (- 1)))
     else bindM (liftR (res_json res)) (\<lambda>container.
       bindM (liftR (bindR (jget container ''networks'' (JList [])) json_iter)) (\<lambda>networks.
       forM networks start_listed)))"

text \<open>The answer to a start or a stop.\<close>

definition print_status :: "string \<Rightarrow> sysret \<Rightarrow> ('x world_scheme, unit) comp" where
  "print_status name res =
     (if rv res = 404 then print_line (''Container '' @ name @ '' doesn'' @ [CHR 0x27] @ ''t found'')
      else bindM (liftR (res_json res)) (\<lambda>container.
        seqM (print_line ''NAME        STATUS '')
          (print_row container [(''container'', Some 15, '' ''), (''status'', Some 15, [])])))"

definition cli_start_container :: "string \<Rightarrow> ('x world_scheme, unit) comp" where
  "cli_start_container name =
     seqM (prestart_container name)
     (bindM (post_empty (container_path name @ ''/start'')) (print_status name))"

definition cli_stop_container :: "string \<Rightarrow> ('x world_scheme, unit) comp" where
  "cli_stop_container name = bindM (post_empty (container_path name @ ''/stop'')) (print_status name)"

section \<open>Networks and volumes\<close>

definition optional_text :: "string \<Rightarrow> string option \<Rightarrow> json dict" where
  "optional_text k v = (case v of Some s \<Rightarrow> if s \<noteq> [] then [(k, JStr s)] else [] | None \<Rightarrow> [])"

definition print_setting :: "string \<Rightarrow> string option \<Rightarrow> ('x world_scheme, unit) comp" where
  "print_setting label v = (case v of
       Some s \<Rightarrow> if s \<noteq> [] then print_line ('' '' @ '' '' @ label @ s) else ret ()
     | None \<Rightarrow> ret ())"

definition handle_networks_create ::
  "string \<Rightarrow> string \<Rightarrow> string option \<Rightarrow> string option \<Rightarrow> ('x world_scheme, unit) comp" where
  "handle_networks_create name driver subnet gateway =
     seqM (print_line (''Creating network '' @ [CHR 0x27] @ name @ [CHR 0x27] @ '' with the following settings:''))
     (seqM (print_line (''  Driver:  '' @ driver))
     (seqM (print_setting ''Subnet:  '' subnet)
     (seqM (print_setting ''Gateway: '' gateway)
     (bindM (post_json ''/api/networks'' (JObj ([(''name'', JStr name), (''driver'', JStr driver)] @
        optional_text ''subnet'' subnet @ optional_text ''gateway'' gateway))) (\<lambda>res.
      bindM (liftR (res_json res)) (\<lambda>data.
      if 400 \<le> rv res then
        bindM (liftR (jindex data ''error'')) (\<lambda>e. print_line (''Failed to create network: '' @ py_str e))
      else seqM (print_line ''NAME         Subnet'')
        (print_row data [(''name'', Some 15, '' ''), (''subnet'', None, [])])))))))"

text \<open>The number a function returns, None for Python's None.\<close>

definition failed_answer :: "sysret \<Rightarrow> ('x world_scheme, int option) comp" where
  "failed_answer res = seqM (print_line (bytes_repr (rtext res))) (ret (Some (- 1)))"

definition cli_create_volume :: "string \<Rightarrow> ('x world_scheme, int option) comp" where
  "cli_create_volume name =
     seqM (print_line name)
     (bindM (post_json ''/api/volumes'' (JObj [(''name'', JStr name)])) (\<lambda>res.
      if rv res \<noteq> 201 then failed_answer res
      else bindM (liftR (res_json res)) (\<lambda>data.
        seqM (print_line (py_str data))
        (bindM (liftR (table_row data [(''ID'', Some 5, []), (''name'', None, [])])) (\<lambda>t.
         seqM (print_line (''ID   NAME'' @ CHR 0x0A # t)) (ret (Some 0)))))))"

definition cli_remove_container :: "string \<Rightarrow> ('x world_scheme, int option) comp" where
  "cli_remove_container name =
     bindM (pycall (HttpDelete (api (container_path name @ ''/delete'')))) (\<lambda>res.
     if rv res \<noteq> 204 then failed_answer res
     else seqM (print_line (''Removed container:  '' @ name)) (ret None))"

text \<open>The message is no f-string: its braces are printed.\<close>

definition cli_attach_network :: "string \<Rightarrow> string \<Rightarrow> ('x world_scheme, int option) comp" where
  "cli_attach_network network container =
     bindM (post_json (''/api/networks/'' @ network @ ''/attach'') (JObj [(''name'', JStr container)])) (\<lambda>res.
     if rv res \<noteq> 201 then failed_answer res
     else seqM (print_line ''Successfully Attached container {args.container!r} to network {args.network!r}'')
       (ret (Some 0)))"

definition cli_get_container :: "string \<Rightarrow> ('x world_scheme, json) comp" where
  "cli_get_container name =
     bindM (http_get (container_path name)) (\<lambda>res.
     if rv res \<noteq> 200 then bindM (failed_answer res) (\<lambda>_. ret (JInt (- 1))) else liftR (res_json res))"

definition handle_inspect_container :: "string \<Rightarrow> ('x world_scheme, unit) comp" where
  "handle_inspect_container name = bindM (cli_get_container name) (\<lambda>cont. print_line (dumps4 cont))"

section \<open>Creating a container\<close>

text \<open>The arguments of \<open>container create\<close>; an option that was not given is None.  The user is parsed and
  not looked at.\<close>

record create_args =
  a_name :: "string option"
  a_env :: "string list option"
  a_publish :: "string list option"
  a_volume :: "string list option"
  a_workdir :: "string option"
  a_user :: "string option"
  a_restart :: string
  a_rm :: bool
  a_network :: "string list option"
  a_image :: string
  a_cmd :: "string list"

definition given :: "'a list option \<Rightarrow> 'a list" where
  "given xs = (case xs of None \<Rightarrow> [] | Some ys \<Rightarrow> ys)"

text \<open>\<open>key, value = env.split('=')\<close>.\<close>

fun parse_envs :: "string list \<Rightarrow> json dict \<Rightarrow> json dict res" where
  "parse_envs [] envs = Inr envs"
| "parse_envs (env # rest) envs =
     (case splitc CHR ''='' env of
        [key, value] \<Rightarrow> parse_envs rest (AList.update key (JStr value) envs)
      | _ \<Rightarrow> Inl ValueError)"

text \<open>One published port, or the protocol that is not supported.\<close>

definition parse_port :: "string \<Rightarrow> (string + json) res" where
  "parse_port port =
     (case splitc CHR '':'' port of
        [host, container] \<Rightarrow>
          (let parts = splitc CHR ''/'' container;
               p = (\<lambda>h c proto. JObj [(''host'', JInt h), (''container'', JInt c), (''proto'', JStr proto)])
           in bindR (py_int host) (\<lambda>h. bindR (py_int (hd parts)) (\<lambda>c.
              case tl parts of
                [] \<Rightarrow> Inr (Inr (p h c ''tcp''))
              | proto # _ \<Rightarrow> if proto = ''tcp'' \<or> proto = ''udp'' then Inr (Inr (p h c proto)) else Inr (Inl proto))))
      | _ \<Rightarrow> Inl ValueError)"

fun parse_ports :: "string list \<Rightarrow> json list \<Rightarrow> ('x world_scheme, json list option) comp" where
  "parse_ports [] ports = ret (Some ports)"
| "parse_ports (port # rest) ports =
     bindM (liftR (parse_port port)) (\<lambda>r. case r of
       Inl proto \<Rightarrow> seqM (print_line (''Unsupported protocal '' @ proto)) (ret None)
     | Inr p \<Rightarrow> parse_ports rest (ports @ [p]))"

definition mount_entry :: "string \<Rightarrow> string \<Rightarrow> bool \<Rightarrow> json" where
  "mount_entry tpe source readonly =
     JObj [(''type'', JStr tpe), (''source'', JStr source), (''readonly'', JBool readonly)]"

text \<open>The key of a mount: the name of a volume, which is made first, or the path on this host.\<close>

definition mount_key :: "string \<Rightarrow> string \<Rightarrow> ('x world_scheme, string) comp" where
  "mount_key mount_type source =
     (if mount_type = ''volume'' then bindM (cli_create_volume source) (\<lambda>_. ret source) else abspath source)"

text \<open>\<open>None\<close> when an argument is refused with a message.\<close>

fun parse_volumes :: "string \<Rightarrow> string list \<Rightarrow> json dict \<Rightarrow> ('x world_scheme, json dict option) comp" where
  "parse_volumes system [] vols = ret (Some vols)"
| "parse_volumes system (v # rest) vols =
     (case splitc CHR '':'' v of
        source # target # flags \<Rightarrow>
          bindM (liftR (classify_mount system v)) (\<lambda>mount_type.
          bindM (mount_key mount_type source) (\<lambda>key.
          let put = (\<lambda>ro. AList.update key (mount_entry mount_type target ro) vols) in
          case flags of
            [flag] \<Rightarrow>
              if flag = [] then parse_volumes system rest (put False)
              else if flag \<notin> {''ro'', ''rw''} then
                seqM (print_line (''Invalid Mount flag '' @ [CHR 0x22] @ flag @ [CHR 0x22] @
                  '' Valid values are among (ro, rw). Defaults to '' @ [CHR 0x22] @ ''rw'' @ [CHR 0x22])) (ret None)
              else parse_volumes system rest (put (flag = ''ro''))
          | _ \<Rightarrow> parse_volumes system rest (put False)))
      | _ \<Rightarrow> seqM (print_line (''Invalid Volume mount configuration '' @ v)) (ret None))"

definition texts_entry :: "string \<Rightarrow> string list \<Rightarrow> json dict" where
  "texts_entry k xs = (if xs \<noteq> [] then [(k, JList (map JStr xs))] else [])"

text \<open>What is posted.\<close>

definition create_body ::
  "create_args \<Rightarrow> string \<Rightarrow> json dict \<Rightarrow> json list \<Rightarrow> json dict \<Rightarrow> json" where
  "create_body a name envs ports vols =
     JObj ([(''name'', JStr name), (''image'', JStr (a_image a))] @ texts_entry ''command'' (a_cmd a) @
       [(''env'', JObj envs)] @ optional_text ''workingDir'' (a_workdir a) @
       texts_entry ''networks'' (given (a_network a)) @
       (if ports \<noteq> [] then [(''ports'', JList ports)] else []) @
       [(''mounts'', JObj vols), (''restart'', JStr (a_restart a)), (''rm'', JBool (a_rm a))])"

definition cli_create_container :: "string \<Rightarrow> create_args \<Rightarrow> ('x world_scheme, int option) comp" where
  "cli_create_container system a =
     (if a_image a = [] then seqM (print_line ''Image cannot be null'') (ret (Some (- 1)))
      else
        bindM (case a_name a of
            Some n \<Rightarrow> if n \<noteq> [] then ret n else generate_container_name False
          | None \<Rightarrow> generate_container_name False) (\<lambda>name.
        bindM (case a_env a of None \<Rightarrow> raise TypeError | Some es \<Rightarrow> liftR (parse_envs es [])) (\<lambda>envs.
        bindM (parse_ports (given (a_publish a)) []) (\<lambda>ports.
        case ports of None \<Rightarrow> ret (Some (- 1)) | Some ports \<Rightarrow>
        bindM (parse_volumes system (given (a_volume a)) []) (\<lambda>vols.
        case vols of None \<Rightarrow> ret (Some (- 1)) | Some vols \<Rightarrow>
        bindM (post_json ''/api/containers'' (create_body a name envs ports vols)) (\<lambda>res.
        if rv res \<noteq> 201 then
          seqM (print_line (''Failed to create container: '' @ bytes_repr (rtext res))) (ret (Some (- 1)))
        else bindM (liftR (res_json res)) (\<lambda>cont.
          bindM (liftR (bindR (jindex cont ''id'') (padded 5))) (\<lambda>i.
          seqM (print_line (''ID    NAME'' @ CHR 0x0A # i @ '' '' @ name)) (ret None)))))))))"

section \<open>Executing a command in a container\<close>

text \<open>Every way out of the \<open>try\<close> ends in \<open>sys.exit(-1)\<close>, but for a process that has been replaced.\<close>

definition pre_exec :: "string \<Rightarrow> string list \<Rightarrow> ('x world_scheme, unit) comp" where
  "pre_exec name cmd =
     finallyM
       (tryM is_Exception
         (bindM (http_get (container_path name)) (\<lambda>res.
          if rv res \<noteq> 200 then
            seqM (print_line (bytes_repr (rtext res)))
            (seqM (print_line (''Container '' @ name @ '' not found'')) (raise (SystemExit (- 1))))
          else bindM (liftR (res_json res)) (\<lambda>data. container_exec data (JList (map JStr cmd)))))
         (\<lambda>e. if e = connection_error then print_line (''Unable to connect: '' @ exn_text e)
              else print_line (''Failed to exec: '' @ exn_text e)))
       (raise (SystemExit (- 1)) :: ('x world_scheme, unit) comp)"

section \<open>The program\<close>

text \<open>What \<open>argparse\<close> makes of a command line.\<close>

datatype cli_command =
    ContainerPs bool | ContainerStart string | ContainerStop string | ContainerCreate create_args
  | ContainerInspect string | ContainerRm string
  | NetworksLs | NetworksCreate string string "string option" "string option" | NetworksStart string
  | NetworksAttach string string | ImagesLs | VolumesLs | VolumesCreate string
  | ExecCommand string "string list" | HelpText

definition unit_of :: "('w, 'a) comp \<Rightarrow> ('w, unit) comp" where
  "unit_of m = bindM m (\<lambda>_. ret ())"

fun cli_main :: "string \<Rightarrow> cli_command \<Rightarrow> ('x world_scheme, unit) comp" where
  "cli_main system (ContainerPs show_all) = cli_list_containers show_all"
| "cli_main system (ContainerStart name) = cli_start_container name"
| "cli_main system (ContainerStop name) = cli_stop_container name"
| "cli_main system (ContainerCreate a) = unit_of (cli_create_container system a)"
| "cli_main system (ContainerInspect name) = handle_inspect_container name"
| "cli_main system (ContainerRm name) = unit_of (cli_remove_container name)"
| "cli_main system NetworksLs = cli_list_networks"
| "cli_main system (NetworksCreate name driver subnet gateway) = handle_networks_create name driver subnet gateway"
| "cli_main system (NetworksStart name) = cli_start_network (JStr name)"
| "cli_main system (NetworksAttach network container) = unit_of (cli_attach_network network container)"
| "cli_main system ImagesLs = cli_list_images"
| "cli_main system VolumesLs = cli_list_volumes"
| "cli_main system (VolumesCreate name) = unit_of (cli_create_volume name)"
| "cli_main system (ExecCommand name cmd) = pre_exec name cmd"
| "cli_main system HelpText = ret ()"

section \<open>Lemmas\<close>

lemmas request_defs = http_get_def post_json_def post_empty_def

lemma emits_parse_ports [emits_rules]: "(\<And>s. P (Print s)) \<Longrightarrow> emits P (parse_ports ps acc)"
  by (induction ps arbitrary: acc) (auto intro!: emits_rules)

lemma emits_create_volume [emits_rules]:
  "(\<And>s. P (Print s)) \<Longrightarrow> P (HttpPost (api ''/api/volumes'') (JObj [(''name'', JStr name)])) \<Longrightarrow>
   emits P (cli_create_volume name)"
  unfolding cli_create_volume_def failed_answer_def request_defs by (intro emits_rules)

lemma emits_abspath [emits_rules]: "P (FsC Getcwd) \<Longrightarrow> emits P (abspath p)"
  unfolding abspath_def by (intro emits_rules)

lemma emits_parse_volumes [emits_rules]:
  assumes "\<And>s. P (Print s)" "P (FsC Getcwd)" "\<And>n. P (HttpPost (api ''/api/volumes'') (JObj [(''name'', JStr n)]))"
  shows "emits P (parse_volumes system vs acc)"
proof (induction vs arbitrary: acc)
  case (Cons v vs)
  show ?case
    unfolding parse_volumes.simps mount_key_def Let_def using assms Cons by (intro emits_rules)
qed (simp only: parse_volumes.simps emits_ret)

lemma emits_generate_name [emits_rules]: "(\<And>n. P (RandBelow n)) \<Longrightarrow> emits P (generate_container_name b)"
  unfolding generate_container_name_def rand_choice_def rand_below_def by (intro emits_rules)

lemma emits_cli_create [emits_rules]:
  assumes "\<And>s. P (Print s)" "P (FsC Getcwd)" "\<And>n. P (RandBelow n)"
    "\<And>n. P (HttpPost (api ''/api/volumes'') (JObj [(''name'', JStr n)]))" "\<And>j. P (HttpPost (api ''/api/containers'') j)"
  shows "emits P (cli_create_container system a)"
  unfolding cli_create_container_def request_defs using assms by (intro emits_rules)

lemma quiet_call [simp]: "quiet w \<Longrightarrow> pycall c w = (Inr (kern w (trace w) c), w\<lparr>trace := trace w @ [c]\<rparr>)"
  by (simp add: pycall_apply)

lemma quiet_print [simp]: "quiet w \<Longrightarrow> print_line s w = (Inr (), w\<lparr>trace := trace w @ [Print s]\<rparr>)"
  by (simp add: print_line_def do_call_apply)

text \<open>The arguments as one writes them.\<close>

definition env_text :: "string \<times> string \<Rightarrow> string" where
  "env_text e = fst e @ ''='' @ snd e"

definition port_text :: "nat \<times> nat \<times> string option \<Rightarrow> string" where
  "port_text p = (case p of (h, c, proto) \<Rightarrow>
     dec h @ '':'' @ dec c @ (case proto of None \<Rightarrow> [] | Some s \<Rightarrow> CHR ''/'' # s))"

definition port_json :: "nat \<times> nat \<times> string option \<Rightarrow> json" where
  "port_json p = (case p of (h, c, proto) \<Rightarrow>
     JObj [(''host'', JInt (int h)), (''container'', JInt (int c)),
       (''proto'', JStr (case proto of None \<Rightarrow> ''tcp'' | Some s \<Rightarrow> s))])"

definition known_proto :: "nat \<times> nat \<times> string option \<Rightarrow> bool" where
  "known_proto p \<longleftrightarrow> snd (snd p) \<in> {None, Some ''tcp'', Some ''udp''}"

lemma parse_port_text: "known_proto p \<Longrightarrow> parse_port (port_text p) = Inr (Inr (port_json p))"
proof -
  assume k: "known_proto p"
  obtain h c pr where p: "p = (h, c, pr)" by (cases p) auto
  have no: "CHR '':'' \<notin> set (dec n)" "CHR ''/'' \<notin> set (dec n)" for n
    using dec_notin [of "CHR '':''" n] dec_notin [of "CHR ''/''" n] by (auto simp: is_digit_def code_def)
  show ?thesis
    using k by (auto simp: p known_proto_def port_text_def port_json_def parse_port_def splitc_append_sep no Let_def)
qed

lemma parse_ports_text:
  "list_all known_proto ps \<Longrightarrow> parse_ports (map port_text ps) acc w = (Inr (Some (acc @ map port_json ps)), w)"
  by (induction ps arbitrary: acc) (simp_all add: parse_port_text)

lemma parse_envs_text:
  assumes "distinct (map fst (acc @ map (\<lambda>(k, v). (k, JStr v)) es))"
    "\<forall>(k, v) \<in> set es. CHR ''='' \<notin> set k \<and> CHR ''='' \<notin> set v"
  shows "parse_envs (map env_text es) acc = Inr (acc @ map (\<lambda>(k, v). (k, JStr v)) es)"
  using assms
proof (induction es arbitrary: acc)
  case (Cons e es)
  obtain k v where e: "e = (k, v)" by force
  have s: "splitc CHR ''='' (env_text e) = [k, v]"
    using Cons.prems(2) by (simp add: e env_text_def splitc_append_sep)
  have u: "AList.update k (JStr v) acc = acc @ [(k, JStr v)]"
    using Cons.prems(1) by (intro update_absent) (auto simp: e)
  have "parse_envs (map env_text es) (acc @ [(k, JStr v)]) = Inr ((acc @ [(k, JStr v)]) @ map (\<lambda>(k, v). (k, JStr v)) es)"
    using Cons.prems by (intro Cons.IH) (auto simp: e)
  then show ?case using u s by (simp add: e)
qed simp

text \<open>A container without mounts is asked for in one request.\<close>

lemma create_request:
  assumes "quiet w" "a_name a = Some name" "name \<noteq> []" "a_image a \<noteq> []" "a_volume a = None"
    and "a_env a = Some (map env_text envs)" "distinct (map fst envs)"
    and "\<forall>(k, v) \<in> set envs. CHR ''='' \<notin> set k \<and> CHR ''='' \<notin> set v"
    and "a_publish a = Some (map port_text ports)" "list_all known_proto ports"
  shows "\<exists>post. calls (cli_create_container system a) w =
      HttpPost (api ''/api/containers'')
        (create_body a name (map (\<lambda>(k, v). (k, JStr v)) envs) (map port_json ports) []) # post \<and>
    list_all (\<lambda>c. \<exists>s. c = Print s) post"
proof -
  have "parse_envs (map env_text envs) [] = Inr (map (\<lambda>(k, v). (k, JStr v)) envs)"
    using parse_envs_text [of "[]" envs] assms(7,8) by (simp add: comp_def case_prod_unfold)
  then show ?thesis
    using assms(1-6,9,10)
    by (auto simp: cli_create_container_def calls_def bindM_apply seqM_apply given_def parse_ports_text request_defs
        liftR_def split: sum.splits)
qed

definition is_request :: "syscall \<Rightarrow> bool" where
  "is_request c \<longleftrightarrow> (case c of HttpGet _ \<Rightarrow> True | HttpPost _ _ \<Rightarrow> True | HttpDelete _ \<Rightarrow> True | _ \<Rightarrow> False)"

definition network_start :: "string \<Rightarrow> syscall" where
  "network_start n = HttpPost (api (''/api/networks/'' @ n @ ''/start'')) JNull"

lemma is_request_simps [simp]:
  "is_request (HttpGet u)" "is_request (HttpPost u j)" "\<not> is_request (Print s)" "is_request (network_start n)"
  by (simp_all add: is_request_def network_start_def)

lemma start_network_calls:
  assumes "quiet w"
  shows "\<exists>s. cli_start_network (JStr n) w = (Inr (), w\<lparr>trace := trace w @ [network_start n, Print s]\<rparr>)"
  using assms
  by (auto simp: cli_start_network_def post_empty_def post_json_def network_start_def bindM_apply)

text \<open>The networks of a container are started one by one, in order, but for the host's.\<close>

lemma start_listed_calls:
  assumes "quiet w" "list_all2 (\<lambda>j n. jindex j ''name'' = Inr (JStr n)) items names"
  shows "\<exists>cs. forM items start_listed w = (Inr (), w\<lparr>trace := trace w @ cs\<rparr>) \<and>
    filter is_request cs = map network_start (filter (\<lambda>n. n \<noteq> ''host'') names)"
  using assms(2,1)
proof (induction arbitrary: w rule: list_all2_induct)
  case (Cons j items n names)
  show ?case
  proof (cases "n = ''host''")
    case True
    then show ?thesis using Cons by (simp add: start_listed_def)
  next
    case False
    obtain s where s: "cli_start_network (JStr n) w = (Inr (), w\<lparr>trace := trace w @ [network_start n, Print s]\<rparr>)"
      using start_network_calls [OF Cons.prems] by blast
    have one: "start_listed j w =
        (Inr (), w\<lparr>trace := trace w @ [network_start n, Print s, Print (''Started Network '' @ n)]\<rparr>)"
      using Cons.hyps False Cons.prems s by (simp add: start_listed_def seqM_apply)
    obtain cs where "forM items start_listed (w\<lparr>trace := trace w @ [network_start n, Print s, Print (''Started Network '' @ n)]\<rparr>)
        = (Inr (), w\<lparr>trace := (trace w @ [network_start n, Print s, Print (''Started Network '' @ n)]) @ cs\<rparr>)"
      "filter is_request cs = map network_start (filter (\<lambda>n. n \<noteq> ''host'') names)"
      using Cons.IH [of "w\<lparr>trace := trace w @ [network_start n, Print s, Print (''Started Network '' @ n)]\<rparr>"] Cons.prems
      by auto
    with one False show ?thesis
      by (intro exI [of _ "[network_start n, Print s, Print (''Started Network '' @ n)] @ cs"]) (simp add: seqM_apply)
  qed
qed (auto intro!: exI [of _ "[]"])

lemma emits_print_status: "emits (\<lambda>c. \<not> is_request c) (print_status name res)"
  unfolding print_status_def print_row_def by (intro emits_rules; simp)

section \<open>Properties\<close>

text \<open>
  A container can only be created with an environment: without \<open>-e\<close> the list of settings is None,
  which cannot be iterated, and the program ends with a TypeError before it has made a request.
\<close>

theorem create_without_env_fails:
  assumes "a_image a \<noteq> []" and "a_env a = None"
  shows "\<exists>e. fst (cli_create_container system a w) = Inl e \<and>
    list_all (\<lambda>c. \<exists>n. c = RandBelow n) (calls (cli_create_container system a) w)"
proof -
  let ?name = "case a_name a of Some n \<Rightarrow> if n \<noteq> [] then ret n else generate_container_name False
      | None \<Rightarrow> generate_container_name False"
  have eq: "cli_create_container system a = bindM ?name (\<lambda>_. raise TypeError)"
    using assms by (simp add: cli_create_container_def)
  have "emits (\<lambda>c. \<exists>n. c = RandBelow n) (cli_create_container system a)"
    unfolding eq by (intro emits_rules; blast)
  moreover have "\<exists>e. fst (cli_create_container system a w) = Inl e"
    unfolding eq by (auto simp: bindM_apply split: prod.splits sum.splits)
  ultimately show ?thesis using emits_calls by (metis list_all_iff)
qed

definition some_args :: create_args where
  "some_args = \<lparr>a_name = Some ''web'', a_env = None, a_publish = None, a_volume = None, a_workdir = None, a_user = None,
     a_restart = ''no'', a_rm = False, a_network = None, a_image = ''redis:8.2.3'', a_cmd = []\<rparr>"

theorem create_without_env_fails_witness:
  "fst (cli_create_container ''FreeBSD'' some_args (\<lparr>kern = \<lambda>_ _. ok_ret, trace = []\<rparr> :: world)) = Inl TypeError \<and>
   (\<exists>e. fst (cli_create_container ''FreeBSD'' some_args (\<lparr>kern = \<lambda>_ _. ok_ret, trace = []\<rparr> :: world)) = Inl e)"
proof -
  have "a_image some_args \<noteq> []" "a_env some_args = None" by (simp_all add: some_args_def)
  from create_without_env_fails [OF this, of "''FreeBSD''" "\<lparr>kern = \<lambda>_ _. ok_ret, trace = []\<rparr> :: world"]
  have "\<exists>e. fst (cli_create_container ''FreeBSD'' some_args (\<lparr>kern = \<lambda>_ _. ok_ret, trace = []\<rparr> :: world)) = Inl e" by blast
  moreover have "fst (cli_create_container ''FreeBSD'' some_args (\<lparr>kern = \<lambda>_ _. ok_ret, trace = []\<rparr> :: world)) = Inl TypeError"
    by code_simp
  ultimately show ?thesis by blast
qed

text \<open>
  C35.  A container is asked to start after every network it is in, but the host's, has been asked to
  start, in the order the server lists them; no other request is made.
\<close>

theorem start_order:
  assumes "quiet w"
    and "rv (kern w (trace w) (HttpGet (api (container_path name)))) \<noteq> 404"
    and "res_json (kern w (trace w) (HttpGet (api (container_path name)))) = Inr (JObj d)"
    and "dget d ''networks'' (JList []) = JList items"
    and "list_all2 (\<lambda>j n. jindex j ''name'' = Inr (JStr n)) items names"
  shows "filter is_request (calls (cli_start_container name) w) =
    HttpGet (api (container_path name)) # map network_start (filter (\<lambda>n. n \<noteq> ''host'') names) @
    [HttpPost (api (container_path name @ ''/start'')) JNull]"
proof -
  let ?g = "HttpGet (api (container_path name))" and ?p = "HttpPost (api (container_path name @ ''/start'')) JNull"
  obtain cs where cs: "forM items start_listed (w\<lparr>trace := trace w @ [?g]\<rparr>) = (Inr (), w\<lparr>trace := (trace w @ [?g]) @ cs\<rparr>)"
    "filter is_request cs = map network_start (filter (\<lambda>n. n \<noteq> ''host'') names)"
    using start_listed_calls [of "w\<lparr>trace := trace w @ [?g]\<rparr>", OF _ assms(5)] assms(1) by auto
  let ?w = "w\<lparr>trace := trace w @ ?g # cs @ [?p]\<rparr>" and ?r = "kern w (trace w @ ?g # cs) ?p"
  have "cli_start_container name w = print_status name ?r ?w"
    using assms(1-4) cs(1)
    by (simp add: cli_start_container_def prestart_container_def request_defs bindM_apply seqM_apply liftR_def)
  from calls_after [of "cli_start_container name", OF this _ emits_print_status]
  have "calls (cli_start_container name) w = (?g # cs @ [?p]) @ calls (print_status name ?r) ?w" by simp
  moreover have "filter is_request (calls (print_status name ?r) ?w) = []"
    using emits_calls [OF emits_print_status, of _ name ?r ?w] by (auto simp: filter_empty_conv)
  ultimately show ?thesis using cs(2) by simp
qed

theorem start_order_witness:
  "\<exists>k. filter is_request (calls (cli_start_container ''web'') (\<lparr>kern = \<lambda>_ _. k, trace = []\<rparr> :: world)) =
     [HttpGet (api ''/api/container/web''), network_start ''front'', network_start ''back'',
      HttpPost (api ''/api/container/web/start'') JNull]"
proof -
  let ?d = "[(''networks'', JList [JObj [(''name'', JStr ''front'')], JObj [(''name'', JStr ''host'')],
     JObj [(''name'', JStr ''back'')]])]"
  let ?k = "ok_ret\<lparr>rv := 200, rjson := JObj ?d\<rparr>"
  let ?w = "\<lparr>kern = \<lambda>_ _. ?k, trace = []\<rparr> :: world"
  have q: "quiet ?w" by (simp add: quiet_def ok_ret_def)
  have s: "rv (kern ?w (trace ?w) (HttpGet (api (container_path ''web'')))) \<noteq> 404" by simp
  have j: "res_json (kern ?w (trace ?w) (HttpGet (api (container_path ''web'')))) = Inr (JObj ?d)"
    by (simp add: res_json_def ok_ret_def)
  have n: "dget ?d ''networks'' (JList []) = JList [JObj [(''name'', JStr ''front'')], JObj [(''name'', JStr ''host'')],
     JObj [(''name'', JStr ''back'')]]" by (simp add: dget_def)
  have l: "list_all2 (\<lambda>j n. jindex j ''name'' = Inr (JStr n))
    [JObj [(''name'', JStr ''front'')], JObj [(''name'', JStr ''host'')], JObj [(''name'', JStr ''back'')]]
    [''front'', ''host'', ''back'']" by simp
  from start_order [OF q s j n l] show ?thesis
    by (intro exI [of _ ?k]) (simp add: container_path_def)
qed

text \<open>
  \<open>dockermock exec\<close> returns no success: either the command has taken the place of the program, or
  the program ends with the status -1, whatever the server and the kernel answer.
\<close>

theorem pre_exec_ends:
  "fst (pre_exec name cmd w) \<in> {Inl ProcessReplaced, Inl (SystemExit (- 1))}"
  by (auto simp: pre_exec_def finallyM_apply split: prod.splits)

text \<open>A path with a drive letter is never taken for a path: what stands before the first colon is the
  letter alone.  On a system that is none of the three the rule is not Linux's: a path that starts
  with a dot and has no slash is taken for the name of a volume.\<close>

theorem classify_mount_surprises:
  "classify_mount ''Windows'' (''C:'' @ CHR 0x5C # ''data:/data'') = Inr ''volume''"
  "classify_mount ''FreeBSD'' ''.:/data'' = Inr ''volume'' \<and> classify_mount ''Linux'' ''.:/data'' = Inr ''bind''"
  by code_simp+

end
