(* ===== verification/ImageBuilder.thy ===== *)
theory ImageBuilder
  imports Client Helpers ContainerConfig
begin

text \<open>
  \<open>bin/image_builder\<close>: builds an image from a file of instructions, in a directory that becomes its
  root, and keeps the image's description in a JSON file there.  Reading the arguments is outside.
\<close>

section \<open>State\<close>

text \<open>The builder: the root, the file of the description, and the description, which the server may
  have given.\<close>

record builder = world +
  rootfs :: string
  meta_file :: string
  img :: json

type_synonym 'x building = "('x builder_scheme, unit) comp"

definition set_img :: "json \<Rightarrow> 'x building" where
  "set_img j = modify (\<lambda>w. w\<lparr>img := j\<rparr>)"

text \<open>\<open>self.image[key] = value\<close>.\<close>

definition put_img :: "string \<Rightarrow> json \<Rightarrow> 'x building" where
  "put_img key v = bindM (gets img) (\<lambda>i. bindM (liftR (set_item i key v)) set_img)"

definition new_image :: json where
  "new_image = JObj [(''env'', JObj []), (''workingDir'', JStr ''/''), (''cmd'', JNull)]"

text \<open>\<open>MiniImageBuilder(rootfs)\<close>.\<close>

definition new_builder :: "string \<Rightarrow> 'x building" where
  "new_builder root =
     bindM (abspath root) (\<lambda>r.
     seqM (modify (\<lambda>w. w\<lparr>rootfs := r, meta_file := path_join r ''image.json'', img := new_image\<rparr>))
       (do_call (FsC (Makedirs r))))"

definition save_metadata :: "'x building" where
  "save_metadata = bindM (gets meta_file) (\<lambda>f. bindM (gets img) (\<lambda>i. do_call (FsC (WriteJson f i))))"

definition abs_path :: "string \<Rightarrow> ('x builder_scheme, string) comp" where
  "abs_path p = bindM (gets rootfs) (\<lambda>r. ret (path_join r (lstrip_slash p)))"

section \<open>Instructions\<close>

text \<open>One source of a COPY: \<open>dst\<close> is the destination as written, \<open>dst_root\<close> where it is on this host.\<close>

definition copy_source :: "string \<Rightarrow> string \<Rightarrow> string \<Rightarrow> 'x building" where
  "copy_source dst dst_root src =
     bindM (pycall (FsC (PathExists src))) (\<lambda>e.
     if rv e = 0 then raise (OSError 2)
     else let dst_path = (if endswith dst ''/'' then path_join dst_root (basename src) else dst_root) in
       bindM (pycall (FsC (PathIsdir src))) (\<lambda>d.
       if rv d \<noteq> 0 then do_call (FsC (CopyTree src dst_path))
       else seqM (do_call (FsC (Makedirs (dirname dst_path)))) (do_call (FsC (Copy2 src dst_path)))))"

definition cmd_COPY :: "string \<Rightarrow> 'x building" where
  "cmd_COPY args =
     bindM (liftR (shlex_split args)) (\<lambda>parts.
     if length parts < 2 then raise ValueError
     else let srcs = butlast parts; dst = List.last parts in
       seqM (print_line (''[COPY] '' @ py_repr (JList (map JStr srcs)) @ '' -> '' @ dst))
       (bindM (if startswith dst ''/'' then ret dst
               else bindM (gets img) (\<lambda>i.
                 bindM (liftR (bindR (jindex i ''workingDir'') (as_str TypeError))) (\<lambda>d. ret (path_join d dst)))) (\<lambda>dst.
        bindM (abs_path dst) (\<lambda>dst_root.
        if 1 < length srcs \<and> \<not> endswith dst ''/'' then raise ValueError
        else seqM (do_call (FsC (Makedirs dst_root))) (forM srcs (copy_source dst dst_root))))))"

text \<open>The answer to the request is taken whatever its status.\<close>

fun set_default :: "string \<times> json \<Rightarrow> json \<Rightarrow> json res" where
  "set_default (k, v) (JObj d) = Inr (JObj (if map_of d k = None then AList.update k v d else d))"
| "set_default _ _ = Inl AttributeError"

definition image_defaults :: "json dict" where
  "image_defaults = [(''env'', JObj []), (''workingDir'', JStr ''/''), (''cmd'', JNull), (''entrypoint'', JNull)]"

definition cmd_FROM :: "string \<Rightarrow> 'x building" where
  "cmd_FROM base =
     seqM (print_line (''[FROM] '' @ base))
     (bindM (http_get (''/api/images/'' @ base)) (\<lambda>res.
      bindM (liftR (res_json res)) (\<lambda>j.
      seqM (set_img j)
        (forM image_defaults (\<lambda>kv. bindM (gets img) (\<lambda>i. bindM (liftR (set_default kv i)) set_img))))))"

text \<open>\<open>p.split("=", 1)\<close> has to give two parts.\<close>

definition split_setting :: "string \<Rightarrow> (string \<times> string) res" where
  "split_setting p =
     (if CHR ''='' \<in> set p then Inr (takeWhile (\<lambda>c. c \<noteq> CHR ''='') p, tl (dropWhile (\<lambda>c. c \<noteq> CHR ''='') p))
      else Inl ValueError)"

definition set_env :: "string \<Rightarrow> 'x building" where
  "set_env p =
     bindM (liftR (split_setting p)) (\<lambda>(key, val).
     bindM (gets img) (\<lambda>i.
     bindM (liftR (jindex i ''env'')) (\<lambda>env.
     bindM (liftR (set_item env key (JStr val))) (\<lambda>env'. put_img ''env'' env'))))"

definition cmd_ENV :: "string \<Rightarrow> 'x building" where
  "cmd_ENV args = seqM (print_line (''[ENV] '' @ args)) (bindM (liftR (shlex_split args)) (\<lambda>parts. forM parts set_env))"

definition cmd_WORKDIR :: "string \<Rightarrow> 'x building" where
  "cmd_WORKDIR path =
     seqM (print_line (''[workingDir] '' @ path))
     (seqM (put_img ''workingDir'' (JStr path)) (bindM (abs_path path) (\<lambda>p. do_call (FsC (Makedirs p)))))"

text \<open>The working directory is read and not used.\<close>

definition cmd_RUN :: "string \<Rightarrow> 'x building" where
  "cmd_RUN command =
     seqM (print_line (''[RUN] '' @ command))
     (bindM (gets img) (\<lambda>i. bindM (liftR (jget i ''workingDir'' (JStr ''/''))) (\<lambda>workingDir.
      bindM (gets rootfs) (\<lambda>r.
      finallyM
        (bindM (pycall (ProcC (Spawn [''chroot'', r, ''/bin/sh'', ''-c'', command]))) (\<lambda>res.
         if rv res \<noteq> 0 then raise (GenericException ''CalledProcessError'') else ret ()))
        (print_line ''Command completed succesfully'')))))"

definition cmd_CMD :: "string \<Rightarrow> 'x building" where
  "cmd_CMD command =
     seqM (print_line (''[CMD] '' @ command))
     (bindM (liftR (shlex_split command)) (\<lambda>ws. put_img ''command'' (JList (map JStr ws))))"

text \<open>The argument is always text: the branch for a list is dead.\<close>

definition cmd_ENTRYPOINT :: "string \<Rightarrow> 'x building" where
  "cmd_ENTRYPOINT entrypoint =
     seqM (print_line (''[ENTRYPOINT] '' @ entrypoint)) (put_img ''entrypoint'' (JStr entrypoint))"

section \<open>The file of instructions\<close>

definition handlers :: "(string \<times> (string \<Rightarrow> 'x building)) list" where
  "handlers = [(''COPY'', cmd_COPY), (''FROM'', cmd_FROM), (''ENV'', cmd_ENV), (''WORKDIR'', cmd_WORKDIR),
     (''RUN'', cmd_RUN), (''CMD'', cmd_CMD), (''ENTRYPOINT'', cmd_ENTRYPOINT)]"

definition execute :: "nat \<Rightarrow> string \<Rightarrow> string \<Rightarrow> 'x building" where
  "execute n instruction args =
     seqM (print_line (''Step '' @ dec n @ '':''))
     (seqM (case map_of handlers instruction of
              Some handler \<Rightarrow> handler args
            | None \<Rightarrow> print_line (''Unsupported instruction: '' @ instruction))
       save_metadata)"

text \<open>A line without its outer space, as an instruction in upper case and its arguments.\<close>

definition split_line :: "string \<Rightarrow> string \<times> string" where
  "split_line line =
     (map upper_char (takeWhile (\<lambda>c. \<not> is_space c) line),
      dropWhile is_space (dropWhile (\<lambda>c. \<not> is_space c) line))"

definition skipped :: "string \<Rightarrow> bool" where
  "skipped line \<longleftrightarrow> line = [] \<or> startswith line ''#''"

fun run_lines :: "nat \<Rightarrow> string list \<Rightarrow> 'x building" where
  "run_lines n [] = ret ()"
| "run_lines n (l # ls) =
     (let line = strip l in
      if skipped line then run_lines n ls
      else case split_line line of (instr, args) \<Rightarrow> seqM (execute (Suc n) instr args) (run_lines (Suc n) ls))"

definition clear_temp :: "'x building" where
  "clear_temp =
     seqM (print_line ''Clearing image tmp dir'')
       (tryM is_Exception
         (seqM (cmd_RUN ''rm -rf /tmp/*'')
           (cmd_RUN ''ASSUME_ALWAYS_YES=true rm -rf /var/cache/pkg/* ; rm -rf /var/db/pkg/repos/*''))
         (\<lambda>e. print_line (''Error: '' @ exn_text e)))"

definition clean_up :: "'x building" where
  "clean_up =
     bindM (gets rootfs) (\<lambda>r.
     seqM (print_line (''Unmounting rootfs: '' @ r))
       (bindM (unmount_jail_defvs (JStr r)) (\<lambda>_. clear_temp)))"

definition build_steps :: "string \<Rightarrow> 'x building" where
  "build_steps path =
     bindM (gets rootfs) (\<lambda>r.
     seqM (print_line (''Mounting rootfs: '' @ r))
     (bindM (mount_devfs (path_join r ''dev'') (JInt 4)) (\<lambda>_.
      bindM (pycall (FsC (ReadLines path))) (\<lambda>f. run_lines 0 (rnames f)))))"

definition parse_dockerfile :: "string \<Rightarrow> 'x building" where
  "parse_dockerfile path = finallyM (build_steps path) (clean_up :: 'x building)"

section \<open>The program\<close>

definition image_tag :: "string \<Rightarrow> string \<times> string" where
  "image_tag t =
     (if CHR '':'' \<in> set t then (takeWhile (\<lambda>c. c \<noteq> CHR '':'') t, tl (dropWhile (\<lambda>c. c \<noteq> CHR '':'') t))
      else (t, ''latest''))"

definition write_image :: "string \<Rightarrow> string \<Rightarrow> string \<Rightarrow> string \<Rightarrow> 'x building" where
  "write_image name tg path root =
     seqM (print_line root)
     (seqM (parse_dockerfile path)
     (seqM (put_img ''name'' (JStr name))
     (seqM (put_img ''tag'' (JStr tg))
     (seqM save_metadata
     (seqM (print_line (CHR 0x0A # ''Build finished''))
     (bindM (gets img) (\<lambda>i.
      seqM (do_call (FsC (WriteJson ''result.json'' i)))
        (print_line (''Image config:'' @ [CHR 0x0A, CHR '' ''] @ dumps4 i)))))))))"

definition build_image :: "string \<Rightarrow> string \<Rightarrow> string \<Rightarrow> string \<Rightarrow> 'x building" where
  "build_image name tg path root = seqM (new_builder root) (write_image name tg path root)"

definition build_main :: "string \<Rightarrow> string \<Rightarrow> string \<Rightarrow> 'x building" where
  "build_main tag build_path root =
     (case image_tag tag of (name, tg) \<Rightarrow>
      bindM (pycall (FsC (PathIsdir build_path))) (\<lambda>d.
      let path = (if rv d \<noteq> 0 then path_join build_path ''Dockerfile'' else build_path) in
      bindM (pycall (FsC (PathExists path))) (\<lambda>e.
      if rv e = 0 then raise (OSError 2)
      else seqM (print_line (''Building image: '' @ name @ '':'' @ tg))
        (seqM (print_line (''Dockerfile: '' @ path)) (build_image name tg path root)))))"

section \<open>Lemmas\<close>

lemmas step_defs = cmd_COPY_def copy_source_def cmd_FROM_def cmd_ENV_def set_env_def cmd_WORKDIR_def cmd_RUN_def cmd_CMD_def
  cmd_ENTRYPOINT_def put_img_def set_img_def save_metadata_def abs_path_def

text \<open>The steps leave the root and the environment alone, and raise exceptions.\<close>

definition no_exec_env :: "(syscall list \<Rightarrow> syscall \<Rightarrow> sysret) \<Rightarrow> bool" where
  "no_exec_env k \<longleftrightarrow> (\<forall>t c. raises (k t c) \<noteq> Some ProcessReplaced)"

definition at_root :: "string \<Rightarrow> (syscall list \<Rightarrow> syscall \<Rightarrow> sysret) \<Rightarrow> 'x builder_scheme \<Rightarrow> bool" where
  "at_root r k w \<longleftrightarrow> rootfs w = r \<and> kern w = k \<and> no_exec_env k"

definition lives :: "exn \<Rightarrow> bool" where
  "lives e \<longleftrightarrow> e \<noteq> ProcessReplaced"

lemma at_root_simps [simp]:
  "at_root r k (w\<lparr>trace := t\<rparr>) = at_root r k w" "at_root r k (w\<lparr>img := i\<rparr>) = at_root r k w"
  by (simp_all add: at_root_def)

lemma lives_simps [simp]:
  "lives TypeError" "lives ValueError" "lives KeyError" "lives AttributeError" "lives (OSError n)"
  "lives (GenericException s)" "lives (SystemExit n)" "\<not> lives ProcessReplaced"
  by (simp_all add: lives_def)

lemma lex_error: "lex st tok quoted cs = Inl e \<Longrightarrow> e = ValueError"
proof (induction st tok quoted cs rule: lex.induct)
  case (2 tok quoted c cs)
  then show ?case by (auto split: if_splits)
next
  case (4 tok quoted c cs)
  then show ?case by (auto simp: emit_word_def bindR_eq_Inl split: if_splits)
next
  case (6 d tok quoted c cs)
  then show ?case by (auto split: if_splits)
qed (auto simp: emit_word_def split: if_splits)

lemma lifted_errors:
  "shlex_split s = Inl e \<Longrightarrow> lives e" "jindex j k = Inl e \<Longrightarrow> lives e" "jget j k x = Inl e \<Longrightarrow> lives e"
  "set_item j k v = Inl e \<Longrightarrow> lives e" "set_default kv j = Inl e \<Longrightarrow> lives e" "split_setting s = Inl e \<Longrightarrow> lives e"
  "res_json res = Inl e \<Longrightarrow> lives e" "as_str TypeError j = Inl e \<Longrightarrow> lives e"
  by (auto simp: shlex_split_def split_setting_def res_json_def dest: lex_error split: if_splits)
    (cases kv; cases j; auto split: option.splits; fail | cases j; auto split: option.splits; fail)+

lemma safe_pycall_lives:
  "(\<And>w t. I w \<Longrightarrow> I (w\<lparr>trace := t\<rparr>)) \<Longrightarrow> (\<And>w t e. I w \<Longrightarrow> raises (kern w t c) = Some e \<Longrightarrow> p e) \<Longrightarrow>
   safe p I (pycall c)"
  by (auto simp: safe_def pycall_apply split: option.splits)

lemma safe_call [safe_rules]:
  "safe lives (at_root r k) (pycall c)" "safe lives (at_root r k) (libc c)"
  "safe lives (at_root r k) (do_call c)" "safe lives (at_root r k) (print_line s)"
proof -
  have e: "no_exec_env k \<Longrightarrow> raises (k t c) = Some e \<Longrightarrow> lives e" for t c e
    by (auto simp: no_exec_env_def lives_def)
  show c: "safe lives (at_root r k) (pycall c)" for c
    using e by (intro safe_pycall_lives) (auto simp: at_root_def)
  show d: "safe lives (at_root r k) (do_call c)" for c
    unfolding do_call_def by (intro safe_rules c)
  show "safe lives (at_root r k) (print_line s)" unfolding print_line_def by (rule d)
qed (auto simp: safe_def libc_def)

lemma safe_finally [safe_rules]:
  assumes "safe lives I m" "safe lives I fin"
  shows "safe lives I (finallyM m fin)"
proof (rule safeI)
  fix w r w'
  assume w: "I w" and run: "finallyM m fin w = (r, w')"
  obtain r1 w1 where m: "m w = (r1, w1)" by force
  obtain r2 w2 where f: "fin w1 = (r2, w2)" by force
  from safeD [OF assms(1) w m] have w1: "I w1" "\<forall>e. r1 = Inl e \<longrightarrow> lives e" by auto
  from safeD [OF assms(2) w1(1) f] have "I w2" "\<forall>e. r2 = Inl e \<longrightarrow> lives e" by auto
  with w1 run m f show "I w' \<and> (\<forall>e. r = Inl e \<longrightarrow> lives e)"
    by (cases r2) (auto simp: finallyM_apply split: if_splits)
qed

lemma safe_steps [safe_rules]:
  "safe lives (at_root r k) (cmd_COPY args)" "safe lives (at_root r k) (cmd_FROM args)"
  "safe lives (at_root r k) (cmd_ENV args)" "safe lives (at_root r k) (cmd_WORKDIR args)"
  "safe lives (at_root r k) (cmd_RUN args)" "safe lives (at_root r k) (cmd_CMD args)"
  "safe lives (at_root r k) (cmd_ENTRYPOINT args)" "safe lives (at_root r k) save_metadata"
  unfolding step_defs http_get_def Let_def split_beta
  by (intro safe_rules; (simp; fail | auto simp: bindR_eq_Inl dest: lifted_errors; fail)?)+

lemma handler_cases:
  "map_of handlers i = Some h \<Longrightarrow>
   (i = ''COPY'' \<and> h = cmd_COPY) \<or> (i = ''FROM'' \<and> h = cmd_FROM) \<or> (i = ''ENV'' \<and> h = cmd_ENV) \<or>
   (i = ''WORKDIR'' \<and> h = cmd_WORKDIR) \<or> (i = ''RUN'' \<and> h = cmd_RUN) \<or> (i = ''CMD'' \<and> h = cmd_CMD) \<or>
   (i = ''ENTRYPOINT'' \<and> h = cmd_ENTRYPOINT)"
  by (auto simp: handlers_def split: if_splits)

lemma safe_execute [safe_rules]: "safe lives (at_root r k) (execute n i args :: 'x building)"
proof (cases "map_of handlers i :: (string \<Rightarrow> 'x building) option")
  case (Some h)
  then have "safe lives (at_root r k) (h args)" using handler_cases [OF Some] by (auto intro: safe_rules)
  then show ?thesis unfolding execute_def Some option.case by (intro safe_rules)
qed (auto simp: execute_def intro!: safe_rules)

lemma safe_run_lines [safe_rules]: "safe lives (at_root r k) (run_lines n ls)"
  by (induction ls arbitrary: n) (auto simp: Let_def safe_ret split: prod.splits intro!: safe_rules)

lemma emits_cmd_RUN:
  "emits (\<lambda>c. (\<exists>s. c = Print s) \<or> (\<exists>root s. c = ProcC (Spawn [''chroot'', root, ''/bin/sh'', ''-c'', s]))) (cmd_RUN s)"
  unfolding cmd_RUN_def by (intro emits_rules; simp)

definition cleaning :: "syscall \<Rightarrow> bool" where
  "cleaning c \<longleftrightarrow> (\<exists>s. c = Print s) \<or> (\<exists>root s. c = ProcC (Spawn [''chroot'', root, ''/bin/sh'', ''-c'', s]))"

lemma emits_clear_temp: "emits cleaning clear_temp"
  unfolding clear_temp_def cleaning_def [abs_def] by (intro emits_rules emits_cmd_RUN; simp)

lemma unmount_devfs_call:
  "\<exists>n. unmount_jail_defvs (JStr r) w = (Inr n, w\<lparr>trace := trace w @ [JailC (Unmount (path_join r ''dev''))]\<rparr>)"
  by (simp add: unmount_jail_defvs_def unmount_def tryM_apply seqM_apply bindM_apply libc_apply)

lemma clean_up_calls:
  assumes "\<forall>t s. raises (kern w t (Print s)) = None"
  shows "\<exists>s post. calls clean_up w = Print s # JailC (Unmount (path_join (rootfs w) ''dev'')) # post \<and>
    list_all cleaning post"
proof -
  let ?s = "''Unmounting rootfs: '' @ rootfs w" and ?u = "JailC (Unmount (path_join (rootfs w) ''dev''))"
  let ?w = "w\<lparr>trace := trace w @ [Print ?s, ?u]\<rparr>"
  obtain n where "unmount_jail_defvs (JStr (rootfs w)) (w\<lparr>trace := trace w @ [Print ?s]\<rparr>) = (Inr n, ?w)"
    using unmount_devfs_call [of "rootfs w" "w\<lparr>trace := trace w @ [Print ?s]\<rparr>"] by auto
  then have "clean_up w = clear_temp ?w"
    using assms by (simp add: clean_up_def bindM_apply seqM_apply print_line_def do_call_apply)
  from calls_after [of clean_up, OF this _ emits_clear_temp]
  have "calls clean_up w = [Print ?s, ?u] @ calls clear_temp ?w" by simp
  moreover have "list_all cleaning (calls clear_temp ?w)" by (rule emits_list_all [OF emits_clear_temp])
  ultimately show ?thesis by auto
qed

lemma appends_clean_up [emits_rules]: "appends clean_up"
  unfolding clean_up_def clear_temp_def cmd_RUN_def by (intro emits_rules)

lemma appends_steps [emits_rules]:
  "appends (cmd_COPY args)" "appends (cmd_FROM args)" "appends (cmd_ENV args)" "appends (cmd_WORKDIR args)"
  "appends (cmd_RUN args)" "appends (cmd_CMD args)" "appends (cmd_ENTRYPOINT args)" "appends save_metadata"
  unfolding step_defs http_get_def Let_def split_beta by (intro emits_rules; simp)+

lemma appends_execute [emits_rules]: "appends (execute n i args :: 'x building)"
proof (cases "map_of handlers i :: (string \<Rightarrow> 'x building) option")
  case (Some h)
  then have "appends (h args)" using handler_cases [OF Some] by (auto intro: emits_rules)
  then show ?thesis unfolding execute_def Some option.case by (intro emits_rules)
qed (auto simp: execute_def intro!: emits_rules)

lemma appends_run_lines [emits_rules]: "appends (run_lines n ls)"
  by (induction ls arbitrary: n) (auto simp: Let_def emits_ret split: prod.splits intro!: emits_rules)

section \<open>Properties\<close>

text \<open>
  C36.  However a build ends, the device file system mounted for it is unmounted: after the last step
  come only the unmounting, messages, and the commands that clear the image's temporary files.
\<close>

theorem devfs_unmounted:
  assumes "\<forall>t c. raises (kern w t c) \<noteq> Some ProcessReplaced" and "\<forall>t s. raises (kern w t (Print s)) = None"
  shows "\<exists>pre post. calls (parse_dockerfile path) (w :: 'x builder_scheme) = pre @ JailC (Unmount (path_join (rootfs w) ''dev'')) # post \<and>
    list_all cleaning post"
proof -
  obtain r w1 where m: "build_steps path w = (r, w1)" by force
  have "safe lives (at_root (rootfs w) (kern w)) (build_steps path :: 'x building)"
    unfolding build_steps_def mount_devfs_def nmount_def by (intro safe_rules)
  from safeD [OF this _ m] have live: "r \<noteq> Inl ProcessReplaced" and w1: "rootfs w1 = rootfs w" "kern w1 = kern w"
    using assms(1) by (auto simp: at_root_def no_exec_env_def)
  have run: "trace (snd (parse_dockerfile path w)) = trace (snd (clean_up w1))"
    using live by (auto simp: parse_dockerfile_def finallyM_apply m split: prod.splits sum.splits)
  have "appends (build_steps path :: 'x building)"
    unfolding build_steps_def mount_devfs_def nmount_def by (intro emits_rules)
  from emitsD [OF this, of w] have t1: "trace w1 = trace w @ calls (build_steps path) w" by (simp add: m)
  obtain s post where c: "calls clean_up w1 = Print s # JailC (Unmount (path_join (rootfs w) ''dev'')) # post"
    "list_all cleaning post"
    using clean_up_calls [of w1] assms(2) w1 by auto
  moreover have "calls (parse_dockerfile path) w = calls (build_steps path) w @ calls clean_up w1"
    unfolding calls_def [of "parse_dockerfile path"] run emitsD [OF appends_clean_up, of w1] t1 by simp
  ultimately show ?thesis
    by (intro exI [of _ "calls (build_steps path) w @ [Print s]"] exI [of _ post]) simp
qed

definition some_builder :: "string \<Rightarrow> (syscall list \<Rightarrow> syscall \<Rightarrow> sysret) \<Rightarrow> builder" where
  "some_builder root k = \<lparr>kern = k, trace = [], rootfs = root, meta_file = path_join root ''image.json'', img = new_image\<rparr>"

text \<open>The witness is a build that stops at once, since the file cannot be read.\<close>

theorem devfs_unmounted_witness:
  "let k = (\<lambda>_ c. case c of FsC (ReadLines _) \<Rightarrow> ok_ret\<lparr>raises := Some (OSError 2)\<rparr> | _ \<Rightarrow> ok_ret)
   in fst (parse_dockerfile ''Dockerfile'' (some_builder ''/tmp/root'' k)) = Inl (OSError 2) \<and>
     (\<exists>pre post. calls (parse_dockerfile ''Dockerfile'') (some_builder ''/tmp/root'' k) =
        pre @ JailC (Unmount ''/tmp/root/dev'') # post \<and> list_all cleaning post)"
proof -
  let ?k = "\<lambda>(_ :: syscall list) c. case c of FsC (ReadLines _) \<Rightarrow> ok_ret\<lparr>raises := Some (OSError 2)\<rparr> | _ \<Rightarrow> ok_ret"
  let ?w = "some_builder ''/tmp/root'' ?k"
  have k: "\<forall>t c. raises (kern ?w t c) \<noteq> Some ProcessReplaced" "\<forall>t s. raises (kern ?w t (Print s)) = None"
    by (auto simp: some_builder_def ok_ret_def split: syscall.splits fs_call.splits)
  have p: "path_join (rootfs ?w) ''dev'' = ''/tmp/root/dev''" by (simp add: some_builder_def path_join_def startswith_def endswith_def)
  have "fst (parse_dockerfile ''Dockerfile'' ?w) = Inl (OSError 2)" by code_simp
  with devfs_unmounted [OF k, of "''Dockerfile''"] show ?thesis by (simp add: p Let_def)
qed

text \<open>
  C37.  The words of a CMD are stored as they were written: quoting a word where it needs quotes and
  splitting the line again gives the same list.
\<close>

theorem cmd_stores_words:
  assumes "\<forall>t s. raises (kern w t (Print s)) = None" and "img w = JObj d" and "\<forall>x \<in> set ws. CHR 0x27 \<notin> set x"
  shows "\<exists>w'. cmd_CMD (joinc CHR '' '' (map shell_word ws)) w = (Inr (), w') \<and>
    img w' = JObj (AList.update ''command'' (JList (map JStr ws)) d)"
  using assms shlex_split_words [OF assms(3)]
  by (simp add: cmd_CMD_def put_img_def set_img_def seqM_apply bindM_apply print_line_def do_call_apply)

theorem cmd_stores_words_witness:
  "\<exists>w'. cmd_CMD (''sh -c '' @ [CHR 0x27] @ ''echo $HOME; sleep 1'' @ [CHR 0x27]) (some_builder ''/tmp/root'' (\<lambda>_ _. ok_ret)) = (Inr (), w') \<and>
     img w' = JObj [(''env'', JObj []), (''workingDir'', JStr ''/''), (''cmd'', JNull),
       (''command'', JList [JStr ''sh'', JStr ''-c'', JStr ''echo $HOME; sleep 1''])]"
proof -
  let ?w = "some_builder ''/tmp/root'' (\<lambda>_ _. ok_ret)" and ?ws = "[''sh'', ''-c'', ''echo $HOME; sleep 1'']"
  let ?d = "[(''env'', JObj []), (''workingDir'', JStr ''/''), (''cmd'', JNull)]"
  have p: "\<forall>t s. raises (kern ?w t (Print s)) = None" by (simp add: some_builder_def ok_ret_def)
  have i: "img ?w = JObj ?d" by (simp add: some_builder_def new_image_def)
  have q: "\<forall>x \<in> set ?ws. CHR 0x27 \<notin> set x" by simp
  have l: "joinc CHR '' '' (map shell_word ?ws) = ''sh -c '' @ [CHR 0x27] @ ''echo $HOME; sleep 1'' @ [CHR 0x27]"
    by code_simp
  from cmd_stores_words [OF p i q] show ?thesis unfolding l by simp
qed

text \<open>An image under construction that has no entry for volumes.\<close>

definition no_volumes :: "(syscall list \<Rightarrow> syscall \<Rightarrow> sysret) \<Rightarrow> 'x builder_scheme \<Rightarrow> bool" where
  "no_volumes k w \<longleftrightarrow> kern w = k \<and> (\<exists>d. img w = JObj d \<and> map_of d ''volumes'' = None)"

definition no_from :: "string list \<Rightarrow> bool" where
  "no_from ls \<longleftrightarrow> list_all (\<lambda>l. fst (split_line (strip l)) \<noteq> ''FROM'') ls"

lemma no_volumes_trace [simp]: "no_volumes k (w\<lparr>trace := t\<rparr>) = no_volumes k w"
  by (simp add: no_volumes_def)

lemma keeps_print [keeps_calls]: "(\<And>w t. I (w\<lparr>trace := t\<rparr>) = I w) \<Longrightarrow> keeps I (print_line s)"
  unfolding print_line_def by (rule keeps_do_call)

lemma keeps_put_img [keeps_rules]: "key \<noteq> ''volumes'' \<Longrightarrow> keeps (no_volumes k) (put_img key v)"
  by (auto simp: keeps_def put_img_def set_img_def no_volumes_def bindM_apply liftR_def split: sum.splits)

lemma keeps_steps [keeps_rules]:
  "keeps (no_volumes k) (cmd_COPY args)" "keeps (no_volumes k) (cmd_ENV args)" "keeps (no_volumes k) (cmd_WORKDIR args)"
  "keeps (no_volumes k) (cmd_RUN args)" "keeps (no_volumes k) (cmd_CMD args)" "keeps (no_volumes k) (cmd_ENTRYPOINT args)"
  "keeps (no_volumes k) save_metadata"
  unfolding cmd_COPY_def copy_source_def cmd_ENV_def set_env_def cmd_WORKDIR_def cmd_RUN_def cmd_CMD_def
    cmd_ENTRYPOINT_def save_metadata_def abs_path_def Let_def split_beta
  by (intro keeps_rules keeps_calls; simp)+

lemma keeps_execute: "i \<noteq> ''FROM'' \<Longrightarrow> keeps (no_volumes k) (execute n i args :: 'x building)"
proof (cases "map_of handlers i :: (string \<Rightarrow> 'x building) option")
  case (Some h)
  assume "i \<noteq> ''FROM''"
  with handler_cases [OF Some] have "keeps (no_volumes k) (h args)" by (auto intro: keeps_rules)
  then show ?thesis unfolding execute_def Some option.case by (intro keeps_rules keeps_calls; simp)
next
  case None
  then show ?thesis unfolding execute_def None option.case by (intro keeps_rules keeps_calls; simp)
qed

lemma keeps_run_lines: "no_from ls \<Longrightarrow> keeps (no_volumes k) (run_lines n ls)"
  by (induction ls arbitrary: n)
    (auto simp: no_from_def Let_def keeps_ret split: prod.splits intro!: keeps_seqM keeps_execute)

lemma keeps_read:
  assumes "\<And>w t. I (w\<lparr>trace := t\<rparr>) = I w" "\<And>w. I w \<Longrightarrow> keeps I (f (kern w (trace w) c))"
  shows "keeps I (bindM (pycall c) f)"
  using assms by (auto simp: keeps_def bindM_apply pycall_apply split: option.splits)

lemma keeps_read_lines:
  "\<forall>t p. no_from (rnames (k t (FsC (ReadLines p)))) \<Longrightarrow>
   keeps (no_volumes k) (bindM (pycall (FsC (ReadLines path))) (\<lambda>f. run_lines 0 (rnames f)))"
  by (intro keeps_read keeps_run_lines) (auto simp: no_volumes_def)

lemma keeps_clean_up: "keeps (no_volumes k) clean_up"
  unfolding clean_up_def clear_temp_def unmount_jail_defvs_def unmount_def
  by (intro keeps_rules keeps_calls; simp)

lemma keeps_build_steps:
  "\<forall>t p. no_from (rnames (k t (FsC (ReadLines p)))) \<Longrightarrow> keeps (no_volumes k) (build_steps path)"
  unfolding build_steps_def mount_devfs_def nmount_def
  by (rule keeps_bindM, rule keeps_gets, rule keeps_seqM, rule keeps_print, simp, rule keeps_bindM,
      intro keeps_rules keeps_calls; simp add: keeps_read_lines)

lemma keeps_write_image:
  "\<forall>t p. no_from (rnames (k t (FsC (ReadLines p)))) \<Longrightarrow> keeps (no_volumes k) (write_image name tg path root)"
  unfolding write_image_def parse_dockerfile_def
  by (intro keeps_rules keeps_calls keeps_build_steps keeps_clean_up; simp)

lemma new_builder_image: "new_builder root w = (Inr (), w1) \<Longrightarrow> no_volumes (kern w) w1"
  by (auto simp: new_builder_def abspath_def no_volumes_def new_image_def bindM_apply seqM_apply pycall_apply do_call_apply
      split: if_splits option.splits)

text \<open>
  C38.  An image that is built without a FROM has no entry for volumes, and from an image without one no
  container can be made: the server looks for the items of None.
\<close>

theorem image_without_base_unusable:
  assumes "build_image name tg path root (w :: 'x builder_scheme) = (Inr (), w')"
    and "\<forall>t p. no_from (rnames (kern w t (FsC (ReadLines p))))"
  shows "\<exists>d. img w' = JObj d \<and> (\<forall>data (v :: 'y world_scheme). \<exists>e. fst (create_container_json d data v) = Inl e)"
proof -
  obtain w1 where w1: "new_builder root w = (Inr (), w1)" "write_image name tg path root w1 = (Inr (), w')"
    using assms(1) by (auto simp: build_image_def seqM_apply split: prod.splits sum.splits)
  have "no_volumes (kern w) w'"
    using keepsD [OF keeps_write_image [OF assms(2)] new_builder_image [OF w1(1)], of name tg path root] w1(2) by simp
  then obtain d where d: "img w' = JObj d" "map_of d ''volumes'' = None" by (auto simp: no_volumes_def)
  then have "\<exists>e. fst (create_container_json d data v) = Inl e" for data and v :: "'y world_scheme"
    by (cases "container_env d data")
      (auto simp: create_container_json_def Let_def bindM_apply liftR_def handle_container_mounts_def dget_def)
  with d show ?thesis by blast
qed

definition file_env :: "string list \<Rightarrow> syscall list \<Rightarrow> syscall \<Rightarrow> sysret" where
  "file_env ls t c = (case c of FsC (ReadLines _) \<Rightarrow> ok_ret\<lparr>rnames := ls\<rparr> | _ \<Rightarrow> ok_ret)"

theorem image_without_base_unusable_witness:
  "\<exists>(w' :: builder) d. build_image ''web'' ''latest'' ''Dockerfile'' ''/tmp/root''
       (some_builder [] (file_env [''CMD sleep 10''])) = (Inr (), w') \<and> img w' = JObj d \<and>
     map_of d ''command'' = Some (JList [JStr ''sleep'', JStr ''10'']) \<and>
     (\<forall>data (v :: world). \<exists>e. fst (create_container_json d data v) = Inl e)"
proof -
  let ?w = "some_builder [] (file_env [''CMD sleep 10'']) :: builder"
  let ?b = "build_image ''web'' ''latest'' ''Dockerfile'' ''/tmp/root'' ?w"
  have r: "fst ?b = Inr ()" by code_simp
  have c: "(case img (snd ?b) of JObj d \<Rightarrow> map_of d ''command'' = Some (JList [JStr ''sleep'', JStr ''10'']) | _ \<Rightarrow> False)"
    by code_simp
  from r have b: "?b = (Inr (), snd ?b)" by (metis prod.collapse)
  have "no_from [''CMD sleep 10'']" by code_simp
  then have n: "\<forall>t p. no_from (rnames (kern ?w t (FsC (ReadLines p))))"
    by (simp add: some_builder_def file_env_def)
  from image_without_base_unusable [OF b n, where ?'y = unit] c b show ?thesis by (auto split: json.splits)
qed

text \<open>RUN runs its command in the root of the image, whatever WORKDIR said, and reports success whatever
  came of it.\<close>

theorem run_reports_success:
  assumes "quiet w" and "img w = JObj d"
  shows "calls (cmd_RUN command) w = [Print (''[RUN] '' @ command),
      ProcC (Spawn [''chroot'', rootfs w, ''/bin/sh'', ''-c'', command]), Print ''Command completed succesfully'']"
  using assms by (simp add: cmd_RUN_def calls_def seqM_apply bindM_apply finallyM_apply)

text \<open>COPY of one file to a path without a slash at its end makes a directory of that path first: the
  file is copied into it, not to it.\<close>

theorem copy_makes_directory:
  assumes "quiet w" and "shlex_split args = Inr [src, dst]" and "startswith dst ''/''" and "\<not> endswith dst ''/''"
    and "\<forall>t. rv (kern w t (FsC (PathExists src))) = 1" and "\<forall>t. rv (kern w t (FsC (PathIsdir src))) = 0"
  shows "\<exists>m. calls (cmd_COPY args) w =
    [m, FsC (Makedirs (path_join (rootfs w) (lstrip_slash dst))), FsC (PathExists src), FsC (PathIsdir src),
     FsC (Makedirs (dirname (path_join (rootfs w) (lstrip_slash dst)))),
     FsC (Copy2 src (path_join (rootfs w) (lstrip_slash dst)))]"
  using assms
  by (simp add: cmd_COPY_def copy_source_def abs_path_def calls_def seqM_apply bindM_apply do_call_apply Let_def)

end
