(* ===== verification/ClientServer.thy ===== *)
theory ClientServer
  imports Requests Client Containers ImageBuilder
begin

text \<open>
  The command line client and the server: that the server has a handler for what the client asks,
  what a container that is created on the command line is to the server, and what becomes of a volume
  that is named there.
\<close>

section \<open>Requests of the client\<close>

lemma understood_posts [simp]:
  "understood (HttpPost (api ''/api/containers'') j)" "understood (HttpPost (api ''/api/networks'') j)"
  "understood (HttpPost (api ''/api/volumes'') j)" "understood (Print s)" "understood (RandBelow n)"
  by (simp_all add: understood_def received_calls del: received.simps)

lemma understood_lists [simp]:
  "understood (HttpGet (api ''/api/container''))" "understood (HttpGet (api ''/api/container?running=True''))"
  "understood (HttpGet (api ''/api/networks''))" "understood (HttpGet (api ''/api/images''))"
  "understood (HttpGet (api ''/api/volumes''))"
  by (simp_all add: understood_def received_lists del: received.simps)

lemma understood_named:
  assumes "plain name"
  shows "understood (HttpGet (api (container_path name)))"
    "understood (HttpPost (api (container_path name @ ''/start'')) j)"
    "understood (HttpPost (api (container_path name @ ''/stop'')) j)"
    "understood (HttpDelete (api (container_path name @ ''/delete'')))"
    "understood (HttpPost (api (''/api/networks/'' @ name @ ''/start'')) j)"
    "understood (HttpPost (api (''/api/networks/'' @ name @ ''/attach'')) j)"
  using received_named [OF assms]
  by (simp_all add: understood_def container_path_def del: received.simps)

text \<open>The names that a command puts in the path of a request.\<close>

fun cli_names :: "cli_command \<Rightarrow> string list" where
  "cli_names (ContainerStart name) = [name]"
| "cli_names (ContainerStop name) = [name]"
| "cli_names (ContainerInspect name) = [name]"
| "cli_names (ContainerRm name) = [name]"
| "cli_names (NetworksStart name) = [name]"
| "cli_names (NetworksAttach network container) = [network]"
| "cli_names (ExecCommand name cmd) = [name]"
| "cli_names _ = []"

lemmas cli_defs = cli_list_containers_def cli_list_networks_def cli_list_volumes_def cli_list_images_def print_table_def
  print_row_def cli_start_network_def start_listed_def prestart_container_def print_status_def cli_start_container_def
  cli_stop_container_def print_setting_def handle_networks_create_def failed_answer_def cli_remove_container_def
  cli_attach_network_def cli_get_container_def handle_inspect_container_def unit_of_def request_defs

lemma emits_exec: "emits local_call (container_exec container command)"
  unfolding container_exec_def jail_attach_def get_jail_id_by_name_def jail_attach_wrapper_def enter_and_run_def
    run_command_def exec_failed_def Let_def
  by (intro emits_rules; simp)

lemma understood_list_commands:
  "emits understood (cli_list_containers b)" "emits understood cli_list_networks" "emits understood cli_list_volumes"
  "emits understood cli_list_images" "emits understood (handle_networks_create n d sn g)"
  unfolding cli_defs if_distrib [of http_get] by (intro emits_rules; simp)+

lemma understood_made: "emits understood (cli_create_container system a)" "emits understood (cli_create_volume name)"
  by (intro emits_rules; simp)+

lemma understood_named_commands:
  assumes "plain name"
  shows "emits understood (cli_stop_container name)" "emits understood (handle_inspect_container name)"
    "emits understood (cli_remove_container name)" "emits understood (cli_attach_network name container)"
    "emits understood (cli_start_network (JStr name))" "emits understood (pre_exec name args)"
proof -
  have e: "emits understood (container_exec d j)" for d j
    by (rule emits_weaken [OF emits_exec]) simp
  show "emits understood (cli_stop_container name)" "emits understood (handle_inspect_container name)"
    "emits understood (cli_remove_container name)" "emits understood (cli_attach_network name container)"
    "emits understood (cli_start_network (JStr name))"
    unfolding cli_defs by (intro emits_rules; (rule understood_named [OF assms] | simp add: understood_named(5) [OF assms, simplified]))+
  show "emits understood (pre_exec name args)"
    unfolding pre_exec_def request_defs
    by (intro emits_rules e; (rule understood_named [OF assms] | simp))
qed

text \<open>The start of a container is preceded by that of the networks the server lists, whose names are not
  the client's.\<close>

definition answered :: "syscall \<Rightarrow> bool" where
  "answered c \<longleftrightarrow> understood c \<or> (\<exists>n. c = network_start n \<and> \<not> plain n)"

lemma answered_understood: "understood c \<Longrightarrow> answered c"
  by (simp add: answered_def)

lemma answered_start: "answered (HttpPost (api (''/api/networks/'' @ n @ ''/start'')) JNull)"
  using understood_named(5) [of n JNull] by (auto simp: answered_def network_start_def)

lemma answered_network_start [emits_rules]: "emits answered (cli_start_network j)"
  unfolding cli_defs by (intro emits_rules answered_start answered_understood; simp)

lemma answered_container_start:
  assumes "plain name"
  shows "emits answered (cli_start_container name)"
proof -
  have n: "emits answered (start_listed j)" for j
    unfolding start_listed_def by (intro emits_rules answered_understood; simp)
  show ?thesis
    unfolding cli_start_container_def prestart_container_def print_status_def print_row_def request_defs
    by (intro emits_rules n answered_understood; (rule understood_named [OF assms] | simp))
qed

lemma understood_command:
  assumes "list_all plain (cli_names cmd)" and "\<nexists>name. cmd = ContainerStart name"
  shows "emits understood (cli_main system cmd)"
  using assms
  by (cases cmd) (auto simp: unit_of_def understood_list_commands intro!: emits_rules understood_named_commands understood_made)

text \<open>What the client prints is nothing to the server.\<close>

lemma deliver_prints: "list_all (\<lambda>c. \<exists>s. c = Print s) cs \<Longrightarrow> deliver cs = ret ()"
  by (induction cs) (auto simp: deliver_def)

section \<open>Properties\<close>

text \<open>
  C34.  Every request of the client is one the server has a handler for, whatever the command and
  whatever it is answered, when the names in the command are segments of a path.  The one exception is
  the start of a container whose networks, as the server lists them, have names that are no segment of
  a path: the start of such a network may go astray.
\<close>

theorem client_requests_understood:
  assumes "list_all plain (cli_names cmd)" and "c \<in> set (calls (cli_main system cmd) w)"
  shows "understood c \<or> (\<exists>name n. cmd = ContainerStart name \<and> c = network_start n \<and> \<not> plain n)"
proof (cases "\<exists>name. cmd = ContainerStart name")
  case True
  then obtain name where cmd: "cmd = ContainerStart name" by blast
  with assms(1) have "plain name" by simp
  from emits_calls [OF answered_container_start [OF this]] assms(2) show ?thesis
    by (auto simp: cmd answered_def)
next
  case False
  from emits_calls [OF understood_command [OF assms(1) False] assms(2)] show ?thesis ..
qed

theorem client_requests_understood_witness:
  "let w = (\<lparr>kern = \<lambda>_ _. ok_ret, trace = []\<rparr> :: world); c = network_start ''web''
   in c \<in> set (calls (cli_main ''FreeBSD'' (NetworksStart ''web'')) w) \<and> understood c"
proof -
  let ?w = "\<lparr>kern = \<lambda>_ _. ok_ret, trace = []\<rparr> :: world" and ?c = "network_start ''web''"
  have p: "list_all plain (cli_names (NetworksStart ''web''))" by (simp add: plain_def)
  have "list_ex (\<lambda>c. c = ?c) (calls (cli_main ''FreeBSD'' (NetworksStart ''web'')) ?w)" by code_simp
  then have c: "?c \<in> set (calls (cli_main ''FreeBSD'' (NetworksStart ''web'')) ?w)" by (simp add: list_ex_iff)
  with client_requests_understood [OF p c] show ?thesis by (simp add: Let_def)
qed

text \<open>
  C32.  From the command line to the table: what a container that is created without mounts is to the
  server is the request with exactly what was written: its name and image, the command if there is one,
  each setting of the environment a key with its value, the working directory and the networks if they
  are given, each published port a pair of numbers with its protocol, TCP if none is given, no mounts,
  the restart policy and whether it is to be removed.
\<close>

theorem cli_create_delivered:
  assumes "quiet w" "a_name a = Some name" "name \<noteq> []" "a_image a \<noteq> []" "a_volume a = None"
    and "a_env a = Some (map env_text envs)" "distinct (map fst envs)"
    and "\<forall>(k, v) \<in> set envs. CHR ''='' \<notin> set k \<and> CHR ''='' \<notin> set v"
    and "a_publish a = Some (map port_text ports)" "list_all known_proto ports"
  shows "snd (deliver (calls (cli_create_container system a) w) sv) =
    snd (serve (CreateContainer (JObj (
      [(''name'', JStr name), (''image'', JStr (a_image a))] @
      (case a_cmd a of [] \<Rightarrow> [] | c # cs \<Rightarrow> [(''command'', JList (map JStr (c # cs)))]) @
      [(''env'', JObj (map (\<lambda>(k, v). (k, JStr v)) envs))] @
      (case a_workdir a of Some (c # dir) \<Rightarrow> [(''workingDir'', JStr (c # dir))] | _ \<Rightarrow> []) @
      (case a_network a of Some (n # ns) \<Rightarrow> [(''networks'', JList (map JStr (n # ns)))] | _ \<Rightarrow> []) @
      (case ports of [] \<Rightarrow> [] | _ \<Rightarrow> [(''ports'', JList (map (\<lambda>(host, container, proto).
         JObj [(''host'', JInt (int host)), (''container'', JInt (int container)),
           (''proto'', JStr (case proto of None \<Rightarrow> ''tcp'' | Some s \<Rightarrow> s))]) ports))]) @
      [(''mounts'', JObj []), (''restart'', JStr (a_restart a)), (''rm'', JBool (a_rm a))]))) sv)"
    (is "_ = snd (serve (CreateContainer ?body) sv)")
proof -
  obtain after where c: "calls (cli_create_container system a) w =
      HttpPost (api ''/api/containers'')
        (create_body a name (map (\<lambda>(k, v). (k, JStr v)) envs) (map port_json ports) []) # after"
    "list_all (\<lambda>c. \<exists>s. c = Print s) after"
    using create_request [OF assms] by blast
  have "create_body a name (map (\<lambda>(k, v). (k, JStr v)) envs) (map port_json ports) [] = ?body"
    by (simp add: create_body_def texts_entry_def optional_text_def given_def port_json_def
        split: list.split option.split)
  then show ?thesis
    unfolding c(1) by (subst deliver_Cons [OF received_calls(4)])
      (simp add: deliver_prints [OF c(2)] seqM_apply bindM_apply split: prod.splits sum.splits)
qed

definition web_args :: create_args where
  "web_args = some_args\<lparr>a_env := Some [env_text (''KEY'', ''v'')], a_publish := Some [port_text (8080, 80, None)],
     a_network := Some [''front'']\<rparr>"

theorem cli_create_delivered_witness:
  "\<forall>sv :: server. snd (deliver (calls (cli_create_container ''FreeBSD'' web_args) (\<lparr>kern = \<lambda>_ _. ok_ret, trace = []\<rparr> :: world)) sv) =
   snd (serve (CreateContainer (JObj [(''name'', JStr ''web''), (''image'', JStr ''redis:8.2.3''),
     (''env'', JObj [(''KEY'', JStr ''v'')]), (''networks'', JList [JStr ''front'']),
     (''ports'', JList [JObj [(''host'', JInt 8080), (''container'', JInt 80), (''proto'', JStr ''tcp'')]]),
     (''mounts'', JObj []), (''restart'', JStr ''no''), (''rm'', JBool False)])) sv)"
proof -
  let ?w = "\<lparr>kern = \<lambda>_ _. ok_ret, trace = []\<rparr> :: world"
  have q: "quiet ?w" by (simp add: quiet_def ok_ret_def)
  have a: "a_name web_args = Some ''web''" "''web'' \<noteq> []" "a_image web_args \<noteq> []" "a_volume web_args = None"
    "a_env web_args = Some (map env_text [(''KEY'', ''v'')])" "distinct (map fst [(''KEY'', ''v'')])"
    "\<forall>(k, v) \<in> set [(''KEY'', ''v'')]. CHR ''='' \<notin> set k \<and> CHR ''='' \<notin> set v"
    "a_publish web_args = Some (map port_text [(8080, 80, None)])" "list_all known_proto [(8080, 80, None)]"
    by (simp_all add: web_args_def some_args_def known_proto_def)
  have f: "a_cmd web_args = []" "a_workdir web_args = None" "a_network web_args = Some [''front'']"
    "a_restart web_args = ''no''" "a_rm web_args = False" "a_image web_args = ''redis:8.2.3''"
    by (simp_all add: web_args_def some_args_def)
  show ?thesis
  proof
    fix sv :: server
    from cli_create_delivered [OF q a, of "''FreeBSD''" sv]
    show "snd (deliver (calls (cli_create_container ''FreeBSD'' web_args) ?w) sv) =
      snd (serve (CreateContainer (JObj [(''name'', JStr ''web''), (''image'', JStr ''redis:8.2.3''),
        (''env'', JObj [(''KEY'', JStr ''v'')]), (''networks'', JList [JStr ''front'']),
        (''ports'', JList [JObj [(''host'', JInt 8080), (''container'', JInt 80), (''proto'', JStr ''tcp'')]]),
        (''mounts'', JObj []), (''restart'', JStr ''no''), (''rm'', JBool False)])) sv)"
      by (simp add: f)
  qed
qed

section \<open>A named volume\<close>

text \<open>A name of a volume, and a path in a container, as they are written in a mount.\<close>

definition volume_name :: "string \<Rightarrow> bool" where
  "volume_name n \<longleftrightarrow> \<not> startswith n ''.'' \<and> list_all (\<lambda>c. c \<notin> {CHR '':'', CHR ''/'', CHR 0x5C}) n"

definition mount_target :: "string \<Rightarrow> bool" where
  "mount_target p \<longleftrightarrow> startswith p ''/'' \<and> CHR '':'' \<notin> set p"

lemma mount_split:
  assumes "volume_name n" "mount_target p"
  shows "splitc CHR '':'' (n @ CHR '':'' # p) = [n, p]"
proof -
  have "CHR '':'' \<notin> set n" "CHR '':'' \<notin> set p"
    using assms by (simp_all add: volume_name_def mount_target_def list_all_iff) blast
  then show ?thesis by (simp add: splitc_append_sep splitc_notin)
qed

lemma classify_volume:
  assumes "volume_name n" "mount_target p"
  shows "classify_mount system (n @ CHR '':'' # p) = Inr ''volume''"
proof -
  have c: "CHR ''/'' \<notin> set n" "CHR 0x5C \<notin> set n" "\<not> drive_path n" "\<not> startswith n ''.''"
    "\<not> startswith n ''/''" "\<not> startswith n [CHR 0x5C, CHR 0x5C]"
    using assms(1) by (cases n rule: drive_path.cases; auto simp: volume_name_def list_all_iff startswith_def)+
  then show ?thesis
    by (simp add: classify_mount_def mount_split [OF assms] Let_def)
qed

lemma parse_named_volume:
  assumes "volume_name n" "mount_target p" "parse_volumes system [n @ CHR '':'' # p] [] w = (Inr (Some vols), w')"
  shows "vols = [(n, mount_entry ''volume'' p False)]"
  using assms(3)
  by (auto simp: mount_split [OF assms(1,2)] classify_volume [OF assms(1,2)] mount_key_def bindM_apply
      split: prod.splits sum.splits)

text \<open>Linking a container to a volume that is not there makes it.\<close>

lemma link_new_volume:
  assumes "quiet w" "s \<notin> v_name ` set (volumes (cur w))"
    and "\<forall>r \<in> set (volume_containers (cur w)). vc_container r \<noteq> cid"
  shows "\<exists>row link w'. link_volume cid (mount_json (JStr ''volume'') (JStr s) t ro) w = (Inr (), w') \<and>
    trace w' = trace w @ [FsC (Makedirs (path_join ManagerState.VOLUME_MOUNT_ROOT s)), Now] \<and>
    volumes (cur w') = volumes (cur w) @ [row] \<and> v_name row = s \<and> v_path row = s \<and>
    volume_containers (cur w') = volume_containers (cur w) @ [link] \<and> vc_volume link = v_id row \<and> vc_container link = cid"
proof -
  have new: "(v, cid) \<notin> (\<lambda>r. (vc_volume r, vc_container r)) ` set (volume_containers (cur w))" for v
    using assms(3) by auto
  show ?thesis
    using assms(1,2) new
    by (simp add: link_volume_def mount_json_def comp_simps sql_run_def sql_exec_def sql_query_def insert_volume_row_def
        insert_volume_container_def or_ignore_def insert_row_def find_new_row not_null_def)
qed

text \<open>
  C33.  A volume that is named on the command line is not the one the container gets.  The client sends
  the name as the key and the path in the container as the source of the mount; the server takes the
  key for the path and the source for the volume.  It makes the directory of the path on the host,
  outside the root of the volumes, and links the container to a new volume with the path for a name.
\<close>

theorem named_volume_misplaced:
  assumes "volume_name n" and "mount_target p"
    and "parse_volumes system [n @ CHR '':'' # p] [] w = (Inr (Some vols), w')"
    and "quiet (v :: 'x mgr_scheme)" and "p \<notin> v_name ` set (volumes (cur v))"
    and "\<forall>r \<in> set (volume_containers (cur v)). vc_container r \<noteq> cid"
  shows "\<exists>ms v'. user_mounts vols [] = Inr ms \<and>
    dget ms n JNull = mount_json (JStr ''volume'') (JStr p) n (JBool False) \<and>
    link_container_volumes (sorted_mounts ms) cid v = (Inr (), v') \<and>
    trace v' = trace v @ [FsC (Makedirs p), Now] \<and>
    (\<exists>row. volumes (cur v') = volumes (cur v) @ [row] \<and> v_name row = p \<and> v_path row = p \<and>
      (\<forall>r \<in> set (volume_containers (cur v')). vc_container r = cid \<longrightarrow> vc_volume r = v_id row))"
proof -
  let ?m = "mount_json (JStr ''volume'') (JStr p) n (JBool False)"
  have v: "vols = [(n, mount_entry ''volume'' p False)]" by (rule parse_named_volume [OF assms(1-3)])
  have u: "user_mounts vols [] = Inr [(n, ?m)]" by (simp add: v mount_entry_def dget_def)
  have s: "sorted_mounts [(n, ?m)] = [?m]" "dget [(n, ?m)] n JNull = ?m" by (simp_all add: sorted_mounts_def dget_def)
  have p: "path_join ManagerState.VOLUME_MOUNT_ROOT p = p" using assms(2) by (simp add: path_join_def mount_target_def)
  from link_new_volume [OF assms(4-6), of n "JBool False"] show ?thesis
    unfolding u using assms(6) by (auto simp: s p link_container_volumes_def seqM_apply)
qed

theorem named_volume_misplaced_witness:
  "\<exists>vols ms v'. fst (parse_volumes ''FreeBSD'' [''data:/srv''] [] (\<lparr>kern = \<lambda>_ _. ok_ret, trace = []\<rparr> :: world)) = Inr (Some vols) \<and>
     user_mounts vols [] = Inr ms \<and>
     link_container_volumes (sorted_mounts ms) 1 (example_mgr (empty_db [])) = (Inr (), v') \<and>
     trace v' = [FsC (Makedirs ''/srv''), Now] \<and> map v_name (volumes (cur v')) = [''/srv'']"
proof -
  let ?w = "\<lparr>kern = \<lambda>_ _. ok_ret, trace = []\<rparr> :: world" and ?v = "example_mgr (empty_db [])"
  have "(case fst (parse_volumes ''FreeBSD'' [''data:/srv''] [] ?w) of Inr (Some _) \<Rightarrow> True | _ \<Rightarrow> False)" by code_simp
  then obtain vols w' where f: "parse_volumes ''FreeBSD'' [''data'' @ CHR '':'' # ''/srv''] [] ?w = (Inr (Some vols), w')"
    by (cases "parse_volumes ''FreeBSD'' [''data:/srv''] [] ?w") (auto split: sum.splits option.splits)
  have n: "volume_name ''data''" "mount_target ''/srv''" by code_simp+
  have v: "quiet ?v" "''/srv'' \<notin> v_name ` set (volumes (cur ?v))"
    "\<forall>r \<in> set (volume_containers (cur ?v)). vc_container r \<noteq> 1" "volumes (cur ?v) = []" "trace ?v = []"
    by (simp_all add: example_mgr_def empty_db_def quiet_def ok_ret_def)
  from named_volume_misplaced [OF n f v(1-3)] obtain ms v' row where
    "user_mounts vols [] = Inr ms" "link_container_volumes (sorted_mounts ms) 1 ?v = (Inr (), v')"
    "trace v' = [FsC (Makedirs ''/srv''), Now]" "map v_name (volumes (cur v')) = [''/srv'']"
    unfolding v(4,5) by auto
  with f show ?thesis by (intro exI conjI) (simp_all del: parse_volumes.simps)
qed

end
