(* ===== verification/EndToEnd.thy ===== *)
theory EndToEnd
  imports ClientServer
begin

text \<open>
  The command line client on a server: every request of the client is answered by what the server
  says to it, in the state that the requests before have left.  This closes the loop that the other
  theories leave open, where the answers are the environment's.
\<close>

section \<open>A client on a server\<close>

text \<open>The answer to a request as the client sees it.  \<open>content\<close> gives the body of an answer as text.  The
  body of an answer is no JSON when it is empty or the page of an internal error.\<close>

definition answer_of :: "(json \<Rightarrow> string) \<Rightarrow> response \<Rightarrow> sysret" where
  "answer_of content resp = (case resp of (status, body) \<Rightarrow>
     ok_ret\<lparr>rv := int status, rjson := body, rtext := content body,
       rflag0 := (if status = 500 \<or> body = JStr [] then 1 else 0)\<rparr>)"

text \<open>The answer of the server to one call after others.  A path without a route is not found; a server
  that has ended refuses the connection.\<close>

definition answers :: "(json \<Rightarrow> string) \<Rightarrow> 'x server_scheme \<Rightarrow> syscall list \<Rightarrow> syscall \<Rightarrow> sysret" where
  "answers content sv before c = (case received c of
       None \<Rightarrow> if is_request c then answer_of content (404, JStr []) else ok_ret
     | Some rq \<Rightarrow> (case fst (serve rq (snd (deliver before sv))) of
           Inl e \<Rightarrow> ok_ret\<lparr>raises := Some connection_error\<rparr>
         | Inr resp \<Rightarrow> answer_of content resp))"

definition client_on :: "(json \<Rightarrow> string) \<Rightarrow> 'x server_scheme \<Rightarrow> world" where
  "client_on content sv = \<lparr>kern = answers content sv, trace = []\<rparr>"

text \<open>The server after the client has run.\<close>

definition server_after :: "(world, 'a) comp \<Rightarrow> (json \<Rightarrow> string) \<Rightarrow> 'x server_scheme \<Rightarrow> 'x server_scheme" where
  "server_after m content sv = snd (deliver (calls m (client_on content sv)) sv)"

section \<open>Running\<close>

lemma deliver_append: "deliver (cs @ ds) = seqM (deliver cs) (deliver ds)"
  by (induction cs) (simp_all add: deliver_def seqM_assoc)

text \<open>A client in the middle of its work: what it has called so far, and the state of the server.\<close>

definition at_work :: "(json \<Rightarrow> string) \<Rightarrow> 'x server_scheme \<Rightarrow> syscall list \<Rightarrow> 'x server_scheme \<Rightarrow> world \<Rightarrow> bool" where
  "at_work content sv cs sv' w \<longleftrightarrow> w = \<lparr>kern = answers content sv, trace = cs\<rparr> \<and> deliver cs sv = (Inr (), sv')"

lemma at_work_start: "at_work content sv [] sv (client_on content sv)"
  by (simp add: at_work_def client_on_def)

lemma work_request:
  assumes "at_work content sv cs sv' w" "received c = Some rq" "serve rq sv' = (Inr resp, sv'')"
  shows "\<exists>w'. pycall c w = (Inr (answer_of content resp), w') \<and> at_work content sv (cs @ [c]) sv'' w'"
  using assms
  by (auto simp: at_work_def pycall_apply answers_def deliver_append deliver_Cons seqM_apply bindM_apply answer_of_def
      ok_ret_def split: prod.splits)

lemma deliver_print [simp]: "deliver [Print s] = ret ()"
  by (rule deliver_prints) simp

lemma work_print:
  assumes "at_work content sv cs sv' w"
  shows "\<exists>w'. print_line s w = (Inr (), w') \<and> at_work content sv (cs @ [Print s]) sv' w'"
  using assms
  by (simp add: at_work_def print_line_def do_call_apply answers_def deliver_append seqM_apply is_request_def ok_ret_def)

lemma work_lines:
  assumes "at_work content sv cs sv' w" "\<forall>x \<in> set xs. line (obj x) = (print_line (text_of x) :: (world, unit) comp)"
  shows "\<exists>w'. forM (map obj xs) line w = (Inr (), w') \<and> at_work content sv (cs @ map (\<lambda>x. Print (text_of x)) xs) sv' w'"
  using assms
proof (induction xs arbitrary: cs w)
  case (Cons x xs)
  obtain w1 where w1: "print_line (text_of x) w = (Inr (), w1)" "at_work content sv (cs @ [Print (text_of x)]) sv' w1"
    using work_print [OF Cons.prems(1)] by blast
  from Cons.IH [OF w1(2)] Cons.prems(2) w1(1) show ?case by (simp add: seqM_apply)
qed simp

text \<open>What has been called, when the client is done.\<close>

lemma work_done:
  assumes "m (client_on content sv) = (r, w)" "at_work content sv cs sv' w"
  shows "calls m (client_on content sv) = cs" "server_after m content sv = sv'"
  using assms by (auto simp: calls_def at_work_def server_after_def client_on_def)

lemma json_answer: "status \<noteq> 500 \<Longrightarrow> j \<noteq> JStr [] \<Longrightarrow> res_json (answer_of content (status, j)) = Inr j"
  by (simp add: res_json_def answer_of_def ok_ret_def)

lemma answer_status: "rv (answer_of content (status, j)) = int status"
  by (simp add: answer_of_def)

section \<open>Lists\<close>

text \<open>A list that the server gives is printed under its header, a line for each item.\<close>

lemma table_printed:
  assumes "received (HttpGet (api path)) = Some rq"
    and "serve rq (sv :: 'x server_scheme) = (Inr (200, JList (map obj rows)), sv)"
    and "\<forall>r \<in> set rows. line (obj r) = (print_line (text_of r) :: (world, unit) comp)"
  shows "calls (print_table path header line) (client_on content sv) =
      [HttpGet (api path), Print header] @ map (\<lambda>r. Print (text_of r)) rows"
    and "server_after (print_table path header line) content sv = sv"
proof -
  let ?g = "HttpGet (api path)"
  obtain w1 where w1: "pycall ?g (client_on content sv) = (Inr (answer_of content (200, JList (map obj rows))), w1)"
    "at_work content sv ([] @ [?g]) sv w1"
    using work_request [OF at_work_start assms(1,2)] by blast
  obtain w2 where w2: "print_line header w1 = (Inr (), w2)" "at_work content sv (([] @ [?g]) @ [Print header]) sv w2"
    using work_print [OF w1(2)] by blast
  obtain w3 where w3: "forM (map obj rows) line w2 = (Inr (), w3)"
    "at_work content sv ((([] @ [?g]) @ [Print header]) @ map (\<lambda>r. Print (text_of r)) rows) sv w3"
    using work_lines [where obj = obj and line = line and text_of = text_of, OF w2(2) assms(3)] by blast
  have run: "print_table path header line (client_on content sv) = (Inr (), w3)"
    using w1(1) w2(1) w3(1) by (simp add: print_table_def http_get_def json_answer bindM_apply seqM_apply)
  from work_done [where m = "print_table path header line", OF run w3(2)]
  show "calls (print_table path header line) (client_on content sv) =
      [HttpGet (api path), Print header] @ map (\<lambda>r. Print (text_of r)) rows"
    "server_after (print_table path header line) content sv = sv" by simp_all
qed

text \<open>A line of the list of containers and of the list of volumes: a number stands to the right, a name to
  the left.\<close>

definition number_field :: "nat \<Rightarrow> nat \<Rightarrow> string" where
  "number_field n i = replicate (n - length (dec_int (int i))) CHR '' '' @ dec_int (int i)"

definition text_field :: "nat \<Rightarrow> string \<Rightarrow> string" where
  "text_field n s = s @ replicate (n - length s) CHR '' ''"

definition container_line :: "container_row \<Rightarrow> string" where
  "container_line r = number_field 13 (c_id r) @ '' '' @ text_field 8 (c_name r) @ '' '' @ c_status r"

definition volume_line :: "volume_row \<Rightarrow> string" where
  "volume_line r = number_field 13 (v_id r) @ '' '' @ v_name r"

lemma container_items:
  "serve (ListContainers (if show_all then None else Some ''True'')) sv =
     (Inr (200, JList (map (\<lambda>r. JObj [(''id'', jnat (c_id r)), (''name'', JStr (c_name r)), (''status'', JStr (c_status r))])
        (filter (\<lambda>r. show_all \<or> c_status r = ''running'') (containers (cur sv))))), sv)"
  by (cases show_all) (simp_all add: serve_def list_containers_def list_jails_def comp_simps sql_query_def)

lemma volume_items:
  "serve ListVolumes sv = (Inr (200, JList (map (\<lambda>r. JObj [(''id'', jnat (v_id r)), (''name'', JStr (v_name r)),
     (''driver'', JStr (v_driver r)), (''created_at'', JStr (v_created r))]) (volumes (cur sv)))), sv)"
  by (simp add: serve_def list_volumes_def get_volumes_def comp_simps sql_query_def)

text \<open>
  C30.  \<open>container ps\<close> on a server prints a line for every running container, with \<open>-a\<close> for every
  container of the table, in its order, and \<open>volumes ls\<close> for every volume; the server is left as it was.
\<close>

theorem lists_print_tables:
  "calls (cli_main system (ContainerPs show_all)) (client_on content sv) =
     [HttpGet (api (if show_all then ''/api/container'' else ''/api/container?running=True'')),
      Print ''CONTAINER ID   NAME     STATUS''] @
     map (\<lambda>r. Print (container_line r)) (filter (\<lambda>r. show_all \<or> c_status r = ''running'') (containers (cur sv))) \<and>
   calls (cli_main system VolumesLs) (client_on content sv) =
     [HttpGet (api ''/api/volumes''), Print (''ID'' @ replicate 11 CHR '' '' @ '' NAME'')] @
     map (\<lambda>r. Print (volume_line r)) (volumes (cur sv)) \<and>
   server_after (cli_main system (ContainerPs show_all)) content sv = sv \<and>
   server_after (cli_main system VolumesLs) content sv = sv"
proof -
  let ?rows = "filter (\<lambda>r. show_all \<or> c_status r = ''running'') (containers (cur sv))"
  have rq: "received (HttpGet (api (if show_all then ''/api/container'' else ''/api/container?running=True''))) =
      Some (ListContainers (if show_all then None else Some ''True''))"
    using received_lists by (simp del: received.simps)
  have "calls (cli_main system (ContainerPs show_all)) (client_on content sv) =
      [HttpGet (api (if show_all then ''/api/container'' else ''/api/container?running=True'')),
       Print ''CONTAINER ID   NAME     STATUS''] @ map (\<lambda>r. Print (container_line r)) ?rows"
    "server_after (cli_main system (ContainerPs show_all)) content sv = sv"
    unfolding cli_main.simps cli_list_containers_def
    by (rule table_printed [OF rq container_items];
        auto simp: print_row_def container_line_def number_field_def text_field_def)+
  moreover have "calls (cli_main system VolumesLs) (client_on content sv) =
      [HttpGet (api ''/api/volumes''), Print (''ID'' @ replicate 11 CHR '' '' @ '' NAME'')] @
      map (\<lambda>r. Print (volume_line r)) (volumes (cur sv))"
    "server_after (cli_main system VolumesLs) content sv = sv"
    unfolding cli_main.simps cli_list_volumes_def
    by (rule table_printed [OF received_lists(5) volume_items];
        auto simp: print_row_def volume_line_def number_field_def)+
  ultimately show ?thesis by simp
qed

section \<open>Starting a container\<close>

lemma container_answer:
  assumes "container_named name (cur sv) = Some r" "joined_networks (c_id r) (cur sv) = []"
    and "map_of (c_config r) ''id'' = None"
  shows "\<exists>d. serve (GetContainerJson name) sv = (Inr (200, JObj d), sv) \<and> dget d ''networks'' (JList []) = JList []"
  using assms
  by (auto simp: serve_def get_container_json_def get_container_def comp_simps sql_query_def
      Let_def dget_def map_of_update map_of_dmerge_other container_columns_def)

lemma start_answer:
  assumes "quiet (sv :: 'x server_scheme)" "worker sv" "container_named name (cur sv) = Some r" "\<not> is_up (c_status r)"
  shows "serve (StartContainer name) sv =
    (Inr (200, JObj [(''container'', JStr name), (''status'', JStr ''running'')]),
     sv\<lparr>trace := trace sv @ [SendWorker (name @ [CHR 0x0A])],
        cur := update_status (\<lambda>x. c_id x = c_id r) ''running'' (cur sv),
        saved := update_status (\<lambda>x. c_id x = c_id r) ''running'' (cur sv)\<rparr>)"
  using assms
  by (simp add: serve_def start_container_def start_jail_def send_worker_def status_answer_def comp_simps sql_query_def
      sql_run_def sql_exec_def)

text \<open>
  C29.  From the command line to the worker: \<open>container start\<close> of a container that is there, is not up and
  is in no network makes the server send the worker exactly the line of its name and commit the status
  \<open>running\<close> of that container, and prints both.  Its configuration has no entry \<open>id\<close>, as none that
  \<open>create_container\<close> stores has one (\<open>create_container_json_keys\<close>).
\<close>

theorem start_from_command_line:
  assumes "quiet (sv :: 'x server_scheme)" and "worker sv" and "plain name"
    and "container_named name (cur sv) = Some r" and "\<not> is_up (c_status r)" and "joined_networks (c_id r) (cur sv) = []"
    and "map_of (c_config r) ''id'' = None"
  shows "calls (cli_main system (ContainerStart name)) (client_on content sv) =
      [HttpGet (api (container_path name)), HttpPost (api (container_path name @ ''/start'')) JNull,
       Print ''NAME        STATUS '', Print (text_field 15 name @ '' '' @ text_field 15 ''running'')] \<and>
    server_after (cli_main system (ContainerStart name)) content sv =
      sv\<lparr>trace := trace sv @ [SendWorker (name @ [CHR 0x0A])],
        cur := update_status (\<lambda>x. c_id x = c_id r) ''running'' (cur sv),
        saved := update_status (\<lambda>x. c_id x = c_id r) ''running'' (cur sv)\<rparr>" (is "_ \<and> _ = ?sv")
proof -
  let ?m = "cli_main system (ContainerStart name) :: (world, unit) comp"
  let ?g = "HttpGet (api (container_path name))" and ?p = "HttpPost (api (container_path name @ ''/start'')) JNull"
  let ?h = "''NAME        STATUS ''" and ?l = "text_field 15 name @ '' '' @ text_field 15 ''running''"
  let ?up = "JObj [(''container'', JStr name), (''status'', JStr ''running'')]"
  have rq: "received ?g = Some (GetContainerJson name)" "received ?p = Some (StartContainer name)"
    using received_named [OF assms(3)] by (simp_all add: container_path_def del: received.simps)
  obtain d where d: "serve (GetContainerJson name) sv = (Inr (200, JObj d), sv)" "dget d ''networks'' (JList []) = JList []"
    using container_answer [OF assms(4,6,7)] by blast
  obtain w1 where w1: "pycall ?g (client_on content sv) = (Inr (answer_of content (200, JObj d)), w1)"
    "at_work content sv [?g] sv w1"
    using work_request [OF at_work_start rq(1) d(1)] by auto
  obtain w2 where w2: "pycall ?p w1 = (Inr (answer_of content (200, ?up)), w2)" "at_work content sv [?g, ?p] ?sv w2"
    using work_request [OF w1(2) rq(2) start_answer [OF assms(1,2,4,5)]] by auto
  obtain w3 where w3: "print_line ?h w2 = (Inr (), w3)" "at_work content sv [?g, ?p, Print ?h] ?sv w3"
    using work_print [OF w2(2), of ?h] by auto
  obtain w4 where w4: "print_line ?l w3 = (Inr (), w4)" "at_work content sv [?g, ?p, Print ?h, Print ?l] ?sv w4"
    using work_print [OF w3(2), of ?l] by auto
  have "?m (client_on content sv) = (Inr (), w4)"
    using w1(1) w2(1) w3(1) w4(1) d(2)
    by (simp add: cli_start_container_def prestart_container_def print_status_def print_row_def request_defs
        json_answer answer_status bindM_apply seqM_apply text_field_def)
  from work_done [where m = ?m, OF this w4(2)]
  show ?thesis by simp
qed

text \<open>The witness is the container of the examples, on a server that has just begun.\<close>

theorem start_from_command_line_witness:
  "\<exists>sv' :: server. server_after (cli_main ''FreeBSD'' (ContainerStart ''web'')) (\<lambda>_. []) (example_server (container_db ''created'')) = sv' \<and>
     trace sv' = [SendWorker (''web'' @ [CHR 0x0A])] \<and> map c_status (containers (saved sv')) = [''running'']"
proof -
  let ?sv = "example_server (container_db ''created'')" and ?r = "example_container"
  have q: "quiet ?sv" "worker ?sv" by (simp_all add: example_server_def quiet_def ok_ret_def)
  have p: "plain ''web''" by (simp add: plain_def)
  have r: "container_named ''web'' (cur ?sv) = Some ?r" "\<not> is_up (c_status ?r)" "joined_networks (c_id ?r) (cur ?sv) = []"
    "map_of (c_config ?r) ''id'' = None"
    by (simp_all add: container_named_def find_row_def example_server_def container_db_def example_container_def is_up_def
        joined_networks_def empty_db_def)
  from start_from_command_line [OF q p r, of "''FreeBSD''" "\<lambda>_. []"] show ?thesis
    by (simp add: example_server_def container_db_def example_container_def update_status_def)
qed

section \<open>Making a volume\<close>

lemma volume_answer:
  assumes "quiet (sv :: 'x server_scheme)" "name \<notin> v_name ` set (volumes (cur sv))"
  shows "\<exists>sv' row. serve (CreateVolume (JObj [(''name'', JStr name)])) sv =
      (Inr (201, JObj [(''ID'', jnat (v_id row)), (''name'', JStr name)]), sv') \<and>
    volumes (saved sv') = volumes (cur sv) @ [row] \<and> cur sv' = saved sv' \<and> kern sv' = kern sv \<and>
    v_name row = name \<and> v_path row = path_join ManagerState.VOLUME_MOUNT_ROOT name \<and>
    trace sv' = trace sv @ [Now, FsC (Makedirs (v_path row))]"
proof -
  have "find_row v_name name (volumes (cur sv)) = None"
    using assms(2) by (auto simp: find_row_def find_None_iff)
  then show ?thesis
    using assms
    by (simp add: serve_def post_volume_def create_volume_def comp_simps sql_query_def sql_run_def sql_exec_def
        insert_volume_row_def insert_row_def not_null_def find_new_row find_text_def Let_def)
qed

lemma volume_refused:
  assumes "name \<in> v_name ` set (volumes (cur (sv :: 'x server_scheme)))"
  shows "serve (CreateVolume (JObj [(''name'', JStr name)])) sv =
    (Inr (400, error_body (JStr ''Volume already exist'')), sv)"
proof -
  obtain v where "find_row v_name name (volumes (cur sv)) = Some v"
    using assms by (cases "find_row v_name name (volumes (cur sv))") (auto simp: find_row_def find_None_iff)
  then show ?thesis
    by (simp add: serve_def post_volume_def create_volume_def comp_simps sql_query_def find_text_def)
qed

lemmas volume_defs = unit_of_def cli_create_volume_def post_json_def failed_answer_def answer_status json_answer
  bindM_apply seqM_apply number_field_def

definition ask_volume :: "string \<Rightarrow> syscall" where
  "ask_volume name = HttpPost (api ''/api/volumes'') (JObj [(''name'', JStr name)])"

lemma ask_volume_received: "received (ask_volume name) = Some (CreateVolume (JObj [(''name'', JStr name)]))"
  unfolding ask_volume_def by (rule received_calls(6))

lemma volume_new:
  assumes "quiet (sv :: 'x server_scheme)" "name \<notin> v_name ` set (volumes (cur sv))"
  shows "\<exists>sv1 row t. server_after (unit_of (cli_create_volume name)) content sv = sv1 \<and>
    calls (unit_of (cli_create_volume name)) (client_on content sv) =
      [Print name, ask_volume name, Print t, Print (''ID   NAME'' @ CHR 0x0A # number_field 5 (v_id row) @ name)] \<and>
    volumes (saved sv1) = volumes (cur sv) @ [row] \<and> cur sv1 = saved sv1 \<and> v_name row = name \<and>
    v_path row = path_join ManagerState.VOLUME_MOUNT_ROOT name"
proof -
  let ?m = "unit_of (cli_create_volume name) :: (world, unit) comp"
  obtain sv1 row where sv1: "serve (CreateVolume (JObj [(''name'', JStr name)])) sv =
      (Inr (201, JObj [(''ID'', jnat (v_id row)), (''name'', JStr name)]), sv1)"
    and row: "volumes (saved sv1) = volumes (cur sv) @ [row]" "cur sv1 = saved sv1" "v_name row = name"
      "v_path row = path_join ManagerState.VOLUME_MOUNT_ROOT name"
    using volume_answer [OF assms] by blast
  let ?j = "JObj [(''ID'', jnat (v_id row)), (''name'', JStr name)]"
  let ?t = "py_str ?j" and ?l = "''ID   NAME'' @ CHR 0x0A # number_field 5 (v_id row) @ name"
  obtain w1 where w1: "print_line name (client_on content sv) = (Inr (), w1)" "at_work content sv [Print name] sv w1"
    using work_print [OF at_work_start] by fastforce
  obtain w2 where w2: "pycall (ask_volume name) w1 = (Inr (answer_of content (201, ?j)), w2)"
    "at_work content sv [Print name, ask_volume name] sv1 w2"
    using work_request [OF w1(2) ask_volume_received sv1] by auto
  obtain w3 where w3: "print_line ?t w2 = (Inr (), w3)" "at_work content sv [Print name, ask_volume name, Print ?t] sv1 w3"
    using work_print [OF w2(2), of ?t] by auto
  obtain w4 where w4: "print_line ?l w3 = (Inr (), w4)"
    "at_work content sv [Print name, ask_volume name, Print ?t, Print ?l] sv1 w4"
    using work_print [OF w3(2), of ?l] by auto
  have "?m (client_on content sv) = (Inr (), w4)"
    using w1(1) w2(1) w3(1) w4(1) by (simp add: volume_defs ask_volume_def)
  from work_done [where m = ?m, OF this w4(2)] row show ?thesis by blast
qed

lemma volume_again:
  assumes "name \<in> v_name ` set (volumes (cur (sv :: 'x server_scheme)))"
  shows "server_after (unit_of (cli_create_volume name)) content sv = sv"
proof -
  let ?m = "unit_of (cli_create_volume name) :: (world, unit) comp"
  let ?body = "error_body (JStr ''Volume already exist'')"
  let ?e = "bytes_repr (content ?body)"
  obtain w1 where w1: "print_line name (client_on content sv) = (Inr (), w1)" "at_work content sv [Print name] sv w1"
    using work_print [OF at_work_start] by fastforce
  obtain w2 where w2: "pycall (ask_volume name) w1 = (Inr (answer_of content (400, ?body)), w2)"
    "at_work content sv [Print name, ask_volume name] sv w2"
    using work_request [OF w1(2) ask_volume_received volume_refused [OF assms]] by auto
  obtain w3 where w3: "print_line ?e w2 = (Inr (), w3)" "at_work content sv [Print name, ask_volume name, Print ?e] sv w3"
    using work_print [OF w2(2), of ?e] by auto
  have "?m (client_on content sv) = (Inr (), w3)"
    using w1(1) w2(1) w3(1) by (simp add: volume_defs ask_volume_def answer_of_def)
  from work_done(2) [where m = ?m, OF this w3(2)] show ?thesis .
qed

text \<open>
  C31.  \<open>volumes create\<close> on a server commits one new volume of that name, in its directory under the root
  of the volumes, and prints the number it has in the table; the same command again changes nothing on
  the server.
\<close>

theorem volume_made_once:
  assumes "quiet (sv :: 'x server_scheme)" and "name \<notin> v_name ` set (volumes (cur sv))"
  shows "\<exists>sv1 row t. server_after (cli_main system (VolumesCreate name)) content sv = sv1 \<and>
    calls (cli_main system (VolumesCreate name)) (client_on content sv) =
      [Print name, ask_volume name, Print t, Print (''ID   NAME'' @ CHR 0x0A # number_field 5 (v_id row) @ name)] \<and>
    volumes (saved sv1) = volumes (cur sv) @ [row] \<and> v_name row = name \<and>
    v_path row = path_join ManagerState.VOLUME_MOUNT_ROOT name \<and>
    server_after (cli_main system (VolumesCreate name)) content sv1 = sv1"
proof -
  obtain sv1 row t where sv1: "server_after (unit_of (cli_create_volume name)) content sv = sv1"
    "calls (unit_of (cli_create_volume name)) (client_on content sv) =
      [Print name, ask_volume name, Print t, Print (''ID   NAME'' @ CHR 0x0A # number_field 5 (v_id row) @ name)]"
    "volumes (saved sv1) = volumes (cur sv) @ [row]" "cur sv1 = saved sv1" "v_name row = name"
    "v_path row = path_join ManagerState.VOLUME_MOUNT_ROOT name"
    using volume_new [OF assms] by blast
  then have "name \<in> v_name ` set (volumes (cur sv1))" by auto
  from volume_again [OF this] sv1 show ?thesis unfolding cli_main.simps by blast
qed

theorem volume_made_once_witness:
  "let sv1 = server_after (cli_main ''FreeBSD'' (VolumesCreate ''data'')) (\<lambda>_. []) (example_server (empty_db []))
   in map (\<lambda>v. (v_name v, v_path v)) (volumes (saved sv1)) = [(''data'', ''/jails/volumes/data'')] \<and>
      server_after (cli_main ''FreeBSD'' (VolumesCreate ''data'')) (\<lambda>_. []) sv1 = sv1"
proof -
  let ?sv = "example_server (empty_db [])"
  have q: "quiet ?sv" "''data'' \<notin> v_name ` set (volumes (cur ?sv))" "volumes (cur ?sv) = []"
    by (simp_all add: example_server_def quiet_def ok_ret_def empty_db_def)
  have p: "path_join ManagerState.VOLUME_MOUNT_ROOT ''data'' = ''/jails/volumes/data''" by code_simp
  from volume_made_once [OF q(1,2), of "''FreeBSD''" "\<lambda>_. []"] show ?thesis
    unfolding q(3) p Let_def by auto
qed

section \<open>A container with a named volume\<close>

text \<open>The image of the examples and a container that is to have the volume \<open>data\<close> at \<open>/srv\<close>.\<close>

definition volume_args :: create_args where
  "volume_args = some_args\<lparr>a_env := Some [], a_image := ''base:14'', a_volume := Some [''data:/srv'']\<rparr>"

definition image_server :: server where
  "image_server = (example_server (empty_db [example_image]))\<lparr>kern := \<lambda>_ _. ok_ret\<lparr>rnames := [''base'']\<rparr>\<rparr>"

text \<open>What \<open>container create\<close> with a named volume does to the tables: the volume named is made, and
  another one, with the path in the container for a name and for a directory, is linked.\<close>

lemma named_volume_on_server:
  "let sv = server_after (cli_main ''FreeBSD'' (ContainerCreate volume_args)) (\<lambda>_. []) image_server
   in map c_name (containers (saved sv)) = [''web''] \<and>
     map (\<lambda>v. (v_name v, v_path v)) (volumes (saved sv)) = [(''data'', ''/jails/volumes/data''), (''/srv'', ''/srv'')] \<and>
     map (\<lambda>r. find_row v_id (vc_volume r) (volumes (saved sv))) (volume_containers (saved sv)) =
       map Some (drop 1 (volumes (saved sv)))"
  by code_simp

end
