(* ===== verification/Interleaving.thy ===== *)
theory Interleaving
  imports Networks
begin

text \<open>
  Handlers as sequences of database statements.  The handlers of \<open>server.py\<close> run in threads that
  share one cursor; all but \<open>add_network\<close> hold a lock.  Here two operations of \<open>JailManager\<close> are taken
  apart at every call of the cursor or the connection, and run in any interleaving.
\<close>

section \<open>Programs\<close>

text \<open>What a thread still has to do: a result, or a statement and what follows it.\<close>

datatype ('w, 'a) prog = Finished "'a res" | Statement "'w \<Rightarrow> ('w, 'a) prog \<times> 'w"

definition statement :: "('w, 'a) comp \<Rightarrow> ('w, 'a) prog" where
  "statement m = Statement (\<lambda>w. case m w of (r, w') \<Rightarrow> (Finished r, w'))"

primrec bindP :: "('w, 'a) prog \<Rightarrow> ('a \<Rightarrow> ('w, 'b) prog) \<Rightarrow> ('w, 'b) prog" where
  "bindP (Finished r) k = (case r of Inl e \<Rightarrow> Finished (Inl e) | Inr x \<Rightarrow> k x)"
| "bindP (Statement f) k = Statement (map_prod (\<lambda>p. bindP p k) id \<circ> f)"

primrec tryP :: "(exn \<Rightarrow> bool) \<Rightarrow> ('w, 'a) prog \<Rightarrow> (exn \<Rightarrow> ('w, 'a) prog) \<Rightarrow> ('w, 'a) prog" where
  "tryP c (Finished r) h = (case r of Inl e \<Rightarrow> if c e then h e else Finished (Inl e) | Inr x \<Rightarrow> Finished (Inr x))"
| "tryP c (Statement f) h = Statement (map_prod (\<lambda>p. tryP c p h) id \<circ> f)"

text \<open>A program run without interruption.\<close>

primrec run :: "('w, 'a) prog \<Rightarrow> ('w, 'a) comp" where
  "run (Finished r) = (\<lambda>w. (r, w))"
| "run (Statement f) = (\<lambda>w. case (map_prod run id \<circ> f) w of (m, w') \<Rightarrow> m w')"

named_theorems run_rules \<open>programs run as the computations they are made of\<close>

lemma run_Finished [run_rules]: "run (Finished r) = liftR r"
  by (simp add: liftR_def)

lemma run_statement [run_rules]: "run (statement m) = m"
  by (rule ext) (simp add: statement_def split: prod.splits)

lemma run_bindP [run_rules]: "run (bindP p k) = bindM (run p) (\<lambda>x. run (k x))"
proof (induction p)
  case (Finished r)
  then show ?case by (cases r) (auto simp: bindM_def)
next
  case (Statement f)
  show ?case
  proof
    fix w
    obtain p w' where f: "f w = (p, w')" by force
    then have "p \<in> Basic_BNFs.fsts (f w)" by simp
    with Statement.IH [OF rangeI, of p w] f show "run (bindP (Statement f) k) w = bindM (run (Statement f)) (\<lambda>x. run (k x)) w"
      by (simp add: bindM_apply)
  qed
qed

lemma run_tryP [run_rules]: "run (tryP c p h) = tryM c (run p) (\<lambda>e. run (h e))"
proof (induction p)
  case (Finished r)
  then show ?case by (cases r) (auto simp: tryM_def)
next
  case (Statement f)
  show ?case
  proof
    fix w
    obtain p w' where f: "f w = (p, w')" by force
    then have "p \<in> Basic_BNFs.fsts (f w)" by simp
    with Statement.IH [OF rangeI, of p w] f show "run (tryP c (Statement f) h) w = tryM c (run (Statement f)) (\<lambda>e. run (h e)) w"
      by (simp add: tryM_apply)
  qed
qed


section \<open>Statements of the shared cursor\<close>

text \<open>
  The manager with the rows of the cursor that are not fetched yet.  A statement reads its rows when
  it is executed; every execution, also one that fails, drops what an earlier query left, whichever
  thread asked for it.
\<close>

record cmgr = mgr +
  cursor_rows :: "json list list"

type_synonym 'a cprog = "(cmgr, 'a) prog"

definition pureP :: "'a res \<Rightarrow> 'a cprog" where
  "pureP r = Finished r"

definition execute_query :: "(db \<Rightarrow> json list list res) \<Rightarrow> unit cprog" where
  "execute_query q = statement (\<lambda>w. case q (cur w) of
      Inl e \<Rightarrow> (Inl e, w\<lparr>cursor_rows := []\<rparr>)
    | Inr rows \<Rightarrow> (Inr (), w\<lparr>cursor_rows := rows\<rparr>))"

definition execute_write :: "(db \<Rightarrow> db res) \<Rightarrow> unit cprog" where
  "execute_write f = statement (\<lambda>w. case f (cur w) of
      Inl e \<Rightarrow> (Inl e, w\<lparr>cursor_rows := []\<rparr>)
    | Inr d \<Rightarrow> (Inr (), w\<lparr>cur := d, cursor_rows := []\<rparr>))"

definition fetchall :: "json list list cprog" where
  "fetchall = statement (\<lambda>w. (Inr (cursor_rows w), w\<lparr>cursor_rows := []\<rparr>))"

definition fetchone :: "json list option cprog" where
  "fetchone = statement (\<lambda>w. case cursor_rows w of
      [] \<Rightarrow> (Inr None, w)
    | row # rows \<Rightarrow> (Inr (Some row), w\<lparr>cursor_rows := rows\<rparr>))"

definition commit :: "unit cprog" where
  "commit = statement sql_commit"

definition rollback :: "unit cprog" where
  "rollback = statement sql_rollback"

text \<open>A column of a fetched row, and a row id of it.  The rows another thread's query left may be
  of another table; one whose id is not a number ends the operation.\<close>

definition column :: "json list \<Rightarrow> nat \<Rightarrow> json res" where
  "column row i = (if i < length row then Inr (row ! i) else Inl IndexError)"

definition row_id :: "json list \<Rightarrow> nat res" where
  "row_id row = bindR (column row 0) (\<lambda>v.
     case v of JInt n \<Rightarrow> if 0 \<le> n then Inr (nat n) else Inl TypeError | _ \<Rightarrow> Inl TypeError)"

text \<open>The text of a network from the columns of its subnet and its prefix.\<close>

definition cidr_of :: "json list \<Rightarrow> string res" where
  "cidr_of row = bindR (column row 0) (\<lambda>a. bindR (column row 1) (\<lambda>b. Inr (py_str a @ ''/'' @ py_str b)))"

definition unpack_network :: "json list \<Rightarrow> ipv4_network res" where
  "unpack_network row = (if length row = 2 then bindR (cidr_of row) ip_network else Inl ValueError)"

text \<open>The columns a query selects of the rows that match, in their order.\<close>

definition selected :: "('r \<Rightarrow> bool) \<Rightarrow> ('r \<Rightarrow> json list) \<Rightarrow> 'r list \<Rightarrow> json list list" where
  "selected p cols rows = map cols (filter p rows)"

section \<open>The operations, statement by statement\<close>

definition choose_subnet_steps :: "json dict \<Rightarrow> (string + string \<times> nat) cprog" where
  "choose_subnet_steps kwargs =
     (let subnet = dget kwargs ''subnet'' JNull in
      if truthy subnet then
        (case is_valid_subnet subnet of
           None \<Rightarrow> pureP (Inr (Inl ''Invalid Subnet''))
         | Some parsed_net \<Rightarrow>
             bindP (if truthy (dget kwargs ''gateway'' JNull) then pureP (Inr 0) else pureP (next_host parsed_net)) (\<lambda>_.
             pureP (Inr (Inr (ip_str (net_addr parsed_net), net_prefix parsed_net)))))
      else
        bindP (execute_query (\<lambda>d. Inr (selected (\<lambda>_. True) (\<lambda>r. [JStr (s_subnet r), jnat (s_prefix r)]) (allocated_subnets d)))) (\<lambda>_.
        bindP fetchall (\<lambda>rows.
        bindP (pureP (mapR unpack_network rows)) (\<lambda>allocated.
        bindP (statement (gets subnetallocator)) (\<lambda>a.
        bindP (pureP (allocate_subnet a allocated 24)) (\<lambda>found.
        case found of None \<Rightarrow> pureP (Inl TypeError) | Some sp \<Rightarrow> pureP (Inr (Inr sp))))))))"

definition create_network_steps :: "json \<Rightarrow> json dict \<Rightarrow> (json \<times> string) cprog" where
  "create_network_steps name kwargs =
     bindP (execute_query (\<lambda>d. bindR (bind_text name) (\<lambda>key.
       Inr (selected (\<lambda>r. key = Some (n_name r)) (\<lambda>r. [jnat (n_id r)]) (networks d))))) (\<lambda>_.
     bindP fetchall (\<lambda>rows.
     if 0 < length rows then pureP (Inr (JNull, py_repr name @ '' already exists''))
     else bindP (choose_subnet_steps kwargs) (\<lambda>chosen.
       case chosen of
         Inl msg \<Rightarrow> pureP (Inr (JNull, msg))
       | Inr (subnet, plen) \<Rightarrow>
           if subnet = [] then pureP (Inr (JNull, ''No Empty Network''))
           else tryP (\<lambda>e. e = IntegrityError)
             (bindP (execute_write (insert_subnet_row subnet plen)) (\<lambda>_.
              bindP (execute_write (\<lambda>d. bindR (bind_text name) (\<lambda>key. insert_network_row key subnet plen d))) (\<lambda>_.
              bindP commit (\<lambda>_. pureP (Inr (name, subnet @ ''/'' @ dec plen))))))
             (\<lambda>e. pureP (Inr (JNull, ''Failed to create network''))))))"

text \<open>\<open>allocate_ip\<close> with the fetched addresses as they are.\<close>

definition allocate_ip_from :: "json list \<Rightarrow> string \<Rightarrow> ipv4 option res" where
  "allocate_ip_from used_ips subnet_cidr =
     bindR (ip_network subnet_cidr) (\<lambda>subnet.
     bindR (hosts_iter subnet) (\<lambda>host_iter.
     case host_iter of
       [] \<Rightarrow> Inr None
     | _ # rest \<Rightarrow> Inr (first_free (\<lambda>ip used. JStr (ip_str ip) = used) used_ips rest)))"

definition get_free_ip_steps :: "nat \<Rightarrow> ipv4 option cprog" where
  "get_free_ip_steps network_id =
     bindP (execute_query (\<lambda>d. Inr (selected (\<lambda>r. cn_network r = network_id) (\<lambda>r. [JStr (cn_ip r)]) (container_networks d)))) (\<lambda>_.
     bindP fetchall (\<lambda>rows.
     bindP (pureP (mapR (\<lambda>row. column row 0) rows)) (\<lambda>used_ips.
     bindP (execute_query (\<lambda>d. Inr (selected (\<lambda>r. n_id r = network_id)
       (\<lambda>r. [JStr (n_subnet r), jnat (n_prefix r)]) (networks d)))) (\<lambda>_.
     bindP fetchone (\<lambda>row.
     case row of
       None \<Rightarrow> pureP (Inl TypeError)
     | Some r \<Rightarrow> bindP (pureP (cidr_of r)) (\<lambda>cidr. pureP (allocate_ip_from used_ips cidr)))))))"

text \<open>The end of \<open>attach_network\<close>: an address is chosen and stored.\<close>

definition give_address_steps :: "nat \<Rightarrow> nat \<Rightarrow> string option cprog" where
  "give_address_steps nid cid =
     bindP (get_free_ip_steps nid) (\<lambda>allocated_ip.
     case allocated_ip of
       None \<Rightarrow> bindP rollback (\<lambda>_. pureP (Inr (Some ''Failed to get free IP Address'')))
     | Some ip \<Rightarrow>
         tryP is_Exception
           (bindP (execute_write (insert_container_network nid cid (ip_str ip))) (\<lambda>_.
            bindP commit (\<lambda>_. pureP (Inr None))))
           (\<lambda>e. bindP rollback (\<lambda>_. pureP (Inr (Some ''Failed to attach network'')))))"

definition attach_network_steps :: "json \<Rightarrow> string \<Rightarrow> string option cprog" where
  "attach_network_steps container_name network_name =
     bindP (execute_query (\<lambda>d. bindR (bind_text container_name) (\<lambda>key.
       Inr (selected (\<lambda>r. key = Some (c_name r)) (\<lambda>r. [jnat (c_id r), JObj (c_config r)]) (containers d))))) (\<lambda>_.
     bindP fetchone (\<lambda>cont.
     case cont of
       None \<Rightarrow> pureP (Inr (Some ''No such Container''))
     | Some c \<Rightarrow>
     bindP (execute_query (\<lambda>d. Inr (selected (\<lambda>r. n_name r = network_name)
       (\<lambda>r. [jnat (n_id r), JStr (n_subnet r), jnat (n_prefix r)]) (networks d)))) (\<lambda>_.
     bindP fetchone (\<lambda>network.
     case network of
       None \<Rightarrow> pureP (Inr (Some ''No Such Network''))
     | Some n \<Rightarrow>
     bindP (pureP (row_id c)) (\<lambda>cid.
     bindP (pureP (row_id n)) (\<lambda>nid.
     bindP (execute_query (\<lambda>d. Inr (selected (\<lambda>r. cn_container r = cid \<and> cn_network r = nid)
       (\<lambda>r. [jnat (cn_id r), JStr (cn_ip r)]) (container_networks d)))) (\<lambda>_.
     bindP fetchone (\<lambda>is_present.
     if is_present \<noteq> None then pureP (Inr (Some ''Network Already Present''))
     else give_address_steps nid cid))))))))"

section \<open>Without interruption the steps are the operation\<close>

text \<open>A query and its fetch in one.\<close>

lemma run_pureP [run_rules]: "run (pureP r) = liftR r"
  by (simp only: pureP_def run_rules)

lemma run_bind_apply: "run (bindP p k) w = (case run p w of (Inl e, w') \<Rightarrow> (Inl e, w') | (Inr x, w') \<Rightarrow> run (k x) w')"
  by (simp add: run_rules bindM_apply)

lemma run_try_apply:
  "run (tryP c p h) w =
     (case run p w of (Inl e, w') \<Rightarrow> if c e then run (h e) w' else (Inl e, w') | (Inr x, w') \<Rightarrow> (Inr x, w'))"
  by (simp add: run_rules tryM_apply)

lemma run_statements:
  "run (pureP r) w = (r, w)"
  "run (statement m) w = m w"
  "run (execute_query q) w = (case q (cur w) of
     Inl e \<Rightarrow> (Inl e, w\<lparr>cursor_rows := []\<rparr>) | Inr rows \<Rightarrow> (Inr (), w\<lparr>cursor_rows := rows\<rparr>))"
  "run (execute_write f) w = (case f (cur w) of
     Inl e \<Rightarrow> (Inl e, w\<lparr>cursor_rows := []\<rparr>) | Inr d \<Rightarrow> (Inr (), w\<lparr>cur := d, cursor_rows := []\<rparr>))"
  "run fetchall w = (Inr (cursor_rows w), w\<lparr>cursor_rows := []\<rparr>)"
  "run fetchone w = (Inr (case cursor_rows w of [] \<Rightarrow> None | row # _ \<Rightarrow> Some row), w\<lparr>cursor_rows := tl (cursor_rows w)\<rparr>)"
  "run commit w = (Inr (), w\<lparr>saved := cur w\<rparr>)"
  "run rollback w = (Inr (), w\<lparr>cur := saved w\<rparr>)"
  by (simp_all add: run_rules execute_query_def execute_write_def fetchall_def fetchone_def commit_def rollback_def
      sql_end_apply liftR_def split: list.split)

lemmas run_simps = run_bind_apply run_try_apply run_statements

lemma selected_find:
  "(case selected p cols rows of [] \<Rightarrow> None | row # _ \<Rightarrow> Some row) = map_option cols (find p rows)"
  "selected p cols rows = [] \<longleftrightarrow> find p rows = None"
  by (induction rows) (auto simp: selected_def)

lemma find_text_find: "find_text f k rows = find (\<lambda>r. k = Some (f r)) rows"
  by (cases k) (simp_all add: find_text_def find_row_def eq_commute find_None_iff2)

text \<open>What is read back is what the tables hold.\<close>

lemma py_str_dec [simp]: "py_str (jnat n) = dec n"
  by (simp add: dec_int_def)

lemma unpack_subnet_row: "unpack_network [JStr (s_subnet r), jnat (s_prefix r)] = ip_network (subnet_row_text r)"
  by (simp add: unpack_network_def cidr_of_def column_def subnet_row_text_def dec_int_def)

lemma mapR_map: "mapR f (map g xs) = mapR (\<lambda>x. f (g x)) xs"
  by (induction xs) simp_all

lemma selected_all: "selected (\<lambda>_. True) cols rows = map cols rows"
  by (simp add: selected_def)

lemma liftR_eq: "liftR r w = (r', w') \<longleftrightarrow> r' = r \<and> w' = w"
  by (auto simp: liftR_def)

lemma run_choose_subnet:
  "\<exists>rows. run (choose_subnet_steps kw) (w\<lparr>cursor_rows := rows0\<rparr>) = (fst (choose_subnet kw w), w\<lparr>cursor_rows := rows\<rparr>)"
proof (cases "truthy (dget kw ''subnet'' JNull)")
  case True
  then show ?thesis
    by (intro exI [of _ rows0])
      (auto simp: choose_subnet_steps_def choose_subnet_def Let_def run_simps comp_simps liftR_eq
        split: option.splits sum.splits prod.splits)
next
  case False
  then show ?thesis
    by (intro exI [of _ "[]"])
      (simp add: choose_subnet_steps_def choose_subnet_def Let_def run_simps selected_all mapR_map
        unpack_subnet_row get_allocated_networks_def bindM_assoc query_simps bindM_apply [of "gets _"]
        split: option.split sum.split)
qed

lemma choose_subnet_pure: "choose_subnet kw w = (r, w') \<Longrightarrow> w' = w"
  by (auto simp: choose_subnet_def get_allocated_networks_def comp_simps liftR_eq Let_def whenM_def
      split: option.splits sum.splits prod.splits if_splits)

text \<open>Two results that differ in the rows left in the cursor only.\<close>

definition same_but_rows :: "'a res \<times> cmgr \<Rightarrow> 'a res \<times> cmgr \<Rightarrow> bool" where
  "same_but_rows p q \<longleftrightarrow> fst p = fst q \<and> (snd p)\<lparr>cursor_rows := []\<rparr> = (snd q)\<lparr>cursor_rows := []\<rparr>"

lemma create_network_uninterrupted:
  "same_but_rows (run (create_network_steps name kw) w) (create_network name kw w)"
proof (cases "bind_text name")
  case (Inr key)
  obtain rows where c: "run (choose_subnet_steps kw) (w\<lparr>cursor_rows := []\<rparr>) =
      (fst (choose_subnet kw w), w\<lparr>cursor_rows := rows\<rparr>)"
    using run_choose_subnet by blast
  obtain r where r: "choose_subnet kw w = (r, w)" by (metis choose_subnet_pure surj_pair)
  show ?thesis using Inr c r
    by (simp add: create_network_steps_def create_network_def run_simps query_simps selected_find find_text_find
      comp_simps same_but_rows_def split: option.split sum.split prod.split)
qed (simp add: create_network_steps_def create_network_def run_simps query_simps same_but_rows_def)

lemma allocate_ip_texts: "allocate_ip_from (map JStr used) cidr = allocate_ip used cidr"
proof -
  have "first_free (\<lambda>ip u. JStr (ip_str ip) = u) (map JStr used) ips = first_free (\<lambda>ip u. ip_str ip = u) used ips" for ips
    by (induction ips) (auto simp: blocked_iff)
  then show ?thesis by (simp add: allocate_ip_from_def allocate_ip_def cong: list.case_cong)
qed

lemma mapR_column: "mapR (\<lambda>row. column row 0) (selected p (\<lambda>r. [JStr (f r)]) rows) = Inr (map JStr (map f (filter p rows)))"
  by (induction rows) (auto simp: selected_def column_def)

lemma cidr_of_row [simp]: "cidr_of [JStr s, jnat p] = Inr (s @ ''/'' @ dec p)"
  by (simp add: cidr_of_def column_def dec_int_def)

lemma row_id_row [simp]: "row_id (jnat n # cols) = Inr n"
  by (simp add: row_id_def column_def)

lemma run_get_free_ip:
  "run (get_free_ip_steps nid) (w\<lparr>cursor_rows := rows\<rparr>) = (fst (get_free_ip_for_network nid w),
     w\<lparr>cursor_rows := tl (selected (\<lambda>r. n_id r = nid) (\<lambda>r. [JStr (n_subnet r), jnat (n_prefix r)]) (networks (cur w)))\<rparr>)"
  by (simp add: get_free_ip_steps_def get_free_ip_for_network_def run_simps query_simps mapR_column selected_find
      find_row_def allocate_ip_texts liftR_def raise_def del: map_map split: option.split)

lemma get_free_ip_result: "get_free_ip_for_network nid w = (fst (get_free_ip_for_network nid w), w)"
  by (metis get_free_ip_pure surj_pair fst_conv)

lemma run_give_address:
  "same_but_rows (run (give_address_steps nid cid) (w\<lparr>cursor_rows := rows\<rparr>))
     (bindM (get_free_ip_for_network nid) (\<lambda>allocated_ip. case allocated_ip of
         None \<Rightarrow> seqM sql_rollback (ret (Some ''Failed to get free IP Address''))
       | Some ip \<Rightarrow>
           tryM is_Exception
             (seqM (sql_run (insert_container_network nid cid (ip_str ip))) (seqM sql_commit (ret None)))
             (\<lambda>e. seqM sql_rollback (ret (Some ''Failed to attach network'')))) w)"
proof (cases "fst (get_free_ip_for_network nid w)")
  case (Inr a)
  then show ?thesis
    using get_free_ip_result [of nid w]
    by (cases a) (auto simp: give_address_steps_def bindM_apply [of "get_free_ip_for_network nid"]
      run_simps run_get_free_ip comp_simps same_but_rows_def split: sum.split)
qed (use get_free_ip_result [of nid w] in
  \<open>simp add: give_address_steps_def run_bind_apply run_get_free_ip bindM_apply same_but_rows_def\<close>)

lemma attach_network_uninterrupted:
  "same_but_rows (run (attach_network_steps cname nname) w) (attach_network cname nname w)"
  by (simp add: attach_network_steps_def attach_network_def run_simps query_simps selected_find find_text_find
    find_row_def run_give_address split: option.split sum.split) (simp add: same_but_rows_def)

section \<open>Threads\<close>

text \<open>
  The threads of the server: who holds the lock, what each thread still has to do, and the state.  A
  thread of \<open>guarded\<close> runs \<open>with lock\<close>: it takes the lock before its first statement and gives it
  back after its last; any other runs its statements at any time.
\<close>

type_synonym 'a threads = "nat option \<times> 'a cprog list \<times> cmgr"

inductive thread_step :: "nat set \<Rightarrow> 'a threads \<Rightarrow> 'a threads \<Rightarrow> bool" for guarded :: "nat set" where
  acquire: "\<lbrakk>i < length ps; i \<in> guarded; ps ! i = Statement f\<rbrakk> \<Longrightarrow>
    thread_step guarded (None, ps, w) (Some i, ps, w)"
| proceed: "\<lbrakk>i < length ps; ps ! i = Statement f; i \<in> guarded \<longrightarrow> lock = Some i; f w = (p, w')\<rbrakk> \<Longrightarrow>
    thread_step guarded (lock, ps, w) (lock, ps[i := p], w')"
| release: "ps ! i = Finished r \<Longrightarrow> thread_step guarded (Some i, ps, w) (None, ps, w)"

inductive_cases thread_stepE: "thread_step guarded (lock, ps, w) s"

definition finished :: "'a cprog list \<Rightarrow> bool" where
  "finished ps \<longleftrightarrow> (\<forall>p \<in> set ps. case p of Finished _ \<Rightarrow> True | Statement _ \<Rightarrow> False)"

text \<open>The threads one after the other, each without interruption.\<close>

fun in_turn :: "nat list \<Rightarrow> 'a cprog list \<Rightarrow> cmgr \<Rightarrow> 'a cprog list \<times> cmgr" where
  "in_turn [] ps w = (ps, w)"
| "in_turn (i # order) ps w = (case run (ps ! i) w of (r, w') \<Rightarrow> in_turn order (ps[i := Finished r]) w')"

lemma in_turn_snoc:
  "in_turn (order @ [i]) ps w = (case in_turn order ps w of (qs, v) \<Rightarrow>
     case run (qs ! i) v of (r, v') \<Rightarrow> (qs[i := Finished r], v'))"
  by (induction order arbitrary: ps w) (auto split: prod.splits)

lemma in_turn_length: "in_turn order ps w = (qs, v) \<Longrightarrow> length qs = length ps"
  by (induction order arbitrary: ps w) (auto split: prod.splits)

lemma in_turn_done:
  "in_turn order ps w = (qs, v) \<Longrightarrow> i < length ps \<Longrightarrow> i \<in> set order \<or> (\<exists>r. ps ! i = Finished r) \<Longrightarrow> \<exists>r. qs ! i = Finished r"
proof (induction order arbitrary: ps w)
  case (Cons j order)
  obtain r w' where r: "run (ps ! j) w = (r, w')" by force
  with Cons.prems have q: "in_turn order (ps[j := Finished r]) w' = (qs, v)" by simp
  show ?case
    by (rule Cons.IH [OF q]) (use Cons.prems in \<open>cases "i = j"; auto\<close>)+
qed simp

lemma run_proceed: "f w = (p, w') \<Longrightarrow> run (Statement f) w = run p w'"
  by simp

text \<open>What holds while every thread is guarded: some have run in turn, and what the owner of the lock
  has left to do is the rest of an uninterrupted run.\<close>

definition serial_so_far :: "'a cprog list \<Rightarrow> cmgr \<Rightarrow> 'a threads \<Rightarrow> bool" where
  "serial_so_far ps w = (\<lambda>(lock, qs, v). \<exists>order qs0 v0. distinct order \<and> set order \<subseteq> {..< length ps} \<and>
     in_turn order ps w = (qs0, v0) \<and>
     (case lock of None \<Rightarrow> qs = qs0 \<and> v = v0
      | Some i \<Rightarrow> i < length ps \<and> i \<notin> set order \<and> (\<exists>p. qs = qs0[i := p] \<and> run (qs0 ! i) v0 = run p v)))"

lemma serial_unlockedI:
  "distinct order \<Longrightarrow> set order \<subseteq> {..< length ps} \<Longrightarrow> in_turn order ps w = (qs, v) \<Longrightarrow> serial_so_far ps w (None, qs, v)"
  by (auto simp: serial_so_far_def)

lemma serial_lockedI:
  "distinct order \<Longrightarrow> set order \<subseteq> {..< length ps} \<Longrightarrow> in_turn order ps w = (qs0, v0) \<Longrightarrow>
   i < length ps \<Longrightarrow> i \<notin> set order \<Longrightarrow> qs = qs0[i := p] \<Longrightarrow> run (qs0 ! i) v0 = run p v \<Longrightarrow>
   serial_so_far ps w (Some i, qs, v)"
  by (auto simp: serial_so_far_def)

lemma serialE:
  assumes "serial_so_far ps w (lock, qs, v)"
  obtains order where "lock = None" "distinct order" "set order \<subseteq> {..< length ps}" "in_turn order ps w = (qs, v)"
  | order i qs0 v0 p where "lock = Some i" "distinct order" "set order \<subseteq> {..< length ps}"
      "in_turn order ps w = (qs0, v0)" "i < length qs0" "i \<notin> set order" "qs = qs0[i := p]" "run (qs0 ! i) v0 = run p v"
  using assms in_turn_length by (cases lock) (fastforce simp: serial_so_far_def)+

text \<open>The owner of the lock is done: it has run after the others.\<close>

lemma serial_after:
  assumes "distinct order" "set order \<subseteq> {..< length ps}" "in_turn order ps w = (qs0, v0)" "i < length qs0"
    "i \<notin> set order" "run (qs0 ! i) v0 = run (Finished r) v"
  shows "serial_so_far ps w (None, qs0[i := Finished r], v)"
  by (rule serial_unlockedI [of "order @ [i]"]) (use assms in_turn_length [OF assms(3)] in \<open>auto simp: in_turn_snoc\<close>)

lemma serial_so_far_step:
  assumes "thread_step {..< length ps} (lock, qs, v) t" "serial_so_far ps w (lock, qs, v)"
  shows "serial_so_far ps w t"
  using assms(1)
proof (cases rule: thread_stepE [consumes 1, case_names acquire proceed release])
  case (acquire i f)
  from assms(2) acquire(1) obtain order where o: "distinct order" "set order \<subseteq> {..< length ps}" "in_turn order ps w = (qs, v)"
    by (auto elim: serialE)
  then have "i \<notin> set order" using acquire in_turn_done [OF o(3), of i] by auto
  then have "serial_so_far ps w (Some i, qs, v)"
    by (intro serial_lockedI [OF o, of i qs "qs ! i"]) (use acquire(4) in simp_all)
  with acquire show ?thesis by simp
next
  case (proceed i f p w')
  have "i < length ps" using assms(2) proceed by (auto elim!: serialE dest: in_turn_length)
  with proceed(4) have lock: "lock = Some i" by simp
  from assms(2) lock obtain order qs0 v0 q where o: "distinct order" "set order \<subseteq> {..< length ps}" "in_turn order ps w = (qs0, v0)"
    and i: "i < length qs0" "i \<notin> set order" "qs = qs0[i := q]" "run (qs0 ! i) v0 = run q v"
    by (elim serialE) auto
  have "q = Statement f" using proceed(3) i(1,3) by simp
  with i(4) run_proceed [of f v p w'] proceed(5) have r: "run (qs0 ! i) v0 = run p w'" by simp
  have "serial_so_far ps w (Some i, qs[i := p], w')"
    by (rule serial_lockedI [OF o _ i(2) _ r]) (use \<open>i < length ps\<close> i(3) in simp_all)
  with proceed(1) lock show ?thesis by simp
next
  case (release i r)
  with assms(2) show ?thesis by (auto elim!: serialE intro: serial_after simp del: run.simps)
qed

lemma locked_threads_serial:
  assumes "(thread_step {..< length ps})\<^sup>*\<^sup>* (None, ps, w) (lock, qs, v)" and "finished qs"
  shows "\<exists>order. distinct order \<and> set order \<subseteq> {..< length ps} \<and> in_turn order ps w = (qs, v)"
proof -
  have "serial_so_far ps w (None, ps, w)" by (rule serial_unlockedI [of "[]"]) simp_all
  with assms(1) have "serial_so_far ps w (lock, qs, v)"
    by (induction rule: rtranclp_induct2) (auto intro: serial_so_far_step)
  then show ?thesis
  proof (cases rule: serialE)
    case (2 order i qs0 v0 p)
    then have "p \<in> set qs" by (simp add: set_update_memI)
    with assms(2) obtain r where "p = Finished r" by (cases p) (auto simp: finished_def simp del: run.simps)
    with 2 have "serial_so_far ps w (None, qs, v)" by (auto intro: serial_after simp del: run.simps)
    then show ?thesis by (auto elim: serialE)
  qed auto
qed

section \<open>Two requests\<close>

datatype task = AddNetwork json "json dict" | Attach json string

definition thread_of :: "task \<Rightarrow> (json \<times> string + string option) cprog" where
  "thread_of r = (case r of
      AddNetwork name kw \<Rightarrow> bindP (create_network_steps name kw) (\<lambda>x. pureP (Inr (Inl x)))
    | Attach container network \<Rightarrow> bindP (attach_network_steps container network) (\<lambda>x. pureP (Inr (Inr x))))"

definition operation :: "task \<Rightarrow> (cmgr, json \<times> string + string option) comp" where
  "operation r = (case r of
      AddNetwork name kw \<Rightarrow> bindM (create_network name kw) (\<lambda>x. ret (Inl x))
    | Attach container network \<Rightarrow> bindM (attach_network container network) (\<lambda>x. ret (Inr x)))"

lemma same_but_rows_bind:
  "same_but_rows (run p w) (m w) \<Longrightarrow> same_but_rows (run (bindP p (\<lambda>x. pureP (Inr (f x)))) w) (bindM m (\<lambda>x. ret (f x)) w)"
  by (cases "run p w"; cases "m w") (auto simp: same_but_rows_def run_bind_apply run_statements bindM_apply split: sum.split)

lemma same_operation: "same_but_rows (run (thread_of r) w) (operation r w)"
  by (auto simp: thread_of_def operation_def split: task.split
      intro: same_but_rows_bind create_network_uninterrupted attach_network_uninterrupted)

lemma both_same:
  assumes "same_but_rows p q"
  shows "both P (snd p) \<longleftrightarrow> both P (snd q)"
proof -
  have "cur ((snd p)\<lparr>cursor_rows := []\<rparr>) = cur ((snd q)\<lparr>cursor_rows := []\<rparr>)"
    "saved ((snd p)\<lparr>cursor_rows := []\<rparr>) = saved ((snd q)\<lparr>cursor_rows := []\<rparr>)"
    using assms by (simp_all add: same_but_rows_def)
  then show ?thesis by (simp add: both_def)
qed

lemma keeps_operation: "keeps (both good) (operation r)"
  by (auto simp: operation_def split: task.split intro!: keeps_rules mgr_keeps)

lemma keeps_thread: "keeps (both good) (run (thread_of r))"
  by (rule keepsI) (simp add: both_same [OF same_operation] keepsD [OF keeps_operation])

lemma keeps_in_turn:
  "\<forall>p \<in> set ps. keeps I (run p) \<Longrightarrow> set order \<subseteq> {..< length ps} \<Longrightarrow> I w \<Longrightarrow> I (snd (in_turn order ps w))"
proof (induction order arbitrary: ps w)
  case (Cons i order)
  obtain r w' where r: "run (ps ! i) w = (r, w')" by force
  have "keeps I (run (Finished r))" by (simp add: keeps_def)
  then have "\<forall>p \<in> set (ps[i := Finished r]). keeps I (run p)"
    using Cons.prems(1) set_update_subset_insert [of ps i "Finished r"] by blast
  moreover have "I w'" using Cons.prems r by (metis in_mono keepsD list.set_intros(1) lessThan_iff nth_mem snd_conv)
  ultimately have "I (snd (in_turn order (ps[i := Finished r]) w'))" using Cons.IH Cons.prems(2) by simp
  with r show ?case by simp
qed simp

text \<open>A schedule: a thread takes the lock, executes a statement, gives the lock back.\<close>

datatype event = Take nat | Do nat | Give nat

fun happen :: "nat set \<Rightarrow> event \<Rightarrow> 'a threads \<Rightarrow> 'a threads option" where
  "happen guarded (Take i) (lock, ps, w) =
     (if lock = None \<and> i < length ps \<and> i \<in> guarded then
        case ps ! i of Finished _ \<Rightarrow> None | Statement _ \<Rightarrow> Some (Some i, ps, w)
      else None)"
| "happen guarded (Do i) (lock, ps, w) =
     (if i < length ps \<and> (i \<in> guarded \<longrightarrow> lock = Some i) then
        case ps ! i of Finished _ \<Rightarrow> None | Statement f \<Rightarrow> (case f w of (p, w') \<Rightarrow> Some (lock, ps[i := p], w'))
      else None)"
| "happen guarded (Give i) (lock, ps, w) =
     (if lock = Some i then case ps ! i of Finished _ \<Rightarrow> Some (None, ps, w) | Statement _ \<Rightarrow> None else None)"

fun schedule :: "nat set \<Rightarrow> event list \<Rightarrow> 'a threads \<Rightarrow> 'a threads option" where
  "schedule guarded [] s = Some s"
| "schedule guarded (e # es) s = Option.bind (happen guarded e s) (schedule guarded es)"

lemma happen_step: "happen guarded e s = Some t \<Longrightarrow> thread_step guarded s t"
  by (cases "(guarded, e, s)" rule: happen.cases)
    (auto split: if_splits prog.splits prod.splits intro: thread_step.intros)

lemma schedule_steps: "schedule guarded es s = Some t \<Longrightarrow> (thread_step guarded)\<^sup>*\<^sup>* s t"
proof (induction es arbitrary: s)
  case (Cons e es)
  then obtain u where "happen guarded e s = Some u" "schedule guarded es u = Some t"
    by (auto simp: bind_eq_Some_conv)
  with Cons.IH [of u] show ?case by (meson converse_rtranclp_into_rtranclp happen_step)
qed simp

section \<open>Attachments\<close>

definition attach_thread :: "json \<times> string \<Rightarrow> (json \<times> string + string option) cprog" where
  "attach_thread r = (case r of (container, network) \<Rightarrow> thread_of (Attach container network))"

text \<open>The container, the network and the row that gives it an address there are in the tables.\<close>

definition attached :: "container_row \<times> network_row \<times> container_network_row \<Rightarrow> db \<Rightarrow> bool" where
  "attached x d = (case x of (c, n, r) \<Rightarrow> c \<in> set (containers d) \<and> n \<in> set (networks d) \<and>
     r \<in> set (container_networks d) \<and> cn_container r = c_id c \<and> cn_network r = n_id n \<and> addressed r)"

lemma keeps_attached: "keeps (both (attached x)) (run (attach_thread req))"
proof (rule keepsI)
  fix w :: cmgr assume w: "both (attached x) w"
  obtain c n where req: "req = (c, n)" by force
  have ins: "keeps (both (attached x)) (sql_run (insert_container_network i j ip) :: (cmgr, unit) comp)" for i j ip
    by (rule keeps_sql_run) (auto simp: attached_def insert_container_network_def bindR_eq_Inr insert_row_Inr)
  have free: "keeps (both (attached x)) (get_free_ip_for_network i :: (cmgr, ipv4 option) comp)" for i
    using get_free_ip_pure by (metis keepsI prod.collapse)
  have "keeps (both (attached x)) (operation (Attach c n))"
    unfolding operation_def attach_network_def task.case by (intro keeps_rules mgr_keeps ins free)
  from keepsD [OF this w] show "both (attached x) (snd (run (attach_thread req) w))"
    by (simp add: attach_thread_def req both_same [OF same_operation])
qed

text \<open>An attachment that reports nothing has been committed.\<close>

lemma attach_network_stored:
  assumes "attach_network cname nname (w :: 'x mgr_scheme) = (Inr None, w')"
  shows "\<exists>c n r. bind_text cname = Inr (Some (c_name c)) \<and> n_name n = nname \<and> both (attached (c, n, r)) w'"
proof -
  from assms obtain key c n where
    c: "bind_text cname = Inr key" "find_text c_name key (containers (cur w)) = Some c"
    and n: "find_row n_name nname (networks (cur w)) = Some n"
    by (auto simp: attach_network_def query_simps split: sum.splits option.splits if_splits)
  obtain f where f: "get_free_ip_for_network (n_id n) w = (f, w)" by (metis get_free_ip_result)
  from assms c n f obtain ip d where ins: "insert_container_network (n_id n) (c_id c) (ip_str ip) (cur w) = Inr d"
    and w': "w' = w\<lparr>cur := d, saved := d\<rparr>"
    by (auto simp: attach_network_def query_simps bindM_apply [of "get_free_ip_for_network _"] comp_simps
        split: sum.splits option.splits if_splits)
  let ?r = "\<lparr>cn_id = next_cn (cur w), cn_network = n_id n, cn_container = c_id c, cn_ip = ip_str ip\<rparr>"
  from ins have "?r \<in> set (container_networks d)" "containers d = containers (cur w)" "networks d = networks (cur w)"
    by (auto simp: insert_container_network_def bindR_eq_Inr insert_row_Inr)
  moreover have "c \<in> set (containers (cur w))" "key = Some (c_name c)" "n \<in> set (networks (cur w))" "n_name n = nname"
    using c(2) n by (auto simp: find_text_def find_row_def find_Some_iff split: option.splits)
  ultimately have "both (attached (c, n, ?r)) w'"
    by (simp add: both_def attached_def addressed_def w' ip_str_not_None)
  with c(1) \<open>key = _\<close> \<open>n_name n = nname\<close> show ?thesis by blast
qed

lemma attach_thread_stored:
  assumes "run (attach_thread req) w = (Inr (Inr None), w')"
  shows "\<exists>c n r. bind_text (fst req) = Inr (Some (c_name c)) \<and> n_name n = snd req \<and> both (attached (c, n, r)) w'"
proof -
  obtain cname nname where req: "req = (cname, nname)" by force
  let ?o = "operation (Attach cname nname) w"
  have same: "same_but_rows (Inr (Inr None), w') ?o"
    using same_operation [of "Attach cname nname" w] assms by (simp add: attach_thread_def req)
  then have "fst ?o = Inr (Inr None)" by (simp add: same_but_rows_def)
  then obtain w2 where w2: "attach_network cname nname w = (Inr None, w2)" "snd ?o = w2"
    by (auto simp: operation_def bindM_apply split: prod.splits sum.splits)
  from attach_network_stored [OF w2(1)] both_same [OF same] w2(2) show ?thesis by (simp add: req)
qed

lemma in_turn_other: "in_turn order ps w = (qs, v) \<Longrightarrow> i \<notin> set order \<Longrightarrow> qs ! i = ps ! i"
  by (induction order arbitrary: ps w) (auto split: prod.splits)

lemma in_turn_attached:
  assumes "in_turn order ps w = (qs, v)" "distinct order" "set order \<subseteq> {..< length ps}"
    and "\<forall>p \<in> set ps. (\<exists>r. p = Finished r) \<or> (\<exists>req. p = attach_thread req)"
    and "i \<in> set order" "ps ! i = attach_thread req" "qs ! i = Finished (Inr (Inr None))"
  shows "\<exists>c n r. bind_text (fst req) = Inr (Some (c_name c)) \<and> n_name n = snd req \<and> both (attached (c, n, r)) v"
  using assms
proof (induction order arbitrary: ps w)
  case (Cons j order)
  obtain r w' where r: "run (ps ! j) w = (r, w')" by force
  let ?ps = "ps[j := Finished r]"
  have rest: "in_turn order ?ps w' = (qs, v)" using Cons.prems(1) r by simp
  have all: "\<forall>p \<in> set ?ps. (\<exists>r. p = Finished r) \<or> (\<exists>req. p = attach_thread req)"
    using Cons.prems(4) set_update_subset_insert [of ps j "Finished r"] by blast
  show ?case
  proof (cases "i = j")
    case False
    show ?thesis by (rule Cons.IH [OF rest]) (use Cons.prems all False in auto)
  next
    case True
    have "qs ! i = Finished r" using in_turn_other [OF rest, of i] Cons.prems(2,3) True by simp
    with Cons.prems(6,7) r True have "run (attach_thread req) w = (Inr (Inr None), w')" by simp
    from attach_thread_stored [OF this] obtain c n x where
      stored: "bind_text (fst req) = Inr (Some (c_name c))" "n_name n = snd req" "both (attached (c, n, x)) w'" by blast
    have "\<forall>p \<in> set ?ps. keeps (both (attached (c, n, x))) (run p)"
      using all keeps_attached by (auto simp: keeps_def)
    from keeps_in_turn [OF this _ stored(3), of order] Cons.prems(3) rest have "both (attached (c, n, x)) v" by simp
    with stored(1,2) show ?thesis by blast
  qed
qed simp

lemma attach_thread_pending: "attach_thread req \<noteq> Finished r"
  by (cases req) (simp add: attach_thread_def thread_of_def attach_network_steps_def execute_query_def statement_def)

section \<open>Properties\<close>

text \<open>
  C16.  The lock does what it is for.  However the threads of any number of requests to attach a container
  to a network are scheduled, each holding the lock: no two containers are given the same address of a
  network, every address lies in its network and is not that of the bridge, and every request that was
  answered without a message has its container, its network and its address in the committed tables,
  whatever the others committed or rolled back.
\<close>

theorem locked_attachments_distinct:
  assumes "(thread_step {..< length reqs})\<^sup>*\<^sup>* (None, map attach_thread reqs, w) (lock, qs, v)" and "finished qs"
    and "both good w"
  shows "(\<forall>r \<in> set (container_networks (saved v)). \<forall>s \<in> set (container_networks (saved v)).
       cn_network r = cn_network s \<and> cn_ip r = cn_ip s \<and> cn_ip r \<noteq> ''None'' \<longrightarrow> r = s) \<and>
    (\<forall>r \<in> set (container_networks (saved v)). cn_ip r \<noteq> ''None'' \<longrightarrow>
       (\<exists>n \<in> set (networks (saved v)). \<exists>net a. n_id n = cn_network r \<and>
          ip_network (n_subnet n @ ''/'' @ dec (n_prefix n)) = Inr net \<and>
          in_net a net \<and> next_host net \<noteq> Inr a \<and> cn_ip r = ip_str a)) \<and>
    (\<forall>i < length reqs. qs ! i = Finished (Inr (Inr None)) \<longrightarrow>
       (\<exists>c \<in> set (containers (saved v)). \<exists>n \<in> set (networks (saved v)). \<exists>r \<in> set (container_networks (saved v)).
          bind_text (fst (reqs ! i)) = Inr (Some (c_name c)) \<and> n_name n = snd (reqs ! i) \<and>
          cn_container r = c_id c \<and> cn_network r = n_id n \<and> cn_ip r \<noteq> ''None''))"
proof -
  let ?ps = "map attach_thread reqs"
  obtain order where o: "distinct order" "set order \<subseteq> {..< length ?ps}" "in_turn order ?ps w = (qs, v)"
    using locked_threads_serial [of ?ps w lock qs v] assms(1,2) by auto
  have "\<forall>p \<in> set ?ps. keeps (both good) (run p)"
    using keeps_thread by (auto simp: attach_thread_def)
  from keeps_in_turn [OF this o(2) assms(3)] o(3) have "addr_ok (saved v)" by (simp add: both_def good_def)
  then have "distinct (map (\<lambda>r. (cn_network r, cn_ip r)) (filter addressed (container_networks (saved v))))"
    and hosts: "\<forall>r \<in> set (container_networks (saved v)). cn_ip r \<noteq> ''None'' \<longrightarrow> host_of (saved v) (cn_network r) (cn_ip r)"
    by (auto simp: addr_ok_def addressed_def)
  then have one: "\<forall>r \<in> set (container_networks (saved v)). \<forall>s \<in> set (container_networks (saved v)).
       cn_network r = cn_network s \<and> cn_ip r = cn_ip s \<and> cn_ip r \<noteq> ''None'' \<longrightarrow> r = s"
    by (auto simp: distinct_map inj_on_def addressed_def)
  have stored: "\<exists>c n r. bind_text (fst (reqs ! i)) = Inr (Some (c_name c)) \<and> n_name n = snd (reqs ! i) \<and> both (attached (c, n, r)) v"
    if i: "i < length reqs" "qs ! i = Finished (Inr (Inr None))" for i
  proof -
    have "i \<in> set order" using in_turn_other [OF o(3), of i] i attach_thread_pending [of "reqs ! i"] by (metis length_map nth_map)
    then show ?thesis by (intro in_turn_attached [OF o(3,1,2)]) (use i in auto)
  qed
  from one hosts stored show ?thesis
    unfolding host_of_def both_def attached_def addressed_def prod.case by (intro conjI) (blast+)
qed

definition racing_db :: db where
  "racing_db = (empty_db [])\<lparr>
     networks := [\<lparr>n_id = 1, n_name = ''web'', n_driver = ''bridge'', n_subnet = ''10.0.0.0'', n_prefix = 24\<rparr>],
     containers := [
       \<lparr>c_id = 1, c_name = ''a'', c_image = 1, c_status = ''created'', c_config = [], c_created = [],
         c_project = JNull, c_service = JNull, c_gid = []\<rparr>,
       \<lparr>c_id = 2, c_name = ''b'', c_image = 1, c_status = ''created'', c_config = [], c_created = [],
         c_project = JNull, c_service = JNull, c_gid = []\<rparr>],
     container_networks := [\<lparr>cn_id = 1, cn_network = 1, cn_container = 1, cn_ip = ''10.0.0.2''\<rparr>],
     allocated_subnets := [\<lparr>s_id = 1, s_subnet = ''10.0.0.0'', s_prefix = 24\<rparr>],
     next_c := 3, next_n := 2, next_cn := 2, next_s := 2\<rparr>"

definition racing :: "cmgr" where
  "racing = \<lparr>kern = \<lambda>_ _. ok_ret, trace = [], cur = racing_db, saved = racing_db, worker = True, storage = ZFS,
     subnetallocator = default_allocator, cursor_rows = []\<rparr>"

text \<open>Container b is attached while a network is added; the first query of \<open>create_network\<close> comes between
  the query for the addresses in use and its fetch.\<close>

definition race :: "event list" where
  "race = [Take 0] @ replicate 7 (Do 0) @ [Do 1] @ replicate 5 (Do 0) @ [Give 0] @ replicate 7 (Do 1)"

lemma race_outcome:
  "map_option (\<lambda>(lock, ps, w). (lock, finished ps, map (\<lambda>r. (cn_network r, cn_container r, cn_ip r)) (container_networks (saved w))))
     (schedule {0} race (None, map thread_of [Attach (JStr ''b'') ''web'', AddNetwork (JStr ''db'') []], racing)) =
   Some (None, True, [(1, 1, ''10.0.0.2''), (1, 2, ''10.0.0.2'')])"
  by code_simp

lemma good_racing: "both good racing"
proof -
  have "ip_network (''10.0.0.0'' @ ''/'' @ dec 24) = Inr \<lparr>net_addr = 167772160, net_prefix = 24\<rparr>"
    "in_net 167772162 \<lparr>net_addr = 167772160, net_prefix = 24\<rparr>"
    "next_host \<lparr>net_addr = 167772160, net_prefix = 24\<rparr> = Inr 167772161"
    "ip_str 167772162 = ''10.0.0.2''"
    by code_simp+
  then have "host_of racing_db 1 ''10.0.0.2''"
    unfolding host_of_def by (intro bexI exI conjI) (auto simp: racing_db_def)
  moreover have "db_ok racing_db" "life_ok racing_db" by code_simp+
  ultimately show ?thesis
    by (simp add: both_def racing_def good_def addr_ok_def) (simp add: racing_db_def empty_db_def)
qed

text \<open>
  C17.  Adding a network takes no lock.  While container b is attached to a network, it can empty the
  shared cursor between the query for the addresses in use and its fetch: b is given, and the
  database stores, the address container a already has.
\<close>

theorem unlocked_add_network_shares_address:
  "\<exists>ps v. both good racing \<and>
     (thread_step {0})\<^sup>*\<^sup>* (None, map thread_of [Attach (JStr ''b'') ''web'', AddNetwork (JStr ''db'') []], racing) (None, ps, v) \<and>
     finished ps \<and>
     map (\<lambda>r. (cn_network r, cn_container r, cn_ip r)) (container_networks (saved v)) =
       [(1, 1, ''10.0.0.2''), (1, 2, ''10.0.0.2'')] \<and>
     \<not> good (saved v)"
proof -
  obtain ps v where s: "schedule {0} race (None, map thread_of [Attach (JStr ''b'') ''web'', AddNetwork (JStr ''db'') []], racing) =
      Some (None, ps, v)" and f: "finished ps"
    and rows: "map (\<lambda>r. (cn_network r, cn_container r, cn_ip r)) (container_networks (saved v)) =
       [(1, 1, ''10.0.0.2''), (1, 2, ''10.0.0.2'')]"
    using race_outcome by auto
  from rows have "\<not> good (saved v)" by (auto simp: good_def addr_ok_def addressed_def)
  with schedule_steps [OF s] f rows good_racing show ?thesis by (intro exI [of _ ps] exI [of _ v] conjI)
qed

text \<open>The witness: both containers of these tables are attached, one after the other takes the lock.\<close>

definition attaching :: "cmgr" where
  "attaching = racing\<lparr>cur := racing_db\<lparr>container_networks := []\<rparr>, saved := racing_db\<lparr>container_networks := []\<rparr>\<rparr>"

definition orderly :: "event list" where
  "orderly = [Take 1] @ replicate 12 (Do 1) @ [Give 1, Take 0] @ replicate 12 (Do 0) @ [Give 0]"

lemma orderly_outcome:
  "map_option (\<lambda>(lock, ps, w). (lock, finished ps, map (\<lambda>r. (cn_container r, cn_ip r)) (container_networks (saved w))))
     (schedule {0, 1} orderly (None, map attach_thread [(JStr ''a'', ''web''), (JStr ''b'', ''web'')], attaching)) =
   Some (None, True, [(2, ''10.0.0.2''), (1, ''10.0.0.3'')])"
  by code_simp

lemma good_attaching: "both good attaching"
  using good_racing
  by (auto simp: attaching_def both_def good_def addr_ok_def db_ok_def life_ok_def racing_def ids_ok_def)

theorem locked_attachments_distinct_witness:
  "\<exists>qs v. (thread_step {0, 1})\<^sup>*\<^sup>* (None, map attach_thread [(JStr ''a'', ''web''), (JStr ''b'', ''web'')], attaching) (None, qs, v) \<and>
     map (\<lambda>r. (cn_container r, cn_ip r)) (container_networks (saved v)) = [(2, ''10.0.0.2''), (1, ''10.0.0.3'')] \<and>
     (\<forall>r \<in> set (container_networks (saved v)). \<forall>s \<in> set (container_networks (saved v)).
       cn_network r = cn_network s \<and> cn_ip r = cn_ip s \<and> cn_ip r \<noteq> ''None'' \<longrightarrow> r = s)"
proof -
  let ?reqs = "[(JStr ''a'', ''web''), (JStr ''b'', ''web'')]"
  obtain qs v where s: "schedule {0, 1} orderly (None, map attach_thread ?reqs, attaching) = Some (None, qs, v)"
    and f: "finished qs"
    and ips: "map (\<lambda>r. (cn_container r, cn_ip r)) (container_networks (saved v)) = [(2, ''10.0.0.2''), (1, ''10.0.0.3'')]"
    using orderly_outcome by auto
  have two: "{..< length ?reqs} = {0, 1}" by auto
  note steps = schedule_steps [OF s]
  from locked_attachments_distinct [OF steps [folded two] f good_attaching]
  have "\<forall>r \<in> set (container_networks (saved v)). \<forall>s \<in> set (container_networks (saved v)).
       cn_network r = cn_network s \<and> cn_ip r = cn_ip s \<and> cn_ip r \<noteq> ''None'' \<longrightarrow> r = s" by (rule conjunct1)
  with steps ips show ?thesis by (intro exI [of _ qs] exI [of _ v]) simp
qed

end
