(* ===== verification/OldManager.thy ===== *)
theory OldManager
  imports Containers
begin

text \<open>
  \<open>app2/JailManager.py\<close>, the manager before the worker: it forks a process for every container
  (\<open>parent.py\<close>), names datasets after containers, and knows ZFS only.  Where a method is written as in
  \<open>app2/JailManager_.py\<close>, but for what it prints, its model is that of the newer method.
\<close>

section \<open>Methods that did not change\<close>

definition old_update_exit_code :: "string \<Rightarrow> ('x mgr_scheme, string) comp" where
  "old_update_exit_code = update_exit_code"

definition old_load_modules :: "('x mgr_scheme, unit) comp" where
  "old_load_modules = load_modules"

definition old_get_status_alpha :: "int \<Rightarrow> string res" where
  "old_get_status_alpha = get_status_alpha"

definition old_exists :: "string \<Rightarrow> ('x mgr_scheme, bool) comp" where
  "old_exists = container_exists"

definition old_status_jail :: "string \<Rightarrow> ('x mgr_scheme, string) comp" where
  "old_status_jail = status_jail"

definition old_get_networks :: "('x mgr_scheme, json) comp" where
  "old_get_networks = get_networks"

definition old_get_volumes :: "('x mgr_scheme, json) comp" where
  "old_get_volumes = get_volumes"

definition old_get_container_networks :: "json \<Rightarrow> ('x mgr_scheme, json) comp" where
  "old_get_container_networks = get_container_networks"

definition old_list :: "bool \<Rightarrow> ('x mgr_scheme, json) comp" where
  "old_list = list_jails"

definition old_create :: "string \<Rightarrow> ('x mgr_scheme, (int \<times> string) option) comp" where
  "old_create = create_old"

definition old_get_allocated_networks :: "('x mgr_scheme, ipv4_network list) comp" where
  "old_get_allocated_networks = get_allocated_networks"

definition old_is_valid_subnet :: "json \<Rightarrow> ipv4_network option" where
  "old_is_valid_subnet = is_valid_subnet"

definition old_create_network :: "json \<Rightarrow> json dict \<Rightarrow> ('x mgr_scheme, json \<times> string) comp" where
  "old_create_network = create_network"

definition old_validate_container_options ::
  "json \<Rightarrow> json \<Rightarrow> ('x mgr_scheme, string list \<times> nat list) comp" where
  "old_validate_container_options = validate_container_options"

definition old_create_path :: "json \<Rightarrow> json \<Rightarrow> string res" where
  "old_create_path = create_path"

definition old_handle_container_mounts :: "json \<Rightarrow> json \<Rightarrow> ('x world_scheme, json list) comp" where
  "old_handle_container_mounts = handle_container_mounts"

definition old_create_anamous_volumes :: "json list \<Rightarrow> unit res" where
  "old_create_anamous_volumes = create_anamous_volumes"

definition old_create_container_json :: "json dict \<Rightarrow> json dict \<Rightarrow> ('x world_scheme, json dict) comp" where
  "old_create_container_json = create_container_json"

definition old_get_free_ip_for_network :: "nat \<Rightarrow> ('x mgr_scheme, ipv4 option) comp" where
  "old_get_free_ip_for_network = get_free_ip_for_network"

definition old_link_container_volumes :: "json list \<Rightarrow> nat \<Rightarrow> ('x mgr_scheme, unit) comp" where
  "old_link_container_volumes = link_container_volumes"

definition old_list_images :: "('x mgr_scheme, json) comp" where
  "old_list_images = list_images"

definition old_create_volume :: "json \<Rightarrow> ('x mgr_scheme, json \<times> string) comp" where
  "old_create_volume = create_volume"

definition old_attach_network :: "json \<Rightarrow> string \<Rightarrow> ('x mgr_scheme, string option) comp" where
  "old_attach_network = attach_network"

lemmas unchanged_defs = old_update_exit_code_def old_load_modules_def old_get_status_alpha_def old_exists_def
  old_status_jail_def old_get_networks_def old_get_volumes_def old_get_container_networks_def old_list_def
  old_create_def old_get_allocated_networks_def old_is_valid_subnet_def old_create_network_def
  old_validate_container_options_def old_create_path_def old_handle_container_mounts_def
  old_create_anamous_volumes_def old_create_container_json_def old_get_free_ip_for_network_def
  old_link_container_volumes_def old_list_images_def old_create_volume_def old_attach_network_def

section \<open>Starting\<close>

definition old_set_sysctls :: "('x mgr_scheme, unit) comp" where
  "old_set_sysctls = sysctl_set_int ''net.inet.ip.forwarding'' 1"

text \<open>\<open>RFPROC | RFNOWAIT | RFCFDG\<close>; \<open>python\<close> is \<open>sys.executable\<close>.\<close>

definition detached_fork :: int where
  "detached_fork = rflag ''RFPROC'' OR rflag ''RFNOWAIT'' OR rflag ''RFCFDG''"

definition old_start_jail :: "string \<Rightarrow> string \<Rightarrow> ('x mgr_scheme, string) comp" where
  "old_start_jail python name =
     bindM (sql_query (container_named name)) (\<lambda>res.
     case res of
       None \<Rightarrow> ret ''NOJAIL''
     | Some r \<Rightarrow>
         if is_up (c_status r) then ret (c_status r)
         else bindM (rfork_wrapper detached_fork) (\<lambda>pid.
           seqM (whenM (pid = 0)
             (seqM (do_call (ProcC (Execv python [''python'', ''parent.py'', name]))) (raise ProcessReplaced)))
           (if pid < 0 then
              seqM (sql_run (\<lambda>d. Inr (update_status (\<lambda>x. c_id x = c_id r) ''exited'' d)))
              (seqM sql_commit (ret ''FAILED: Failed to start parent''))
            else
              seqM (sql_run (\<lambda>d. Inr (update_status (\<lambda>x. c_id x = c_id r) ''running'' d)))
              (seqM sql_commit (ret ''started'')))))"

section \<open>What is reported\<close>

definition old_get_container :: "string \<Rightarrow> ('x mgr_scheme, json option) comp" where
  "old_get_container name =
     bindM (sql_query (container_named name)) (\<lambda>row.
     case row of
       None \<Rightarrow> ret None
     | Some r \<Rightarrow>
         let cont = AList.update ''path'' (JStr (path_join CONTAINER_MOUNT_ROOT name))
                      (dmerge (container_columns r) (c_config r)) in
         bindM (old_get_container_networks (dget cont ''id'' JNull)) (\<lambda>nets.
         ret (Some (JObj (AList.update ''networks'' nets cont)))))"

text \<open>The column \<open>json_data\<close> is answered as the text that is stored, \<open>stored\<close>.\<close>

definition old_get_image ::
  "(image_row \<Rightarrow> string) \<Rightarrow> string \<Rightarrow> ('x mgr_scheme, json option \<times> string option) comp" where
  "old_get_image stored img_name =
     bindM (liftR (split_tag img_name)) (\<lambda>nt.
     bindM (sql_query (image_named nt)) (\<lambda>res.
     ret (case res of
       None \<Rightarrow> (None, Some ''No such Image'')
     | Some r \<Rightarrow> (Some (JObj [(''id'', jnat (i_id r)), (''name'', JStr (i_name r)), (''tag'', JStr (i_tag r)),
           (''created_at'', JStr (i_created r)), (''json_data'', JStr (stored r)), (''gid'', JStr (i_gid r))]), None))))"

section \<open>Stopping\<close>

definition old_remove_port_rules :: "string list \<Rightarrow> json \<Rightarrow> ('x mgr_scheme, unit) comp" where
  "old_remove_port_rules nets port =
     bindM (liftR (jget port ''proto'' JNull)) (\<lambda>p.
     let proto = (if p = JStr ''udp'' then 17 else 6) in
     forM nets (\<lambda>net.
       bindM (liftR (jindex port ''host'')) (\<lambda>host. pfctl_remove_rdr_port_rule (''cni-rdr/'' @ net) host proto)))"

text \<open>As \<open>stop_running\<close>, with the directory named after the container and without the NAT rules.\<close>

definition old_stop_running :: "string \<Rightarrow> container_row \<Rightarrow> ('x mgr_scheme, string) comp" where
  "old_stop_running name r =
     seqM (signal_jail name name)
     (bindM (wait_removed name 10) (\<lambda>removed.
      seqM (tryM (\<lambda>e. e = JailDoesNotExist name)
             (whenM (\<not> removed) (bindM (remove_jail_from_name name) (\<lambda>_. ret ()))) (\<lambda>e. ret ()))
      (bindM (sql_query (\<lambda>d. map (\<lambda>(n, cn). n_name n)
          (sort_key (\<lambda>(n, cn). cn_network cn) (joined_networks (c_id r) d)))) (\<lambda>nets.
       seqM (tryM is_Exception
              (bindM (liftR (json_iter (dget (c_config r) ''ports'' (JList [])))) (\<lambda>ports.
               forM ports (old_remove_port_rules nets))) (\<lambda>e. ret ()))
       (ret ''exited'')))))"

definition old_stop_jail :: "string \<Rightarrow> ('x mgr_scheme, string) comp" where
  "old_stop_jail name =
     bindM (sql_query (container_named name)) (\<lambda>res.
     case res of
       None \<Rightarrow> ret ''DOESNOTEXIST''
     | Some r \<Rightarrow> if \<not> is_up (c_status r) then ret (c_status r) else old_stop_running name r)"

section \<open>Networks\<close>

text \<open>A bridge that is there is taken as it is.\<close>

definition old_start_network :: "string \<Rightarrow> ('x mgr_scheme, string option \<times> string option) comp" where
  "old_start_network name =
     (if name = ''host'' then ret (Some name, None)
      else bindM (sql_query (\<lambda>d. find_row n_name name (networks d))) (\<lambda>row.
      case row of
        None \<Rightarrow> ret (None, Some (repr_str name @ '' doesn't exist''))
      | Some r \<Rightarrow>
          let cidr = n_subnet r @ ''/'' @ dec (n_prefix r) in
          bindM (liftR (ip_network cidr)) (\<lambda>ip_net.
          bindM (liftR (next_host ip_net)) (\<lambda>h.
          bindM (liftR (ip_interface (ip_str h @ ''/'' @ dec (n_prefix r)))) (\<lambda>(ip, nm).
          bindM (check_interface_exist name) (\<lambda>present.
          if present then ret (Some (ip_str ip), None) else setup_network_if name cidr ip nm))))))"

definition old_add_rdr_port :: "json \<Rightarrow> json \<Rightarrow> ('x mgr_scheme, unit) comp" where
  "old_add_rdr_port network port =
     bindM (liftR (jindex port ''host'')) (\<lambda>host.
     bindM (liftR (jindex port ''container'')) (\<lambda>container.
     bindM (liftR (jindex port ''rdr'')) (\<lambda>r.
     let rdr = (case r of JStr s \<Rightarrow> JList [r] | _ \<Rightarrow> r) in
     bindM (liftR (jget port ''proto'' JNull)) (\<lambda>p.
     let proto = (if p = JStr ''udp'' then 17 else 6) in
     pfctl_append_rdr_rule_generic (JStr (CHR ''!'' # py_str network)) (''cni-rdr/'' @ py_str network)
       ''0.0.0.0/0.0.0.0'' (JStr ''(self)'') rdr container (JInt (- 1)) host proto 1))))"

definition old_add_rdr_ports :: "json \<Rightarrow> ('x mgr_scheme, (int \<times> string) option) comp" where
  "old_add_rdr_ports data =
     (if \<not> truthy data then ret None
      else bindM (liftR (jget data ''network'' JNull)) (\<lambda>network.
        if \<not> truthy network then ret (Some (- 1, ''Network cannot be null''))
        else bindM (liftR (bindR (jget data ''ports'' (JList [])) json_iter)) (\<lambda>ports.
          seqM (forM ports (old_add_rdr_port network)) (ret (Some (0, ''''))))))"

section \<open>Creation\<close>

definition old_create_dataset :: "string \<Rightarrow> string \<Rightarrow> string \<Rightarrow> ('x mgr_scheme, int \<times> string option) comp" where
  "old_create_dataset img_text name snapshot_name =
     (let image_path = path_join (IMAGE_ROOT ZFS) img_text in
      bindM (zfs_get_dataset image_path) (\<lambda>image_dataset.
      case image_dataset of
        None \<Rightarrow> ret (- 1, Some (''No Data for image: '' @ repr_str img_text))
      | Some r \<Rightarrow>
          bindM (zfs_clone_dataset image_path snapshot_name (path_join (CONTAINER_ROOT ZFS) name)
                  (path_join CONTAINER_MOUNT_ROOT (path_join name ''root''))) (\<lambda>res.
          ret (if res \<noteq> 0 then (- 1, Some ''Error creating dataset'') else (0, None)))))"

text \<open>An INSERT of a row of values, one for each placeholder: SQLite compiles it only when there are as
  many as columns.\<close>

definition prepared :: "nat \<Rightarrow> nat \<Rightarrow> ('x mgr_scheme, 'a) comp \<Rightarrow> ('x mgr_scheme, 'a) comp" where
  "prepared columns placeholders m = (if columns = placeholders then m else raise OperationalError)"

text \<open>Five columns and three placeholders.\<close>

definition old_insert_container :: "json \<Rightarrow> nat \<Rightarrow> json dict \<Rightarrow> json \<Rightarrow> json \<Rightarrow> ('x mgr_scheme, nat) comp" where
  "old_insert_container name imag_id config_json project service =
     prepared (length [''name'', ''image_id'', ''config_json'', ''project'', ''service'']) (length ''???'')
       (bindM (libc Now) (\<lambda>now.
        bindM (liftR (bind_text name)) (\<lambda>n.
        sql_exec (insert_container_row n imag_id config_json (rtext now) project service []))))"

definition old_store_container ::
  "json dict \<Rightarrow> string \<Rightarrow> image_row \<Rightarrow> json dict \<Rightarrow> nat list \<Rightarrow> ('x mgr_scheme, int \<times> json) comp" where
  "old_store_container data img_text img cont_json ids =
     (let name = dget data ''name'' JNull in
      bindM (old_insert_container name (i_id img) cont_json
              (dget data ''project'' (JStr ''default'')) (dget data ''service'' (JStr ''default''))) (\<lambda>cid.
      seqM (whenM (ids \<noteq> []) (add_addresses ids cid))
      (seqM (bindM (liftR (json_iter (dget cont_json ''mounts'' JNull))) (\<lambda>ms. old_link_container_volumes ms cid))
      (bindM (liftR (as_str TypeError name)) (\<lambda>n.
       bindM (old_create_dataset img_text n ''base'') (\<lambda>(result, msg).
       if result \<noteq> 0 then seqM sql_rollback (ret (- 1, JStr ''Failed to create container''))
       else seqM sql_commit (ret (0, JObj [(''id'', jnat cid)]))))))))"

definition old_create_container :: "json dict \<Rightarrow> ('x mgr_scheme, int \<times> json) comp" where
  "old_create_container data =
     (let name = dget data ''name'' JNull; nets = dget data ''networks'' (JList []) in
      if \<not> truthy name then ret (- 1, JStr ''Name cannot be empty'')
      else bindM (liftR (as_str AttributeError (dget data ''image'' JNull))) (\<lambda>image_text.
        bindM (liftR (split_tag image_text)) (\<lambda>nt.
        bindM (if truthy nets then old_validate_container_options nets (dget data ''mounts'' (JList []))
               else ret ([], [])) (\<lambda>(errors, ids).
        if errors \<noteq> [] then ret (- 1, JStr (joinc CHR 0x0A errors))
        else bindM (sql_query (image_named nt)) (\<lambda>row.
          case row of
            None \<Rightarrow> ret (- 1, JStr (''Invalid image: '' @ image_text))
          | Some img \<Rightarrow>
              bindM (old_create_container_json (i_json img) (config_request data)) (\<lambda>config.
              old_store_container data image_text img
                (AList.update ''rm'' (dget data ''rm'' (JBool False))
                  (AList.update ''restart'' (dget data ''restart'' (JStr ''no'')) config)) ids))))))"

section \<open>Removal\<close>

definition delete_volume_links :: "nat \<Rightarrow> db \<Rightarrow> db" where
  "delete_volume_links cid d = d\<lparr>volume_containers := filter (\<lambda>r. vc_container r \<noteq> cid) (volume_containers d)\<rparr>"

definition delete_addresses :: "nat \<Rightarrow> db \<Rightarrow> db" where
  "delete_addresses cid d = d\<lparr>container_networks := filter (\<lambda>r. cn_container r \<noteq> cid) (container_networks d)\<rparr>"

definition delete_container_row :: "nat \<Rightarrow> db \<Rightarrow> db" where
  "delete_container_row cid d = d\<lparr>containers := filter (\<lambda>r. c_id r \<noteq> cid) (containers d)\<rparr>"

lemmas delete_defs = delete_volume_links_def delete_addresses_def delete_container_row_def

text \<open>\<open>faults i\<close> is what SQLite raises at the call number \<open>i\<close> of the removal, if anything (the database
  locked, the disk full): the three deletes, the commit, and the rollback that answers a failure.\<close>

definition fallible :: "exn option \<Rightarrow> ('x mgr_scheme, unit) comp \<Rightarrow> ('x mgr_scheme, unit) comp" where
  "fallible fault m = (case fault of Some e \<Rightarrow> raise e | None \<Rightarrow> m)"

definition old_remove_container :: "(nat \<Rightarrow> exn option) \<Rightarrow> string \<Rightarrow> ('x mgr_scheme, string option) comp" where
  "old_remove_container faults name =
     bindM (sql_query (container_named name)) (\<lambda>cont.
     case cont of
       None \<Rightarrow> ret (Some (''Container '' @ name @ '' not found''))
     | Some c \<Rightarrow>
         bindM (if c_status c = ''running'' then bindM (jail_get_id name) (\<lambda>i. ret (i \<noteq> - 1)) else ret False) (\<lambda>up.
         if up then ret (Some ''Container is running. Stop and retry'')
         else bindM (zfs_delete_dataset (path_join (CONTAINER_ROOT ZFS) name)) (\<lambda>(res, err).
           if res < 0 then ret err
           else seqM (tryM is_Exception
                  (seqM (fallible (faults 0) (sql_run (\<lambda>d. Inr (delete_volume_links (c_id c) d))))
                  (seqM (fallible (faults 1) (sql_run (\<lambda>d. Inr (delete_addresses (c_id c) d))))
                  (seqM (fallible (faults 2) (sql_run (\<lambda>d. Inr (delete_container_row (c_id c) d))))
                    (fallible (faults 3) sql_commit))))
                  (\<lambda>e. fallible (faults 4) sql_rollback))
                (ret None))))"

definition old_close :: "('x mgr_scheme, unit) comp" where
  "old_close = sql_rollback"

section \<open>Deleting keeps the invariant\<close>

lemma good_delete:
  assumes "good d"
  shows "good (delete_volume_links cid d)" "good (delete_addresses cid d)" "good (delete_container_row cid d)"
proof -
  from assms have d: "db_ok d" "addr_ok d" "life_ok d" by (simp_all add: good_def)
  have "db_ok (delete_volume_links cid d)" "db_ok (delete_addresses cid d)" "db_ok (delete_container_row cid d)"
    using d(1) by (auto simp: db_ok_def delete_defs ids_ok_def list_all_iff distinct_map_filter)
  moreover have "addr_ok (delete_volume_links cid d)" "addr_ok (delete_container_row cid d)"
    using d(2) by (auto simp: delete_defs elim!: addr_ok_same_rows)
  moreover have "addr_ok (delete_addresses cid d)"
  proof -
    have "host_of (delete_addresses cid d) = host_of d"
      by (intro ext) (simp add: host_of_def delete_defs)
    moreover have "filter addressed (filter p rows) = filter p (filter addressed rows)" for p rows
      by (simp add: conj_commute)
    ultimately show ?thesis using d(2) by (auto simp: addr_ok_def delete_defs distinct_map_filter simp del: filter_filter)
  qed
  moreover have "life_ok (delete_volume_links cid d)" "life_ok (delete_addresses cid d)" "life_ok (delete_container_row cid d)"
    using d(3) by (auto simp: life_ok_def delete_defs)
  ultimately show "good (delete_volume_links cid d)" "good (delete_addresses cid d)" "good (delete_container_row cid d)"
    by (simp_all add: good_def)
qed

lemma keeps_deletes [mgr_keeps]:
  "keeps (both good) (sql_run (\<lambda>d. Inr (delete_volume_links cid d)))"
  "keeps (both good) (sql_run (\<lambda>d. Inr (delete_addresses cid d)))"
  "keeps (both good) (sql_run (\<lambda>d. Inr (delete_container_row cid d)))"
  by (rule keeps_sql_run, auto intro: good_delete)+

lemma keeps_zfs_delete [keeps_calls]:
  "(\<And>w t. I (w\<lparr>trace := t\<rparr>) = I w) \<Longrightarrow> keeps I (zfs_delete_dataset s)"
  unfolding zfs_delete_dataset_def zfs_get_dataset_def by (intro keeps_rules keeps_calls)

lemma keeps_old_operations [mgr_keeps]:
  "keeps (both good) (old_remove_container faults name)" "keeps (both good) (old_start_jail python name)"
  "keeps (both good) (old_stop_jail name)" "keeps (both good) (old_start_network name)"
  "keeps (both good) (old_add_rdr_ports j)" "keeps (both good) old_close"
  "keeps (both good) (old_get_container name)" "keeps (both good) (old_get_image stored name)"
  unfolding old_remove_container_def fallible_def old_start_jail_def old_stop_jail_def old_stop_running_def signal_jail_def
    signal_pid_file_def remove_by_hand_def old_remove_port_rules_def old_start_network_def setup_network_if_def
    dns_rdr_rule_def old_add_rdr_ports_def old_add_rdr_port_def old_close_def old_get_container_def
    old_get_container_networks_def get_container_networks_def old_get_image_def rfork_wrapper_def Let_def
  by (intro keeps_rules mgr_keeps keeps_calls both_trace)+

section \<open>Properties\<close>

lemma zfs_delete_result:
  assumes "zfs_delete_dataset s w = (Inr (res, err), w')"
  shows "(res < 0 \<longrightarrow> err \<noteq> None) \<and> (\<not> res < 0 \<longrightarrow> ZfsC (ZfsDelete s) \<in> set (calls (zfs_delete_dataset s) w))"
  using assms
  by (auto simp: calls_def zfs_delete_dataset_def zfs_get_dataset_def comp_simps pycall_apply do_call_apply whenM_def
      split: option.splits sum.splits prod.splits if_splits)

lemma bindM_returns:
  "bindM m f w = (Inr x, w') \<Longrightarrow> \<exists>y w1. m w = (Inr y, w1) \<and> f y w1 = (Inr x, w')"
  by (auto simp: bindM_apply split: prod.splits sum.splits)

lemma triple_skip: "(\<And>x. triple (\<lambda>_. True) (f x) Q) \<Longrightarrow> triple P (bindM m f) Q"
  by (rule triple_bindM [where R = "\<lambda>_ _. True"]) (simp_all add: triple_def)

definition delete_all :: "nat \<Rightarrow> db \<Rightarrow> db" where
  "delete_all cid d = delete_container_row cid (delete_addresses cid (delete_volume_links cid d))"

definition delete_rows :: "(nat \<Rightarrow> exn option) \<Rightarrow> nat \<Rightarrow> ('x mgr_scheme, unit) comp" where
  "delete_rows faults cid = tryM is_Exception
     (seqM (fallible (faults 0) (sql_run (\<lambda>d. Inr (delete_volume_links cid d))))
     (seqM (fallible (faults 1) (sql_run (\<lambda>d. Inr (delete_addresses cid d))))
     (seqM (fallible (faults 2) (sql_run (\<lambda>d. Inr (delete_container_row cid d))))
       (fallible (faults 3) sql_commit))))
     (\<lambda>e. fallible (faults 4) sql_rollback)"

lemma delete_rows_result:
  assumes "delete_rows faults cid w = (Inr (), w')"
  shows "w' = (if \<forall>i < 4. faults i = None then w\<lparr>cur := delete_all cid (cur w), saved := delete_all cid (cur w)\<rparr>
    else w\<lparr>cur := saved w\<rparr>)"
proof -
  have four: "(\<forall>i < 4. faults i = None) \<longleftrightarrow> faults 0 = None \<and> faults 1 = None \<and> faults 2 = None \<and> faults 3 = None"
    by (auto simp: numeral_eq_Suc less_Suc_eq)
  show ?thesis
    unfolding four using assms
    by (cases "faults 0"; cases "faults 1"; cases "faults 2"; cases "faults 3"; cases "faults 4")
      (auto simp: delete_rows_def delete_all_def fallible_def comp_simps split: if_splits)
qed


definition removal_db :: db where
  "removal_db = (container_db ''exited'')\<lparr>
     container_networks := [\<lparr>cn_id = 1, cn_network = 1, cn_container = c_id example_container, cn_ip = ''10.0.0.2''\<rparr>]\<rparr>"


lemma old_store_raises: "old_store_container data img_text img config ids = raise OperationalError"
  by (simp add: old_store_container_def old_insert_container_def prepared_def)

text \<open>
  This manager creates no container: every request is refused with -1 or raises, whatever the
  tables hold, and leaves them as they are.
\<close>

theorem old_create_never_succeeds:
  "(case fst (old_create_container data w) of Inr (n, j) \<Rightarrow> n = - 1 | Inl e \<Rightarrow> True) \<and>
   cur (snd (old_create_container data w)) = cur w \<and> saved (snd (old_create_container data w)) = saved w"
proof -
  let ?P = "\<lambda>v. cur v = cur w \<and> saved v = saved w"
  have keeps: "keeps ?P (old_create_container data)"
    unfolding old_create_container_def old_store_raises old_validate_container_options_def
      validate_container_options_def old_create_container_json_def Let_def
    by (intro keeps_rules mgr_keeps keeps_create_container_json) auto
  have refused: "triple (\<lambda>_. True) (old_create_container data) (\<lambda>(n, j) v. n = - 1)"
    unfolding old_create_container_def old_store_raises Let_def
    by (intro triple_if triple_ret triple_raise triple_liftR triple_query triple_case_prod triple_case_option triple_skip)
      simp_all
  obtain r v where run: "old_create_container data w = (r, v)" by force
  have "?P v" using keepsD [OF keeps, of w] run by simp
  with run tripleD [OF refused, of w] show ?thesis by (cases r) auto
qed

end
