(* ===== verification/OldJail.thy ===== *)
theory OldJail
  imports Jail
begin

text \<open>
  \<open>app2/Jail.py\<close>, the jail before \<open>app2/Jail_.py\<close>: it has one network, at most one interface, other
  keys in its configuration and no resource limits.
\<close>

section \<open>The object\<close>

record old_jail =
  o_name :: string
  o_isvnet :: bool
  o_jid :: "int option"
  o_net_if :: json
  o_json :: "json dict"
  o_epair :: "string option"
  o_kwargs :: "json dict"
  o_devfs_mounted :: bool

record ojworld = world +
  oself :: old_jail

definition new_old_jail :: "string \<Rightarrow> bool \<Rightarrow> json dict \<Rightarrow> json dict \<Rightarrow> old_jail" where
  "new_old_jail name vnet js config =
     \<lparr>o_name = name, o_isvnet = vnet, o_jid = None, o_net_if = dget config ''net_if'' JNull, o_json = js,
      o_epair = None, o_kwargs = config, o_devfs_mounted = False\<rparr>"

definition with_self :: "(old_jail \<Rightarrow> ('x ojworld_scheme, 'a) comp) \<Rightarrow> ('x ojworld_scheme, 'a) comp" where
  "with_self f = bindM (gets oself) f"

definition set_oself :: "(old_jail \<Rightarrow> old_jail) \<Rightarrow> ('x ojworld_scheme, unit) comp" where
  "set_oself f = modify (\<lambda>w. w\<lparr>oself := f (oself w)\<rparr>)"

lemma oself_apply [comp_simps]:
  "with_self f w = f (oself w) w"
  "set_oself g w = (Inr (), w\<lparr>oself := g (oself w)\<rparr>)"
  by (simp_all add: with_self_def set_oself_def bindM_apply)

lemma emits_oself [emits_rules]:
  "(\<And>j. emits P (f j)) \<Longrightarrow> emits P (with_self f)" "emits P (set_oself g)"
  unfolding with_self_def set_oself_def by (intro emits_rules; simp)+

text \<open>\<open>self.epair\<close> and \<open>self.jid\<close> where they are tested.\<close>

definition has_epair :: "old_jail \<Rightarrow> bool" where
  "has_epair j = (case o_epair j of None \<Rightarrow> False | Some e \<Rightarrow> e \<noteq> [])"

definition has_jid :: "old_jail \<Rightarrow> bool" where
  "has_jid j = (case o_jid j of None \<Rightarrow> False | Some i \<Rightarrow> i \<noteq> 0)"

section \<open>File systems\<close>

definition o_mount_devfs :: "('x ojworld_scheme, unit) comp" where
  "o_mount_devfs = with_self (\<lambda>j.
     if o_devfs_mounted j then ret ()
     else seqM (mount_jail_defvs (dget (o_json j) ''path'' JNull) (dget (o_json j) ''devfs_ruleset'' (JInt 4)))
            (set_oself (\<lambda>j. j\<lparr>o_devfs_mounted := True\<rparr>)))"

definition o_mount_tmpfs :: "('x ojworld_scheme, unit) comp" where
  "o_mount_tmpfs = with_self (\<lambda>j. seqM (mount_jail_tmpfs (dget (o_json j) ''path'' JNull)) (ret ()))"

definition o_unmount_tmpfs :: "('x ojworld_scheme, unit) comp" where
  "o_unmount_tmpfs = with_self (\<lambda>j. seqM (unmount_jail_tmpfs (dget (o_json j) ''path'' JNull)) (ret ()))"

definition o_unmount_devfs :: "('x ojworld_scheme, unit) comp" where
  "o_unmount_devfs = with_self (\<lambda>j.
     if \<not> o_devfs_mounted j then ret ()
     else seqM (unmount_jail_defvs (dget (o_json j) ''path'' JNull))
            (set_oself (\<lambda>j. j\<lparr>o_devfs_mounted := False\<rparr>)))"

definition o_for_fs_mounts ::
  "('x ojworld_scheme, unit) comp \<Rightarrow> ('x ojworld_scheme, unit) comp \<Rightarrow> ('x ojworld_scheme, unit) comp" where
  "o_for_fs_mounts devfs tmpfs = with_self (\<lambda>j.
     let fs_mounts = dget (o_kwargs j) ''fs_mounts'' (JList []) in
     if \<not> truthy fs_mounts then ret ()
     else bindM (liftR (json_iter fs_mounts)) (\<lambda>fss.
       forM fss (\<lambda>fs. if fs = JStr ''devfs'' then devfs
                      else if fs = JStr ''tmpfs'' then tmpfs else ret ())))"

definition o_handle_fs_umounts :: "('x ojworld_scheme, unit) comp" where
  "o_handle_fs_umounts = o_for_fs_mounts o_unmount_devfs o_unmount_tmpfs"

definition o_handle_fs_mounts :: "('x ojworld_scheme, unit) comp" where
  "o_handle_fs_mounts = o_for_fs_mounts o_mount_devfs o_mount_tmpfs"

text \<open>\<open>os.path.join(jail_root, m['target'][1:])\<close>.\<close>

definition o_mount_dest :: "json \<Rightarrow> json \<Rightarrow> string res" where
  "o_mount_dest jail_root m =
     bindR (jindex m ''target'') (\<lambda>t. bindR (as_str TypeError t) (\<lambda>s.
     bindR (as_str TypeError jail_root) (\<lambda>root. Inr (path_join root (tl s)))))"

definition o_handle_mount :: "json \<Rightarrow> json \<Rightarrow> ('x world_scheme, unit) comp" where
  "o_handle_mount jail_root m =
     bindM (liftR (bindR (jindex m ''host'') (as_str TypeError))) (\<lambda>h.
     bindM (pycall (FsC (Realpath h))) (\<lambda>src.
     bindM (liftR (o_mount_dest jail_root m)) (\<lambda>dest.
     bindM (pycall (FsC (PathExists dest))) (\<lambda>e.
     seqM (whenM (rv e = 0) (do_call (FsC (Makedirs dest))))
     (bindM (liftR (jindex m ''mode'')) (\<lambda>mode.
      seqM (mount_host_to_jail dest (rtext src) (if mode = JStr ''ro'' then MNT_RDONLY else 0)) (ret ())))))))"

definition o_for_mounts :: "(json \<Rightarrow> json \<Rightarrow> ('x ojworld_scheme, unit) comp) \<Rightarrow> ('x ojworld_scheme, unit) comp" where
  "o_for_mounts f = with_self (\<lambda>j.
     let mounts = dget (o_kwargs j) ''mounts'' JNull in
     if \<not> truthy mounts then ret ()
     else bindM (liftR (json_iter mounts)) (\<lambda>ms. forM ms (f (dget (o_json j) ''path'' JNull))))"

definition o_handle_mounts :: "('x ojworld_scheme, unit) comp" where
  "o_handle_mounts = o_for_mounts o_handle_mount"

definition o_handle_unmount :: "('x ojworld_scheme, unit) comp" where
  "o_handle_unmount = o_for_mounts (\<lambda>jail_root m.
     bindM (liftR (o_mount_dest jail_root m)) (\<lambda>dest. seqM (unmount_jail_mounts dest) (ret ())))"

section \<open>The interface\<close>

definition o_create_epair_up :: "json \<Rightarrow> ('x ojworld_scheme, int) comp" where
  "o_create_epair_up network =
     bindM (create_epair '''' True) (\<lambda>e.
     seqM (set_oself (\<lambda>j. j\<lparr>o_epair := e\<rparr>))
     (case e of
        None \<Rightarrow> ret CERROR
      | Some name \<Rightarrow>
          if name = [] then ret CERROR
          else bindM (liftR (jget network ''net_if'' (JStr ''bridge1''))) (\<lambda>bridge.
            let mem = butlast name @ ''b'' in
            tryM is_OSError
              (bindM (liftR (c_chars IFNAMSIZ mem)) (\<lambda>_.
               bindM (liftR (as_str AttributeError bridge)) (\<lambda>br.
               seqM (bridge_if br mem True True) (ret CENOERR))))
              (\<lambda>e. ret CERROR))))"

text \<open>The number returned has no \<open>stderr\<close>.\<close>

definition o_attach_epair :: "('x ojworld_scheme, unit) comp" where
  "o_attach_epair = with_self (\<lambda>j.
     case o_epair j of
       None \<Rightarrow> seqM (get_jail_id_by_name (o_name j)) (raise AttributeError)
     | Some e \<Rightarrow> bindM (attach_vnet_ifaces (o_name j) e) (\<lambda>res. if res \<noteq> 0 then raise AttributeError else ret ()))"

definition o_attach_inteface_up :: "('x ojworld_scheme, unit) comp" where
  "o_attach_inteface_up = with_self (\<lambda>j.
     if \<not> has_epair j \<or> \<not> has_jid j then ret ()
     else seqM (attach_vnet_ifaces (o_name j) (the (o_epair j))) (ret ()))"

definition o_deattach_epair :: "('x ojworld_scheme, unit) comp" where
  "o_deattach_epair = with_self (\<lambda>j.
     if \<not> has_epair j then ret () else seqM (deattach_vnet_ifaces (o_name j) (the (o_epair j))) (ret ()))"

definition o_destroy_epair :: "('x ojworld_scheme, unit) comp" where
  "o_destroy_epair = with_self (\<lambda>j.
     if \<not> has_epair j then ret ()
     else seqM (destroy_if (the (o_epair j))) (set_oself (\<lambda>j. j\<lparr>o_epair := None\<rparr>)))"

section \<open>Creation and destruction\<close>

definition o_create_jail :: "('x ojworld_scheme, unit) comp" where
  "o_create_jail = with_self (\<lambda>j.
     bindM (start_jail_from_json (o_json j)) (\<lambda>i.
     seqM (set_oself (\<lambda>j. j\<lparr>o_jid := Some i\<rparr>))
     (let network = dget (o_kwargs j) ''network'' JNull in
      seqM (whenM (truthy network)
        (bindM (liftR (jget network ''type'' JNull)) (\<lambda>net_type.
         seqM (whenM (net_type = JStr ''vnet'')
                (bindM (o_create_epair_up network) (\<lambda>res.
                 whenM (res \<noteq> CENOERR) (raise (GenericException ''Failed to Create Epair'')))))
              o_attach_inteface_up)))
      (seqM o_handle_fs_mounts o_handle_mounts))))"

definition o_stop_jail :: "('x ojworld_scheme, unit) comp" where
  "o_stop_jail = with_self (\<lambda>j.
     if \<not> has_jid j \<and> o_name j = [] then ret ()
     else seqM (do_call (ProcC (Spawn [''jexec'', if has_jid j then dec_int (the (o_jid j)) else o_name j,
                  ''/bin/sh'', ''/etc/rc.shutdown''])))
            (seqM (remove_jail_from_name (o_name j)) (ret ())))"

definition o_destroy_jail :: "('x ojworld_scheme, unit) comp" where
  "o_destroy_jail =
     tryM is_Exception
       (seqM o_deattach_epair (seqM o_stop_jail (seqM o_destroy_epair (seqM o_handle_fs_umounts o_handle_unmount))))
       (\<lambda>e. ret ())"

section \<open>Inside the jail\<close>

definition o_log :: "old_jail \<Rightarrow> string" where
  "o_log j = ''log/'' @ o_name j @ ''.log''"

definition o_redirect_io :: "('x ojworld_scheme, unit) comp" where
  "o_redirect_io = with_self (\<lambda>j.
     seqM (do_call (FsC (OpenFile (o_log j)))) (seqM (do_call (FsC (OpenFile ''/dev/null'')))
     (seqM (do_call (ProcC (Dup2 ''/dev/null'' 0))) (seqM (do_call (ProcC (Dup2 (o_log j) 1)))
     (seqM (do_call (ProcC (Dup2 (o_log j) 2))) (seqM (do_call (FsC (CloseFd ''/dev/null'')))
     (do_call (FsC (CloseFd (o_log j))))))))))"

definition o_write_pid :: "('x ojworld_scheme, unit) comp" where
  "o_write_pid = with_self (\<lambda>j.
     bindM (liftR (as_str TypeError (dget (o_kwargs j) ''path'' JNull))) (\<lambda>path.
     let pid_file = path_join path ''jail.pid'' in
     seqM (do_call (FsC (OpenFile pid_file)))
     (bindM (pycall (ProcC Getpid)) (\<lambda>r.
      do_call (FsC (WriteFile pid_file (dec_int (rv r) @ [CHR 0x0A])))))))"

definition o_jail_attach :: "('x ojworld_scheme, int) comp" where
  "o_jail_attach = with_self (\<lambda>j.
     if o_name j = [] then raise (GenericException ''JID is null.Failed to attach'') else jail_attach (o_name j))"

definition o_switch_user :: "('x ojworld_scheme, unit) comp" where
  "o_switch_user = with_self (\<lambda>j.
     let username = dget (o_kwargs j) ''user'' JNull in
     if \<not> truthy username \<or> username = JStr ''root'' then ret ()
     else tryM (\<lambda>e. e = KeyError \<or> is_PermissionError e)
       (bindM (liftR (as_str TypeError username)) (\<lambda>u.
        bindM (pycall (ProcC (Getpwnam u))) (\<lambda>pw.
        seqM (do_call (ProcC (Setgid (uint (raddr pw))))) (do_call (ProcC (Setuid (rv pw)))))))
       (\<lambda>e. raise (if e = KeyError
             then CustomException (''User '' @ CHR 0x27 # py_str username @ [CHR 0x27] @ '' not found'') (o_name j)
             else CustomException ''Permission error'' (o_name j))))"

text \<open>\<open>ipaddress.ip_interface\<close> of a JSON value.\<close>

fun interface_arg :: "json \<Rightarrow> (ipv4 \<times> ipv4) res" where
  "interface_arg (JStr s) = ip_interface s"
| "interface_arg (JInt n) = (if 0 \<le> n \<and> n < 2 ^ 32 then Inr (word_of_int n, - 1) else Inl ValueError)"
| "interface_arg (JBool b) = Inr (if b then 1 else 0, - 1)"
| "interface_arg _ = Inl ValueError"

definition o_setup_network :: "('x ojworld_scheme, unit) comp" where
  "o_setup_network = with_self (\<lambda>j.
     let network = dget (o_kwargs j) ''network'' JNull in
     if \<not> truthy network then ret ()
     else bindM (liftR (jget network ''type'' JNull)) (\<lambda>net_type.
       if net_type \<noteq> JStr ''vnet'' then ret ()
       else bindM (liftR (bindR (jget network ''ip'' JNull) interface_arg)) (\<lambda>(addr, nm).
         bindM (case o_epair j of None \<Rightarrow> raise AttributeError
                | Some e \<Rightarrow> set_if_address e (ip_str addr) (ip_str nm) None) (\<lambda>_.
         bindM (liftR (jget network ''dns'' JNull)) (\<lambda>dns.
         seqM (whenM (truthy dns) (do_call (FsC (WriteFile ''/etc/resolv.conf''
           (''# Generated by Jail'' @ [CHR 0x0A] @ ''nameserver '' @ py_str dns @ [CHR 0x0A])))))
         (bindM (liftR (jget network ''default_route'' JNull)) (\<lambda>route.
          whenM (truthy route) (do_call (ProcC (Spawn [''route'', ''add'', ''default'', py_str route])))))))))) "

definition o_setup_jail :: "('x ojworld_scheme, unit) comp" where
  "o_setup_jail = seqM (do_call (ProcC (Spawn [''/bin/sh'', ''/etc/rc'']))) o_setup_network"

text \<open>The arguments are extended with the command in every case.\<close>

definition o_exec_args :: "json \<Rightarrow> json \<Rightarrow> (json \<times> json list) res" where
  "o_exec_args entrypoint command =
     bindR (if truthy entrypoint then Inr (entrypoint, [entrypoint])
            else if truthy command then bindR (json_iter command) (\<lambda>_. bindR (json_head command) (\<lambda>c. Inr (c, [])))
            else Inr (JNull, [])) (\<lambda>(first, args).
     bindR (json_iter command) (\<lambda>cs. Inr (first, args @ cs)))"

text \<open>The test is for the key \<open>kwargs\<close>, the directory is that of the key \<open>workingDir\<close>.\<close>

definition o_exec_container :: "('x ojworld_scheme, unit) comp" where
  "o_exec_container = with_self (\<lambda>j.
     bindM (liftR (o_exec_args (dget (o_kwargs j) ''entrypoint'' JNull) (dget (o_kwargs j) ''command'' (JList [])))) (\<lambda>(first, args).
     seqM (whenM (truthy (dget (o_kwargs j) ''kwargs'' JNull))
       (bindM (liftR (as_str TypeError (dget (o_kwargs j) ''workingDir'' JNull))) (\<lambda>dir. do_call (ProcC (Chdir dir)))))
     (bindM (liftR (as_str TypeError first)) (\<lambda>f.
      seqM (do_call (ProcC (Execvpe f args (dget (o_kwargs j) ''env'' (JObj []))))) (raise ProcessReplaced)))))"

definition o_run :: "int \<Rightarrow> ('x ojworld_scheme, unit) comp" where
  "o_run res =
     (if res \<noteq> 0 then raise (SystemExit CEATTERR)
      else seqM o_setup_jail
        (tryM is_Exception (seqM o_switch_user o_exec_container)
          (\<lambda>e. raise (SystemExit (if is_OSError e then 128 else 1)))))"

definition o_child :: "('x ojworld_scheme, unit) comp" where
  "o_child = seqM o_redirect_io (seqM o_write_pid (bindM o_jail_attach o_run))"

section \<open>Properties\<close>

lemma o_no_exec_start: "emits no_exec o_redirect_io" "emits no_exec o_write_pid" "emits no_exec o_jail_attach"
  unfolding o_redirect_io_def o_write_pid_def o_jail_attach_def jail_attach_def get_jail_id_by_name_def
    jail_attach_wrapper_def Let_def
  by (intro emits_rules; simp)+

lemma o_appends_run [emits_rules]: "appends (o_run res)"
  unfolding o_run_def o_setup_jail_def o_setup_network_def o_switch_user_def o_exec_container_def Let_def
  by (intro emits_rules)

lemma o_run_refused: "res \<noteq> 0 \<Longrightarrow> calls (o_run res) v = []"
  by (simp add: o_run_def calls_def)

lemma o_jail_attach_zero:
  assumes "o_jail_attach w = (Inr 0, w')"
  shows "\<exists>pre i. calls o_jail_attach w = pre @ [JailC (Jail_attach i)] \<and>
    rv (kern w (trace w @ pre) (JailC (Jail_attach i))) = 0"
proof -
  have "o_jail_attach w = jail_attach (o_name (oself w)) w"
    using assms by (auto simp: o_jail_attach_def comp_simps split: if_splits)
  with assms jail_attach_zero [of "o_name (oself w)" w w'] show ?thesis by (simp add: calls_def)
qed

text \<open>The older child executes its program only inside the jail, too.\<close>

theorem old_exec_only_in_jail:
  assumes "ProcC (Execvpe f args env) \<in> set (calls o_child w)"
  shows "\<exists>pre i post. calls o_child w = pre @ JailC (Jail_attach i) # post \<and>
    rv (kern w (trace w @ pre) (JailC (Jail_attach i))) = 0 \<and> ProcC (Execvpe f args env) \<in> set post"
  using exec_after_attach [OF o_no_exec_start o_appends_run o_jail_attach_zero o_run_refused,
      where w = w and x = "ProcC (Execvpe f args env)"] assms unfolding o_child_def by (simp add: no_exec_def)

text \<open>
  The working directory of a configuration is not used: the test before the change of directory
  is for the key \<open>kwargs\<close>, without which the program is executed where the process happens to be.
\<close>

theorem old_working_directory_ignored:
  assumes "map_of (o_kwargs (oself w)) ''kwargs'' = None"
    and "o_exec_args (dget (o_kwargs (oself w)) ''entrypoint'' JNull) (dget (o_kwargs (oself w)) ''command'' (JList [])) =
      Inr (JStr f, args)"
  shows "calls o_exec_container w = [ProcC (Execvpe f args (dget (o_kwargs (oself w)) ''env'' (JObj [])))]"
  using assms by (simp add: o_exec_container_def comp_simps calls_def dget_def split: option.split)

theorem old_working_directory_ignored_witness:
  "\<exists>w :: unit ojworld_scheme. map_of (o_kwargs (oself w)) ''workingDir'' = Some (JStr ''/srv'') \<and>
     calls o_exec_container w = [ProcC (Execvpe ''id'' [JStr ''id''] (JObj []))]"
proof -
  let ?w = "\<lparr>kern = \<lambda>_ _. ok_ret, trace = [],
     oself = new_old_jail ''web'' True [] [(''command'', JList [JStr ''id'']), (''workingDir'', JStr ''/srv'')]\<rparr>"
  have a: "map_of (o_kwargs (oself ?w)) ''kwargs'' = None" by (simp add: new_old_jail_def)
  have b: "o_exec_args (dget (o_kwargs (oself ?w)) ''entrypoint'' JNull) (dget (o_kwargs (oself ?w)) ''command'' (JList [])) =
      Inr (JStr ''id'', [JStr ''id''])" by code_simp
  from old_working_directory_ignored [OF a b] show ?thesis
    by (intro exI [of _ ?w]) (simp add: new_old_jail_def dget_def)
qed

end
