(* ===== verification/DirectParent.thy ===== *)
theory DirectParent
  imports Worker
begin

text \<open>
  \<open>parent.py\<close>: the process the older manager starts for one container.  It detaches itself, makes the
  jail, forks the first process into it and waits for it.  Functions written as in
  \<open>kqueue_parent.py\<close>, but for what they print, are modelled by those.
\<close>

section \<open>Functions of both programs\<close>

definition direct_redirect_io :: "string \<Rightarrow> string option \<Rightarrow> string \<Rightarrow> ('x world_scheme, unit) comp" where
  "direct_redirect_io = worker_redirect_io"

definition direct_redirect_standard_fds :: "string \<Rightarrow> ('x world_scheme, unit) comp" where
  "direct_redirect_standard_fds = redirect_standard_fds"

definition direct_register_ports :: "json \<Rightarrow> json \<Rightarrow> ('x world_scheme, unit) comp" where
  "direct_register_ports = register_ports"

definition direct_notity_status :: "string \<Rightarrow> int \<Rightarrow> string \<Rightarrow> ('x world_scheme, int) comp" where
  "direct_notity_status = notity_status"

definition direct_register_subnet :: "string \<Rightarrow> string \<Rightarrow> ('x world_scheme, int) comp" where
  "direct_register_subnet = register_subnet"

definition direct_register_dns_entry :: "string \<Rightarrow> string \<Rightarrow> string \<Rightarrow> ('x world_scheme, int) comp" where
  "direct_register_dns_entry = register_dns_entry"

text \<open>The name is the global one, the program's argument, which \<open>start_container\<close> is given too.\<close>

definition direct_register_jail_network :: "string \<Rightarrow> json \<Rightarrow> ('x world_scheme, unit) comp" where
  "direct_register_jail_network name networks = register_jail_network name networks"

lemmas direct_defs = direct_redirect_io_def direct_redirect_standard_fds_def direct_register_ports_def
  direct_notity_status_def direct_register_subnet_def direct_register_dns_entry_def direct_register_jail_network_def

section \<open>The container\<close>

definition direct_transform_json :: "json \<Rightarrow> (json dict \<times> json dict) res" where
  "direct_transform_json j =
     (case j of JObj d \<Rightarrow>
       let data = AList.update ''fs_mounts'' (JList [JStr ''devfs'', JStr ''tmpfs'']) d in
       bindR (jindex (JObj data) ''name'') (\<lambda>name.
       bindR (as_str TypeError name) (\<lambda>n.
       bindR (bindR (jindex (JObj data) ''path'') (as_str TypeError)) (\<lambda>path.
       bindR (is_host_network data) (\<lambda>host.
       Inr (data,
         [(''name'', name), (''host.hostname'', JStr (n @ ''.jail'')), (''path'', JStr (path_join path ''root'')),
          (''devfs_ruleset'', JInt 4)] @
         (if host then [(''ip4'', JInt 2)] else [(''vnet'', JBool True)]) @
         [(''sysvshm'', JInt 1), (''sysvmsg'', JInt 1), (''sysvsem'', JInt 1), (''persist'', JBool True)])))))
     | _ \<Rightarrow> Inl TypeError)"

definition direct_register_all :: "string \<Rightarrow> json dict \<Rightarrow> ('x world_scheme, unit) comp" where
  "direct_register_all name data =
     bindM (liftR (jindex (JObj data) ''networks'')) (\<lambda>networks.
     whenM (truthy networks)
       (seqM (direct_register_jail_network name networks)
         (let ports = dget data ''ports'' JNull in
          whenM (truthy ports)
            (bindM (liftR (json_iter networks)) (\<lambda>ns. forM ns (\<lambda>n. direct_register_ports n ports))))))"

text \<open>The result tells whether to return early; a failure is reported and raised again.\<close>

definition direct_prepare :: "string \<Rightarrow> json dict \<Rightarrow> ('x jworld_scheme, bool) comp" where
  "direct_prepare name data =
     tryM is_Exception
       (seqM create_jail
       (bindM the_self (\<lambda>j.
        if (case jid j of Some i \<Rightarrow> i < 0 | None \<Rightarrow> False) then
          bindM (direct_notity_status name 100 ''Failed to Create JAIL'') (\<lambda>_. ret True)
        else seqM (direct_register_all name data) (ret False))))
       (\<lambda>e. seqM destroy_jail
             (bindM (direct_notity_status name 100 ''Failed to CREATE EPAIR'') (\<lambda>_. raise e)))"

definition direct_child :: "('x jworld_scheme, unit) comp" where
  "direct_child =
     tryM is_Exception (seqM (direct_redirect_standard_fds ''parent.log'') jail_child) (\<lambda>e. raise (SystemExit 1))"

text \<open>The parent's side of the fork.\<close>

definition wait_and_report :: "string \<Rightarrow> int \<Rightarrow> ('x jworld_scheme, unit) comp" where
  "wait_and_report name pid =
     bindM (pycall (ProcC (Waitpid pid))) (\<lambda>r.
     seqM destroy_jail
     (bindM (libc Now) (\<lambda>now.
      bindM (direct_notity_status name (exit_status (rv r)) (''Exited on: '' @ rtext now)) (\<lambda>_.
      raise (SystemExit 0)))))"

definition direct_start_container ::
  "string \<Rightarrow> json dict \<times> json dict \<Rightarrow> ('x jworld_scheme, unit) comp" where
  "direct_start_container name jail_json =
     seqM (set_self (\<lambda>_. new_jail name True (snd jail_json) (fst jail_json)))
     (bindM (direct_prepare name (fst jail_json)) (\<lambda>early.
      if early then ret ()
      else bindM (pycall (ProcC Fork)) (\<lambda>r. if rv r = 0 then direct_child else wait_and_report name (rv r))))"

section \<open>The program\<close>

text \<open>The middle process goes on after \<open>fork\<close> returned 0; the other one exits with 0.\<close>

definition fork_and_leave :: "('x world_scheme, unit) comp" where
  "fork_and_leave = bindM (pycall (ProcC Fork)) (\<lambda>r. whenM (0 < rv r) (raise (SystemExit 0)))"

definition direct_main :: "string list \<Rightarrow> ('x jworld_scheme, unit) comp" where
  "direct_main argv =
     (case argv of
        _ # name # _ \<Rightarrow>
          seqM fork_and_leave
          (seqM (do_call (ProcC Setsid))
          (seqM fork_and_leave
          (seqM (direct_redirect_standard_fds ''parent.log'')
          (bindM (pycall (HttpGet (api (''/api/container/'' @ name)))) (\<lambda>res.
           if rv res \<noteq> 200 then raise (SystemExit (- 1))
           else bindM (liftR (direct_transform_json (rjson res))) (\<lambda>data. direct_start_container name data))))))
      | _ \<Rightarrow> raise (SystemExit (- 1)))"

section \<open>Properties\<close>

text \<open>
  The two programs make the same jail, but for the secure level the worker adds.
\<close>

theorem direct_jail_is_worker_jail:
  "direct_transform_json j = map_sum id (\<lambda>(data, params). (data, AList.delete ''securelevel'' params)) (transform_json j)"
  by (cases j) (auto simp: direct_transform_json_def transform_json_def Let_def bindR_def split: sum.splits)

text \<open>
  C25.  When its container ends, the worker does for it what the process of its own did before: the same
  calls in the same order, from waiting for it to the report of its exit code.
\<close>

theorem worker_ends_container_as_before:
  assumes "quiet (w :: 'x wworld_scheme)" and "map_of (JAIL_DICT w) pid = Some (self w)" and "jname (self w) = name"
  shows "trace (snd (worker_remove_container pid True w)) = trace (snd (wait_and_report name pid w)) \<and>
    fst (worker_remove_container pid True w) = Inr () \<and> fst (wait_and_report name pid w) = Inl (SystemExit 0)"
proof -
  let ?w1 = "w\<lparr>trace := trace w @ [ProcC (Waitpid pid)]\<rparr>"
  have "quiet ?w1" using assms(1) by simp
  from destroy_jail_quiet [OF this] obtain w2 where w2: "destroy_jail ?w1 = (Inr (), w2)" "kern w2 = kern w"
    "JAIL_DICT w2 = JAIL_DICT w"
    by auto
  have r: "raises (kern w t c) = None" for t c using assms(1) by (metis quietD)
  show ?thesis
    using assms w2
    by (simp add: worker_remove_container_def destroy_tracked_def put_jail_def pop_jail_def wait_and_report_def
        direct_notity_status_def notity_status_def post_def comp_simps r)
qed

theorem worker_ends_container_as_before_witness:
  "trace (snd (worker_remove_container 7 True (tracking ''web''))) = trace (snd (wait_and_report ''web'' 7 (tracking ''web'')))"
proof -
  have q: "quiet (tracking ''web'')" by (rule quiet_tracking)
  have m: "map_of (JAIL_DICT (tracking ''web'')) 7 = Some (self (tracking ''web''))" by (simp add: tracking_def)
  have n: "jname (self (tracking ''web'')) = ''web''" by (simp add: tracking_def new_jail_def)
  from worker_ends_container_as_before [OF q m n] show ?thesis by simp
qed

text \<open>When the first process cannot be forked, the exception ends the program: the jail stays, and the
  server is told nothing.\<close>

lemma direct_fork_failure:
  assumes "direct_prepare name (fst js) (w\<lparr>self := new_jail name True (snd js) (fst js)\<rparr>) = (Inr False, w1)"
    and "raises (kern w1 (trace w1) (ProcC Fork)) = Some e"
  shows "direct_start_container name js w = (Inl e, w1\<lparr>trace := trace w1 @ [ProcC Fork]\<rparr>)"
  using assms by (simp add: direct_start_container_def set_self_def comp_simps pycall_apply)

end
