(* ===== verification/Signatures.thy ===== *)
theory Signatures
  imports Pf
begin

text \<open>
  What \<open>app2/pf/pf.py\<close> declares to ctypes of the C functions it calls: the structures of
  \<open>libpfctl\<close> and \<open>libpf_util\<close> and the \<open>argtypes\<close> of their functions.  The lemmas show that the functions
  of \<open>Pf\<close> call them with arguments of these types, and with the length of every array they pass.
\<close>

section \<open>The structures\<close>

definition FilterAddr_t :: ctype where
  "FilterAddr_t = CStruct [(''type'', c_uint8), (''addr'', CArray MAXPATHLEN c_char)]"

definition PfrTable_t :: ctype where
  "PfrTable_t = CStruct [(''pfrt_anchor'', CArray MAXPATHLEN c_char),
     (''pfrt_name'', CArray PF_TABLE_NAME_SIZE c_char), (''pfrt_flags'', c_uint32), (''pfrt_fback'', c_uint8)]"

definition InAddr_t :: ctype where
  "InAddr_t = CStruct [(''s_addr'', c_uint32)]"

definition U6addr_t :: ctype where
  "U6addr_t = CUnion [(''__u6_addr8'', CArray 16 c_uint8), (''__u6_addr16'', CArray 8 c_uint16),
     (''__u6_addr32'', CArray 4 c_uint32)]"

definition In6Addr_t :: ctype where
  "In6Addr_t = CStruct [(''__u6_addr'', U6addr_t)]"

definition PfraU_t :: ctype where
  "PfraU_t = CUnion [(''_pfra_ip4addr'', InAddr_t), (''_pfra_ip6addr'', In6Addr_t)]"

definition PfrAddr_t :: ctype where
  "PfrAddr_t = CStruct [(''pfra_u'', PfraU_t), (''pfra_af'', c_uint8), (''pfra_net'', c_uint8),
     (''pfra_not'', c_uint8), (''pfra_fback'', c_uint8)]"

text \<open>An address of a table takes 20 bytes, in steps of which the library goes through an array; a
  table takes 1064 bytes, three of them padding.\<close>

lemma pf_sizes: "sizeof FilterAddr_t = 1025" "sizeof PfrTable_t = 1064" "sizeof PfrAddr_t = 20"
  by code_simp+

section \<open>The declared arguments\<close>

text \<open>A number, text, and pointers: to a number, to an array of texts, to a structure.\<close>

datatype argtype = ArgInt | ArgCharP | ArgIntP | ArgCharPP | ArgP ctype

definition rdr_argtypes :: "argtype list" where
  "rdr_argtypes = [ArgInt, ArgCharP, ArgCharP, ArgCharP, ArgInt, ArgCharP, ArgInt, ArgCharPP, ArgInt, ArgInt, ArgInt]"

definition append_rdr_rule_argtypes :: "argtype list" where
  "append_rdr_rule_argtypes = rdr_argtypes"

definition add_rdr_rule_argtypes :: "argtype list" where
  "add_rdr_rule_argtypes = rdr_argtypes"

definition add_rdr_rule_if_argtypes :: "argtype list" where
  "add_rdr_rule_if_argtypes =
     [ArgInt, ArgCharP, ArgCharP, ArgCharP, ArgInt, ArgCharP, ArgInt, ArgCharP, ArgInt, ArgInt]"

definition table_add_argtypes :: "argtype list" where
  "table_add_argtypes = [ArgInt, ArgP PfrTable_t, ArgP PfrAddr_t, ArgInt, ArgIntP, ArgInt]"

definition table_del_argtypes :: "argtype list" where
  "table_del_argtypes = [ArgInt, ArgP PfrTable_t, ArgP PfrAddr_t, ArgInt, ArgIntP, ArgInt]"

definition pool_add_argtypes :: "argtype list" where
  "pool_add_argtypes = [ArgInt, ArgCharP, ArgInt, ArgCharPP, ArgInt]"

definition pool_remove_argtypes :: "argtype list" where
  "pool_remove_argtypes = [ArgInt, ArgCharP, ArgInt, ArgCharPP, ArgInt]"

definition rdr_src_if_argtypes :: "argtype list" where
  "rdr_src_if_argtypes =
     [ArgInt, ArgCharP, ArgCharP, ArgP FilterAddr_t, ArgInt, ArgP FilterAddr_t, ArgInt, ArgCharPP, ArgInt, ArgInt, ArgInt]"

definition rdr_generic_argtypes :: "argtype list" where
  "rdr_generic_argtypes =
     [ArgInt, ArgCharP, ArgCharP, ArgP FilterAddr_t, ArgInt, ArgP FilterAddr_t, ArgInt, ArgCharPP, ArgInt, ArgInt, ArgInt,
      ArgInt]"

definition clear_ruleset_argtypes :: "argtype list" where
  "clear_ruleset_argtypes = [ArgInt, ArgCharP]"

definition rdr_port_argtypes :: "argtype list" where
  "rdr_port_argtypes = [ArgInt, ArgCharP, ArgInt, ArgInt]"

definition nat_port_argtypes :: "argtype list" where
  "nat_port_argtypes = [ArgInt, ArgCharP, ArgInt, ArgInt]"

definition nat_generic_argtypes :: "argtype list" where
  "nat_generic_argtypes =
     [ArgInt, ArgCharP, ArgCharP, ArgP FilterAddr_t, ArgInt, ArgP FilterAddr_t, ArgInt, ArgCharPP, ArgInt, ArgInt, ArgInt,
      ArgInt]"

definition nat_src_if_argtypes :: "argtype list" where
  "nat_src_if_argtypes =
     [ArgInt, ArgCharP, ArgCharP, ArgP FilterAddr_t, ArgInt, ArgP FilterAddr_t, ArgInt, ArgCharPP, ArgInt, ArgInt, ArgInt]"

definition enable_argtypes :: "argtype list" where
  "enable_argtypes = [ArgInt]"

definition disable_argtypes :: "argtype list" where
  "disable_argtypes = [ArgInt]"

text \<open>The table of declarations.  \<open>clear_nat_ruleset\<close> has none.\<close>

definition declared :: "(string \<times> argtype list) list" where
  "declared =
     [(''append_rdr_rule'', append_rdr_rule_argtypes), (''add_rdr_rule'', add_rdr_rule_argtypes),
      (''add_rdr_rule_if'', add_rdr_rule_if_argtypes), (''pfctl_table_add_addrs'', table_add_argtypes),
      (''pfctl_table_del_addrs'', table_del_argtypes), (''add_addressList_to_pool'', pool_add_argtypes),
      (''remove_addressList_from_pool'', pool_remove_argtypes), (''append_rdr_rule_src_if'', rdr_src_if_argtypes),
      (''append_rdr_rule_generic'', rdr_generic_argtypes), (''clear_ruleset'', clear_ruleset_argtypes),
      (''remove_rdr_port_rule'', rdr_port_argtypes), (''remove_nat_port_rule'', nat_port_argtypes),
      (''append_nat_rule_generic'', nat_generic_argtypes), (''append_nat_rule_src_if'', nat_src_if_argtypes),
      (''enable'', enable_argtypes), (''disable'', disable_argtypes)]"

lemmas argtypes_defs = rdr_argtypes_def append_rdr_rule_argtypes_def add_rdr_rule_argtypes_def
  add_rdr_rule_if_argtypes_def table_add_argtypes_def table_del_argtypes_def pool_add_argtypes_def
  pool_remove_argtypes_def rdr_src_if_argtypes_def rdr_generic_argtypes_def clear_ruleset_argtypes_def
  rdr_port_argtypes_def nat_port_argtypes_def nat_generic_argtypes_def nat_src_if_argtypes_def
  enable_argtypes_def disable_argtypes_def

section \<open>Arguments of a type\<close>

definition in_c_int :: "int \<Rightarrow> bool" where
  "in_c_int n \<longleftrightarrow> - (2 ^ 31) \<le> n \<and> n < 2 ^ 31"

fun is_text :: "json \<Rightarrow> bool" where
  "is_text (JStr s) = True"
| "is_text _ = False"

text \<open>A filter address has a type in eight bits and text that fits; an address of a table has a word,
  and its family and length in eight bits with a sign; a table has a name that fits.\<close>

fun is_filter :: "json \<Rightarrow> bool" where
  "is_filter (JList [JInt k, JStr s]) \<longleftrightarrow> 0 \<le> k \<and> k < 2 ^ 8 \<and> length s \<le> MAXPATHLEN"
| "is_filter _ = False"

fun is_addr :: "json \<Rightarrow> bool" where
  "is_addr (JList [JInt a, JInt f, JInt n]) \<longleftrightarrow>
     0 \<le> a \<and> a < 2 ^ 32 \<and> - (2 ^ 7) \<le> f \<and> f < 2 ^ 7 \<and> - (2 ^ 7) \<le> n \<and> n < 2 ^ 7"
| "is_addr _ = False"

fun is_table :: "json \<Rightarrow> bool" where
  "is_table (JStr s) \<longleftrightarrow> length s \<le> PF_TABLE_NAME_SIZE"
| "is_table _ = False"

fun elements :: "json \<Rightarrow> json list" where
  "elements (JList xs) = xs"
| "elements _ = []"

definition accepts :: "argtype \<Rightarrow> json \<Rightarrow> bool" where
  "accepts t a = (case t of
       ArgInt \<Rightarrow> (case a of JInt n \<Rightarrow> in_c_int n | _ \<Rightarrow> False)
     | ArgIntP \<Rightarrow> (case a of JInt n \<Rightarrow> in_c_int n | _ \<Rightarrow> False)
     | ArgCharP \<Rightarrow> is_text a
     | ArgCharPP \<Rightarrow> (case a of JList xs \<Rightarrow> list_all is_text xs | _ \<Rightarrow> False)
     | ArgP s \<Rightarrow>
         if s = FilterAddr_t then is_filter a
         else if s = PfrTable_t then is_table a
         else if s = PfrAddr_t then (case a of JList xs \<Rightarrow> list_all is_addr xs | _ \<Rightarrow> False)
         else False)"

text \<open>The argument after an array is its length.  Nothing is known of a call of a function that is not
  declared: it is neither well typed nor well counted.\<close>

definition array_type :: "argtype \<Rightarrow> bool" where
  "array_type t \<longleftrightarrow> t = ArgCharPP \<or> t = ArgP PfrAddr_t"

fun counted :: "argtype list \<Rightarrow> json list \<Rightarrow> bool" where
  "counted (t # ts) (a # as) \<longleftrightarrow>
     (array_type t \<longrightarrow> (case as of n # _ \<Rightarrow> n = c_int (int (length (elements a))) | [] \<Rightarrow> False)) \<and> counted ts as"
| "counted _ _ = True"

definition well_typed :: "syscall \<Rightarrow> bool" where
  "well_typed c \<longleftrightarrow> (case c of
       NetC (PfCall fn as) \<Rightarrow> (case map_of declared fn of None \<Rightarrow> False | Some ts \<Rightarrow> list_all2 accepts ts as)
     | _ \<Rightarrow> True)"

definition well_counted :: "syscall \<Rightarrow> bool" where
  "well_counted c \<longleftrightarrow> (case c of
       NetC (PfCall fn as) \<Rightarrow> (case map_of declared fn of None \<Rightarrow> False | Some ts \<Rightarrow> counted ts as)
     | _ \<Rightarrow> True)"

lemma well_called_other [simp]:
  "well_typed (FsC c)" "well_counted (FsC c)"
  by (simp_all add: well_typed_def well_counted_def)

section \<open>What the functions pass\<close>

lemma c_int_accepted [simp]: "accepts ArgInt (c_int n)" "accepts ArgIntP (JInt 0)"
proof -
  have "- (2 ^ 31) \<le> sint (word_of_int n :: 32 word)" "sint (word_of_int n :: 32 word) < 2 ^ 31"
    using sint_range_size [of "word_of_int n :: 32 word"] by (simp_all add: word_size)
  then show "accepts ArgInt (c_int n)" by (simp add: accepts_def c_int_def in_c_int_def)
qed (simp add: accepts_def in_c_int_def)

lemma accepts_simps [simp]:
  "accepts ArgCharP (JStr s)"
  "accepts ArgCharPP (JList xs) \<longleftrightarrow> list_all is_text xs"
  "accepts (ArgP FilterAddr_t) a \<longleftrightarrow> is_filter a"
  "accepts (ArgP PfrTable_t) a \<longleftrightarrow> is_table a"
  "accepts (ArgP PfrAddr_t) (JList xs) \<longleftrightarrow> list_all is_addr xs"
  by (simp_all add: accepts_def FilterAddr_t_def PfrTable_t_def PfrAddr_t_def)

lemma array_types [simp]:
  "array_type ArgCharPP" "array_type (ArgP PfrAddr_t)" "\<not> array_type ArgInt" "\<not> array_type ArgCharP"
  "\<not> array_type ArgIntP" "\<not> array_type (ArgP FilterAddr_t)" "\<not> array_type (ArgP PfrTable_t)"
  by (simp_all add: array_type_def FilterAddr_t_def PfrTable_t_def PfrAddr_t_def)

lemma c_int_arg_accepted: "c_int_arg j = Inr x \<Longrightarrow> accepts ArgInt x"
  by (cases j) (auto simp: accepts_def [of ArgInt "JInt _"] in_c_int_def)

lemma c_ints_accepted:
  assumes "c_ints [a, b, c] = Inr ps"
  obtains x y z where "ps = [x, y, z]" "accepts ArgInt x" "accepts ArgInt y" "accepts ArgInt z"
  using assms by (auto simp: c_ints_def bindR_eq_Inr dest!: c_int_arg_accepted)

lemma c_ip_list_text: "c_ip_list r = Inr ips \<Longrightarrow> list_all is_text ips"
  by (auto simp: c_ip_list_def bindR_eq_Inr elim!: mapR_list_all)

lemma typed_addr_filter: "typed_addr k s = Inr a \<Longrightarrow> is_filter a"
  by (cases k) (auto simp: typed_addr_def c_chars_def split: if_splits)

lemma filter_addr_filter: "filter_addr s = Inr a \<Longrightarrow> is_filter a"
  by (auto simp: filter_addr_def Let_def typed_addr_filter split: if_splits)

lemma c_chars_table: "c_chars PF_TABLE_NAME_SIZE s = Inr t \<Longrightarrow> is_table (JStr t)"
  by (auto simp: c_chars_def split: if_splits)

lemma pfr_addr_addr: "pfr_addr ip net = Inr a \<Longrightarrow> is_addr a"
  using sint_range_size [of "word_of_int net :: 8 word"]
  by (auto simp: pfr_addr_def bindR_eq_Inr AF_INET_value_def word_size uint_lt2p [where 'a = 32, simplified]
      simp del: uint_lt2p)

lemma map_of_declared [simp]:
  "map_of declared ''append_rdr_rule'' = Some append_rdr_rule_argtypes"
  "map_of declared ''add_rdr_rule'' = Some add_rdr_rule_argtypes"
  "map_of declared ''add_rdr_rule_if'' = Some add_rdr_rule_if_argtypes"
  "map_of declared ''pfctl_table_add_addrs'' = Some table_add_argtypes"
  "map_of declared ''pfctl_table_del_addrs'' = Some table_del_argtypes"
  "map_of declared ''add_addressList_to_pool'' = Some pool_add_argtypes"
  "map_of declared ''remove_addressList_from_pool'' = Some pool_remove_argtypes"
  "map_of declared ''append_rdr_rule_src_if'' = Some rdr_src_if_argtypes"
  "map_of declared ''append_rdr_rule_generic'' = Some rdr_generic_argtypes"
  "map_of declared ''clear_ruleset'' = Some clear_ruleset_argtypes"
  "map_of declared ''clear_nat_ruleset'' = None"
  "map_of declared ''remove_rdr_port_rule'' = Some rdr_port_argtypes"
  "map_of declared ''remove_nat_port_rule'' = Some nat_port_argtypes"
  "map_of declared ''append_nat_rule_generic'' = Some nat_generic_argtypes"
  "map_of declared ''append_nat_rule_src_if'' = Some nat_src_if_argtypes"
  "map_of declared ''enable'' = Some enable_argtypes"
  "map_of declared ''disable'' = Some disable_argtypes"
  by (simp_all add: declared_def)

text \<open>A call is in order when its arguments have the declared types and every array its length.\<close>

definition in_order :: "syscall \<Rightarrow> bool" where
  "in_order c \<longleftrightarrow> well_typed c \<and> well_counted c"

lemma in_order_simps [simp]:
  "in_order (FsC c)"
  "in_order (NetC (PfCall fn as)) \<longleftrightarrow>
     (case map_of declared fn of None \<Rightarrow> False | Some ts \<Rightarrow> list_all2 accepts ts as \<and> counted ts as)"
  by (simp_all add: in_order_def well_typed_def well_counted_def split: option.splits)

lemma texts [simp]: "list_all is_text (map JStr xs)"
  by (simp add: list_all_iff)

lemma c_ints_nth:
  assumes "c_ints [a, b, c] = Inr ps"
  shows "accepts ArgInt (ps ! 0)" "accepts ArgInt (ps ! 1)" "accepts ArgInt (ps ! 2)"
  using assms by (auto elim!: c_ints_accepted)

lemmas argument_facts = c_ints_nth [unfolded One_nat_def] c_ints_nth c_ip_list_text typed_addr_filter filter_addr_filter
  c_chars_table pfr_addr_addr c_int_arg_accepted mapR_Inr_length

lemma table_call_in_order:
  assumes "is_table (JStr t)" "list_all is_addr as"
  shows "in_order (NetC (PfCall ''pfctl_table_add_addrs''
      [c_int dev, JStr t, JList as, c_int (int (length as)), JInt 0, c_int flags]))"
    "in_order (NetC (PfCall ''pfctl_table_del_addrs''
      [c_int dev, JStr t, JList as, c_int (int (length as)), JInt 0, c_int flags]))"
  using assms by (simp_all add: argtypes_defs)

lemma rules_in_order [emits_rules]:
  "emits in_order (pfctl_add_rdr_rule ifn src dst rdr rp sp dp af)"
  "emits in_order (pfctl_append_rdr_rule ifn an src dst rdr rp sp dp af)"
  "emits in_order (pfctl_add_rdr_rule_if ifn src dst rp sp dp af)"
  "emits in_order (rule_src_if ifn an src dst rdr rp sp dp af)"
  "emits in_order (rule_generic ''append_rdr_rule_generic'' i an src d rdr rp sp dp af q)"
  "emits in_order (rule_generic ''append_nat_rule_generic'' i an src d rdr rp sp dp af q)"
  unfolding pf_rule_defs
  by (rule emits_with_pf, simp, simp, rule emits_pf_call,
      auto simp: bindR_eq_Inr argtypes_defs argument_facts)+

lemma switches_in_order [emits_rules]:
  "emits in_order (pfctl_add_addressList_to_pool path n addrs)"
  "emits in_order (pfctl_remove_addressList_from_pool path n addrs)"
  "emits in_order (pfctl_clear_ruleset an)"
  "emits in_order (pfctl_remove_rdr_port_rule an port pr)" "emits in_order (pfctl_remove_nat_port_rule an port pr)"
  "emits in_order pfctl_enable" "emits in_order pfctl_disable"
  unfolding pf_rule_defs
  by (rule emits_with_pf, simp, simp, rule emits_pf_call,
      auto simp: bindR_eq_Inr argtypes_defs argument_facts)+

text \<open>What is computed before a call is known in it.\<close>

lemma with_pf_in_order:
  "(\<And>dev. in_order (NetC (PfCall fn (as dev)))) \<Longrightarrow> emits in_order (with_pf err (\<lambda>dev. pf_call fn (Inr (as dev))))"
  by (intro emits_with_pf emits_pf_call) auto

lemma tables_in_order [emits_rules]:
  "emits in_order (pfctl_table_add_addrs dev t a flags)"
  "emits in_order (pfctl_table_add_addrs_list t addrs flags)"
  "emits in_order (pfctl_table_del_addr_list t addrs flags)"
  "emits in_order (pfctl_table_del_addrs dev t a 1 flags)"
  "emits well_typed (pfctl_table_del_addrs dev t a n flags)"
proof -
  show "emits in_order (pfctl_table_add_addrs dev t a flags)"
    unfolding pfctl_table_add_addrs_def by (intro emits_rules; simp add: split_beta)+
  show "emits in_order (pfctl_table_add_addrs_list t addrs flags)"
  proof (cases "addrs = []")
    case False
    show ?thesis
      unfolding pfctl_table_add_addrs_list_def if_not_P [OF False]
    proof (intro emits_bind_liftR with_pf_in_order, goal_cases)
      case (1 u as dev)
      have "list_all is_addr as"
        by (rule mapR_list_all [OF 1(2)])
          (auto simp: bindR_eq_Inr split: list.splits prod.splits intro: pfr_addr_addr)
      from table_call_in_order(1) [OF c_chars_table [OF 1(1)] this]
      show ?case by (simp only: mapR_Inr_length [OF 1(2)])
    qed
  qed (simp add: pfctl_table_add_addrs_list_def emits_raise)
  show "emits in_order (pfctl_table_del_addr_list t addrs flags)"
  proof (cases "addrs = []")
    case False
    show ?thesis
      unfolding pfctl_table_del_addr_list_def if_not_P [OF False]
    proof (intro emits_bind_liftR with_pf_in_order, goal_cases)
      case (1 u as dev)
      have "list_all is_addr as"
        by (rule mapR_list_all [OF 1(2)]) (rule pfr_addr_addr)
      from table_call_in_order(2) [OF c_chars_table [OF 1(1)] this]
      show ?case by (simp only: mapR_Inr_length [OF 1(2)])
    qed
  qed (simp add: pfctl_table_del_addr_list_def emits_raise)
  show "emits in_order (pfctl_table_del_addrs dev t a 1 flags)"
    unfolding pfctl_table_del_addrs_def
    by (rule emits_bindM, rule emits_pf_call)
      (auto simp: bindR_eq_Inr argtypes_defs argument_facts c_chars_table [simplified] intro!: emits_rules)
  show "emits well_typed (pfctl_table_del_addrs dev t a n flags)"
    unfolding pfctl_table_del_addrs_def
    by (rule emits_bindM, rule emits_pf_call)
      (auto simp: well_typed_def bindR_eq_Inr argtypes_defs argument_facts c_chars_table [simplified] intro!: emits_rules)
qed

text \<open>\<open>clear_nat_ruleset\<close> is called without a declaration: ctypes hands over what it is given, a number
  and text, as a C int and a pointer.\<close>

definition nat_cleared :: "string \<Rightarrow> syscall \<Rightarrow> bool" where
  "nat_cleared anchor c \<longleftrightarrow> (\<exists>dev. c = NetC (PfCall ''clear_nat_ruleset'' [c_int dev, JStr anchor]))"

lemma clear_nat_calls: "emits (\<lambda>c. in_order c \<or> nat_cleared an c) (pfctl_clear_nat_ruleset an)"
  unfolding pfctl_clear_nat_ruleset_def
  by (rule emits_with_pf, simp, simp, rule emits_pf_call) (auto simp: nat_cleared_def)

section \<open>Properties\<close>

text \<open>C39.  Every function of the packet filter calls only functions of the C library that are declared to
  ctypes and hands them what it declares: as many arguments as declared, each of its declared type,
  numbers in the range of a C int whatever the caller gave, names and addresses in the fields that hold
  them, and after every array its length.  There are two exceptions.  \<open>clear_nat_ruleset\<close> has no
  declaration: it is called with a number and the name of the anchor.  For the deletion of one address
  the caller gives the length: the types are right whatever it gives, the length only when it is 1
  (\<open>table_del_miscounts\<close> shows 2).
\<close>

theorem pf_calls_in_order:
  "emits in_order (pfctl_add_rdr_rule ifn src dst rdr rp sp dp af) \<and>
   emits in_order (pfctl_append_rdr_rule ifn an src dst rdr rp sp dp af) \<and>
   emits in_order (pfctl_add_rdr_rule_if ifn src dst rp sp dp af) \<and>
   emits in_order (pfctl_append_rdr_rule_src_if ifn an src dst rdr rp sp dp af) \<and>
   emits in_order (pfctl_append_nat_rule_src_if ifn an src dst rdr rp sp dp af) \<and>
   emits in_order (pfctl_append_rdr_rule_generic i an src d rdr rp sp dp af q) \<and>
   emits in_order (pfctl_append_nat_rule_generic i an src d rdr rp sp dp af q) \<and>
   emits in_order (pfctl_add_addressList_to_pool path n addrs) \<and>
   emits in_order (pfctl_remove_addressList_from_pool path n addrs) \<and>
   emits in_order (pfctl_clear_ruleset an) \<and>
   emits in_order (pfctl_remove_rdr_port_rule an port pr) \<and>
   emits in_order (pfctl_remove_nat_port_rule an port pr) \<and>
   emits in_order pfctl_enable \<and> emits in_order pfctl_disable \<and>
   emits in_order (pfctl_table_add_addrs_list t addrs flags) \<and>
   emits in_order (pfctl_table_del_addr_list t addrs flags) \<and>
   emits in_order (pfctl_table_add_addrs dev t a flags) \<and>
   emits well_typed (pfctl_table_del_addrs dev t a n flags) \<and> emits in_order (pfctl_table_del_addrs dev t a 1 flags) \<and>
   emits (\<lambda>c. in_order c \<or> (\<exists>dev. c = NetC (PfCall ''clear_nat_ruleset'' [c_int dev, JStr an]))) (pfctl_clear_nat_ruleset an)"
  unfolding pfctl_append_rdr_rule_src_if_def pfctl_append_nat_rule_src_if_def
    pfctl_append_rdr_rule_generic_def pfctl_append_nat_rule_generic_def
  by (intro conjI emits_rules clear_nat_calls [unfolded nat_cleared_def])

text \<open>The deletion of one address passes whatever length its caller gives, though the array has one
  address.\<close>

theorem table_del_miscounts:
  "calls (pfctl_table_del_addrs 3 ''blocked'' ''10.0.0.1'' 2 0) w =
     [NetC (PfCall ''pfctl_table_del_addrs'' [JInt 3, JStr ''blocked'', JList [JList [JInt 0x0A000001, JInt 2, JInt 32]],
        JInt 2, JInt 0, JInt 0])] \<and>
   list_all well_typed (calls (pfctl_table_del_addrs 3 ''blocked'' ''10.0.0.1'' 2 0) w) \<and>
   \<not> list_all well_counted (calls (pfctl_table_del_addrs 3 ''blocked'' ''10.0.0.1'' 2 0) w)"
proof -
  let ?c = "NetC (PfCall ''pfctl_table_del_addrs'' [JInt 3, JStr ''blocked'', JList [JList [JInt 0x0A000001, JInt 2, JInt 32]],
        JInt 2, JInt 0, JInt 0])"
  have "bindR (c_chars PF_TABLE_NAME_SIZE ''blocked'') (\<lambda>t. bindR (pfr_addr ''10.0.0.1'' 32) (\<lambda>a.
      Inr [c_int 3, JStr t, JList [a], c_int 2, JInt 0, c_int 0])) =
    Inr [JInt 3, JStr ''blocked'', JList [JList [JInt 0x0A000001, JInt 2, JInt 32]], JInt 2, JInt 0, JInt 0]"
    by code_simp
  then have "calls (pfctl_table_del_addrs 3 ''blocked'' ''10.0.0.1'' 2 0) w = [?c]"
    by (simp add: calls_def pfctl_table_del_addrs_def pf_call_def comp_simps)
  moreover have "well_typed ?c" "\<not> well_counted ?c" by code_simp+
  ultimately show ?thesis by simp
qed

end
