(* ===== verification/NetworkSetup.thy ===== *)
theory NetworkSetup
  imports Kernel SubnetAllocator PyLibrary
begin

text \<open>
  \<open>app2/network/setup.py\<close>: an early version of the creation and the start of a network.  It imports
  nothing of what it calls but the allocator.
\<close>

section \<open>Operations\<close>

text \<open>\<open>get_if_index\<close> is not bound in the module: nothing after the arguments is reached.\<close>

definition setup_start_network :: "json \<Rightarrow> unit res" where
  "setup_start_network network =
     bindR (jget network ''type'' JNull) (\<lambda>net_type.
     if net_type = JStr ''vnet'' then
       bindR (jget network ''net_if'' JNull) (\<lambda>net_if.
       bindR (jget network ''net_addr'' JNull) (\<lambda>net_addr. Inl NameError))
     else Inr ())"

text \<open>\<open>conn\<close>, as text, goes where the allocator takes its base network, and the prefix where it takes
  the allocated networks: a number, which the check of the first candidate cannot iterate over.\<close>

definition setup_allocate :: "string \<Rightarrow> nat \<Rightarrow> (string \<times> nat) option res" where
  "setup_allocate conn allocated =
     bindR (ip_network conn) (\<lambda>base.
     bindR (subnets base 24) (\<lambda>candidates.
     case candidates of [] \<Rightarrow> Inr None | _ # _ \<Rightarrow> Inl TypeError))"

text \<open>What follows splits a pair as text.\<close>

definition setup_create_network :: "string \<Rightarrow> string \<Rightarrow> nat \<Rightarrow> unit res" where
  "setup_create_network name conn plen =
     bindR (setup_allocate conn plen) (\<lambda>subnet. Inl AttributeError)"

section \<open>Lemmas\<close>

text \<open>The start of a virtual network and the creation of any network raise.\<close>

lemma setup_start_fails:
  "map_of d ''type'' = Some (JStr ''vnet'') \<Longrightarrow> setup_start_network (JObj d) = Inl NameError"
  by (simp add: setup_start_network_def dget_def)

lemma setup_create_fails: "\<exists>e. setup_create_network name conn plen = Inl e"
  by (auto simp: setup_create_network_def bindR_def split: sum.splits)

end
