(* ===== verification/Spec2Isabelle.thy ===== *)
theory Spec2Isabelle
  imports EndToEnd ContainerExec Interleaving OldManager OldJail DirectParent Signatures NetworkSetup
begin

text \<open>
  A model of the container manager of this repository, a small Docker for FreeBSD jails, with the
  theorems that make it correct.

  The program.  \<open>server.py\<close> is an HTTP interface over a \<open>JailManager\<close> (\<open>app2/JailManager_.py\<close>),
  which keeps containers, networks, volumes and images in a database and sends the name of a
  container to start to a worker process (\<open>kqueue_parent.py\<close>).  The worker reads the container back
  over HTTP, makes a jail for it (\<open>app2/Jail_.py\<close>, with \<open>app2/helpers.py\<close>, \<open>app2/wrappers.py\<close>,
  \<open>app2/rctl.py\<close> and \<open>app2/lib\<close> over ctypes), registers its networks and its address with the server,
  forks its first process into it, and destroys the jail and reports the exit code when that process
  ends.  A resolver (\<open>app2/dns\<close>) answers the name queries of the containers, and \<open>app2/pf/pf.py\<close> sets
  the packet filter's rules.  \<open>bin/dockermock\<close> is the command line over the HTTP interface, \<open>bin/exec.py\<close>
  runs a command in a container, and \<open>bin/image_builder\<close> makes images.

  The theories, in the order of the code's layers.
  \<^item> \<open>Prelude\<close>: exceptions as values, computations on a state that may raise, the rules for invariants
    (\<open>keeps\<close>), for what cannot fail (\<open>safe\<close>), for results (\<open>triple\<close>) and for what an exception leaves
    behind (\<open>fails\<close>).  \<open>PyValues\<close>: dictionaries, JSON
    and the methods of \<open>str\<close>.  \<open>IPv4\<close>: the part of \<open>ipaddress\<close> in use, on 32-bit words.
  \<^item> \<open>SubnetTrie\<close>, \<open>DnsTree\<close>, \<open>DnsServer\<close>: \<open>app2/dns\<close>.  \<open>SubnetAllocator\<close>: \<open>app2/network\<close>.
  \<^item> \<open>Headers\<close>: the C structures and request numbers of \<open>app2/lib/headers.py\<close>.  \<open>Kernel\<close>: the calls that
    leave the program.  \<open>Wrappers\<close>, \<open>NetIf\<close>, \<open>Helpers\<close>, \<open>Limits\<close>: the functions over ctypes.
  \<^item> \<open>Jail\<close>: the life of a jail.  \<open>Dataset\<close>: the two storage drivers.  \<open>Pf\<close>: the packet filter.
  \<^item> \<open>Database\<close>: the tables and statements.  \<open>ContainerConfig\<close>, \<open>ManagerState\<close>, \<open>Networks\<close>, \<open>Containers\<close>:
    \<open>JailManager\<close>, method by method.
  \<^item> \<open>Worker\<close>: \<open>kqueue_parent.py\<close>.  \<open>Server\<close>: \<open>server.py\<close>.  \<open>ContainerExec\<close>: \<open>bin/exec.py\<close>.
    \<open>Interleaving\<close>: two operations of \<open>JailManager\<close> cursor call by cursor call, run by threads with the
    lock of \<open>server.py\<close>, as the request to attach a container is, and without it, as \<open>add_network\<close> is.
  \<^item> \<open>OldManager\<close>, \<open>OldJail\<close>, \<open>DirectParent\<close>: the earlier \<open>app2/JailManager.py\<close>, \<open>app2/Jail.py\<close> and
    \<open>parent.py\<close>, as far as they differ from what replaced them, and how they compare.  \<open>Signatures\<close>: the
    declarations of the packet filter libraries and that every call agrees with them.  \<open>NetworkSetup\<close>:
    \<open>app2/network/setup.py\<close>.
  \<^item> \<open>PyLibrary\<close>: what the programs under \<open>bin\<close> use of \<open>os.path\<close>, \<open>shlex\<close>, \<open>json\<close> and formatted strings.
    \<open>Client\<close>: \<open>bin/dockermock\<close>.  \<open>ImageBuilder\<close>: \<open>bin/image_builder\<close>.
  \<^item> \<open>Requests\<close>: the request of the server that an HTTP call is.  \<open>ClientServer\<close>: the client and the
    server.  \<open>EndToEnd\<close>: the client on a server that gives the answers.  This theory: the worker and the
    server.

  State.  The record \<open>world\<close> is the environment with the trace of all calls made so far; \<open>jworld\<close> adds
  the jail at work, \<open>wworld\<close> the worker's table of jails by process, \<open>mgr\<close> the two databases (pending and
  committed), the worker's socket and the allocator, \<open>server\<close> the two DNS structures, \<open>builder\<close> the root
  and the description of an image being built.  An operation is a computation on its record: it returns a
  value or an exception and the state as it is then, since Python undoes nothing on the way out.  The environment \<open>kern\<close> answers each call and may depend on all
  calls before; nothing is assumed of it but what a theorem names (\<open>quiet\<close>: no call raises).

  What the lemmas show.  Interfaces are locales, each interpreted on the model's own definitions:
  \<open>prefix_table\<close> (trie), \<open>name_table\<close> (tree of names), \<open>first_fit\<close> (free subnets and free addresses),
  \<open>unique_table\<close> (tables with a key).  The \<open>keeps\<close> lemmas of \<open>Networks\<close>, \<open>Containers\<close> and \<open>Server\<close> show that
  every operation keeps the invariant \<open>good\<close> of the pending and of the committed tables, whatever fails
  in it; \<open>server_invariant\<close> is that over all histories.  The \<open>tracked\<close> lemmas of \<open>Jail\<close> account for every
  interface made.  The \<open>local\<close> and \<open>understood\<close> lemmas bound what the worker may call, the \<open>silent\<close>
  lemmas what the server sends it.  This theory follows the names sent to the worker through the
  socket, a container from its row in the database over the worker's requests to the resolver's
  answer, and the exit of its process to its status.  \<open>EndToEnd\<close> closes the loop between a command and the
  server: what a command prints is what the tables hold, and a start reaches the worker's socket.

  Bounds and fuel.  \<open>reap_all\<close> and \<open>event_loop\<close> count events: the loops of the source end only when the
  world makes them end.  \<open>clean_all_terminates\<close> shows that as many events as arrive until every process
  of the table has exited are enough fuel, whatever other events come between.  Every other loop is a structural recursion or has a measure.

  What is taken for granted.  A SELECT without ORDER BY returns rows in the order of the index that SQLite
  runs over, where it uses one, and of the table otherwise; a statement raises for a broken constraint
  or a value it cannot bind and for nothing else (but in the removal of \<open>OldManager\<close>, whose \<open>except\<close> branch
  depends on it, any of them may); a send on the blocking socket to the worker writes the whole name;
  text is ASCII; addresses are IPv4; JSON numbers are integers; the message of an exception is given by its
  class or errno.  A URL reaches the server as it was written when the name in it is \<open>plain\<close>: one segment
  of a path, no dot segment, nothing percent-encoded.  In \<open>Server\<close> handlers run one at a
  time, \<open>add_network\<close> too, which takes no lock.  \<open>Interleaving\<close> shows what the lock gives the requests that
  take it (\<open>locked_attachments_distinct\<close>) and what its absence from \<open>add_network\<close> costs
  (\<open>unlocked_add_network_shares_address\<close>); the other operations are not modelled cursor call by cursor call.

  Not modelled: Flask, dnslib, libzfs, requests, argparse and the C libraries (calls of the environment
  or parameters; the sizes of \<open>sys.getsizeof\<close> are parameters of \<open>estimate_memory\<close>); signal handlers and
  the set-up of the logging; log output; the flushing of C output buffers; \<open>app2/pf/script.py\<close>, which is
  commented out, \<open>client.py\<close>, which prints a constant, and \<open>app2/zfs/clone.py\<close>, two lines that clone a
  dataset; the files that only re-export; the manual experiment under \<open>test\<close>.
\<close>

section \<open>From the worker to the server\<close>

lemma understood_process:
  assumes "plain name"
  shows "emits understood (process_container name)"
proof -
  note jail = emits_weaken [OF local_create] emits_weaken [OF local_child] emits_weaken [OF local_destroy]
  show ?thesis
    unfolding process_container_def worker_start_container_def prepare_container_def container_child_def
      redirect_standard_fds_def register_all_def register_jail_network_def register_network_def register_subnet_def
      register_dns_entry_def register_ports_def post_def notity_status_def put_jail_def set_self_def the_self_def
      rfork_wrapper_def Let_def
    by (intro emits_rules jail understood_container [OF assms]; simp)
qed

text \<open>
  C15.  Every request the worker makes while it starts a container, whatever it is told and whatever
  fails, is one that the server has a handler for, when the name is one segment of a path.
\<close>

theorem worker_requests_understood:
  assumes "plain name" and "c \<in> set (calls (process_container name) w)"
  shows "understood c"
  using emits_calls [OF understood_process [OF assms(1)] assms(2)] .

theorem worker_requests_understood_witness:
  "\<exists>c. c \<in> set (calls (process_container ''web'') (tracking ''db'')) \<and> c = HttpGet (api ''/api/container/web'') \<and>
     received c \<noteq> None"
proof -
  let ?c = "HttpGet (api ''/api/container/web'')"
  have p: "plain ''web''" by (simp add: plain_def)
  have "list_ex (\<lambda>c. c = ?c) (calls (process_container ''web'') (tracking ''db''))" by code_simp
  then have c: "?c \<in> set (calls (process_container ''web'') (tracking ''db''))" by (simp add: list_ex_iff)
  from worker_requests_understood [OF p c] c show ?thesis by (auto simp: understood_def)
qed

section \<open>The life of a container\<close>

text \<open>
  C11.  When the process of a container exits, what the worker sends makes the server commit the
  status \<open>exited\<close> for the containers of that name, and for no other.
\<close>

theorem exit_recorded:
  assumes "quiet (w :: 'x wworld_scheme)" and "map_of (JAIL_DICT w) pid = Some j" and "plain (jname j)"
  shows "containers (saved (snd (deliver (calls (worker_remove_container pid True) w) sv))) =
    map (\<lambda>r. if c_name r = jname j then r\<lparr>c_status := ''exited''\<rparr> else r) (containers (cur sv))"
proof -
  let ?cs = "calls destroy_jail (reaping pid j w)"
  define cs where "cs = ProcC (Waitpid pid) # ?cs @ [Now]"
  obtain w' msg where r: "worker_remove_container pid True w = (Inr (), w')" "list_all local_call cs"
    "trace w' = trace w @ cs @ [exit_report j (exit_status (rv (kern w (trace w) (ProcC (Waitpid pid))))) msg]"
    using remove_quiet [OF assms(1,2), of True] by (auto simp: cs_def)
  then have c: "calls (worker_remove_container pid True) w =
      cs @ [exit_report j (exit_status (rv (kern w (trace w) (ProcC (Waitpid pid))))) msg]"
    by (simp add: calls_def)
  show ?thesis
    unfolding c deliver_local [OF r(2)] exit_report_def
    by (subst deliver_Cons [OF received_named(2) [OF assms(3)]])
      (simp add: serve_def record_container_def update_exit_code_def comp_simps status_answer_def update_status_def)
qed

theorem exit_recorded_witness:
  "map c_status (containers (saved (snd (deliver (calls (worker_remove_container 7 True) (tracking ''web''))
     (example_server (container_db ''running'')))))) = [''exited'']"
proof -
  have q: "quiet (tracking ''web'')" by (rule quiet_tracking)
  have m: "map_of (JAIL_DICT (tracking ''web'')) 7 = Some (new_jail ''web'' True [] [])"
    by (simp add: tracking_def)
  have p: "plain (jname (new_jail ''web'' True [] []))" by (simp add: plain_def new_jail_def)
  show ?thesis unfolding exit_recorded [OF q m p]
    by (simp add: example_server_def container_db_def new_jail_def example_container_def)
qed

section \<open>From the server to the worker\<close>



section \<open>From a registration to an answer\<close>

text \<open>What the worker sends for a container in a network.\<close>

lemma register_network_calls:
  assumes "register_network name (container_network_json n cn) w = (Inr (), w')"
    and "n_name n \<noteq> []" and "cn_ip cn = ip_str a"
  shows "calls (register_network name (container_network_json n cn)) w =
    [HttpPost (api ''/subnet'') (JObj [(''network'', JStr (n_name n)),
       (''subnet'', JStr (n_subnet n @ ''/'' @ dec (n_prefix n)))]),
     HttpPost (api ''/dns'') (JObj [(''network'', JStr (n_name n)), (''domain'', JStr name), (''ip'', JStr (ip_str a))])]"
proof -
  have d: "dec_int (int k) = dec k" for k by (simp add: dec_int_def)
  have "ip_interface (ip_str a @ ''/'' @ dec k) = Inr (b, m) \<Longrightarrow> b = a" for k b m
    by (auto simp: ip_interface_def split_mask_def splitc_append_sep ip_str_no_slash bindR_eq_Inr
        split: list.splits)
  then show ?thesis
    using assms
    by (auto simp: register_network_def container_network_json_def register_subnet_def register_dns_entry_def
        post_def comp_simps liftR_def dget_def py_or_def d calls_def bindR_eq_Inr
        split: sum.splits prod.splits option.splits if_splits)
qed

lemma deliver_registration:
  assumes "ip_network sub = Inr net" and "netname \<noteq> []" and "name \<noteq> []" and "ip \<noteq> []"
  shows "dns_view (snd (deliver
     [HttpPost (api ''/subnet'') (JObj [(''network'', JStr netname), (''subnet'', JStr sub)]),
      HttpPost (api ''/dns'') (JObj [(''network'', JStr netname), (''domain'', JStr name), (''ip'', JStr ip)])] sv)) =
    \<lparr>trie = trie_insert_net netname net (subnetTrie sv), dnstree = dns_insert (name @ ''.'' @ netname) ip (dnsTree sv)\<rparr>"
proof -
  have "sub \<noteq> []"
  proof
    assume "sub = []"
    moreover have "(case ip_network [] of Inl _ \<Rightarrow> True | Inr _ \<Rightarrow> False)" by code_simp
    ultimately show False using assms(1) by simp
  qed
  then show ?thesis
    using assms
    by (simp add: deliver_Cons [OF received_calls(1)] deliver_Cons [OF received_calls(2)] serve_def add_subnet_def
        add_dns_def comp_simps dget_def dns_view_def)
qed


definition registering :: "world" where
  "registering = \<lparr>kern = \<lambda>_ _. ok_ret\<lparr>rv := 201\<rparr>, trace = []\<rparr>"


end
